(* ===== verification/Prelude.thy ===== *)
theory Prelude
  imports Complex_Main "HOL-Library.Monad_Syntax"
begin

text \<open>
  Shared vocabulary of the development: the \<open>#define\<close> constants of
  \<open>src/source/virtualLego.cpp\<close> (lines 13--30), the C operations the program
  relies on whose HOL counterparts differ from C (conversion of a \<open>double\<close> to
  \<open>int\<close>, reads and writes of fixed-size arrays), and the generic lemmas on them
  that the component theories share. A C \<open>double\<close> is modelled as a real number
  (type synonym \<open>double\<close>); the consequences of this idealisation are listed in the
  header of \<open>Spec2Isabelle\<close>.
\<close>

type_synonym double = real

named_theorems macro_defs "unfolding rules of the #define constants"
named_theorems trunc_simps "evaluation rules of the C double-to-int conversion"

section \<open>The \<open>#define\<close> constants\<close>

definition M_RADIUS :: double where "M_RADIUS = 0.05"
definition PLAYERHEIGHT :: double where "PLAYERHEIGHT = 2"
definition ENEMYSIZE :: double where "ENEMYSIZE = 0.6"
definition WALKSPEED :: double where "WALKSPEED = 0.015"
definition LOOKAROUNDSPEED :: double where "LOOKAROUNDSPEED = 0.3"
definition MAP_SIZE :: int where "MAP_SIZE = 30"
definition WORLD_SIZE :: int where "WORLD_SIZE = 2"
definition WALL_HEIGHT :: int where "WALL_HEIGHT = 6"
definition BULLETSPEED :: double where "BULLETSPEED = 400"

declare M_RADIUS_def [macro_defs] PLAYERHEIGHT_def [macro_defs] ENEMYSIZE_def [macro_defs]
  WALKSPEED_def [macro_defs] LOOKAROUNDSPEED_def [macro_defs] MAP_SIZE_def [macro_defs]
  WORLD_SIZE_def [macro_defs] WALL_HEIGHT_def [macro_defs] BULLETSPEED_def [macro_defs]

section \<open>C conversions and arrays\<close>

text \<open>
  \<open>(int) x\<close> for a \<open>double\<close> \<open>x\<close> truncates towards zero (C11 6.3.1.4); HOL's
  \<open>floor\<close> rounds down, so negative arguments are handled by symmetry.
\<close>

definition c_trunc :: "double \<Rightarrow> int" where
  "c_trunc x = (if 0 \<le> x then \<lfloor>x\<rfloor> else - \<lfloor>- x\<rfloor>)"

text \<open>
  A read \<open>a[i]\<close> of a C array of \<open>length xs\<close> elements: \<open>None\<close> when the index
  is out of range, which is undefined behaviour in C. A write \<open>a[i] = v\<close>
  likewise.
\<close>

definition arr_read :: "'a list \<Rightarrow> int \<Rightarrow> 'a option" where
  "arr_read xs i = (if 0 \<le> i \<and> i < int (length xs) then Some (xs ! nat i) else None)"

definition arr_write :: "'a list \<Rightarrow> int \<Rightarrow> 'a \<Rightarrow> 'a list option" where
  "arr_write xs i v = (if 0 \<le> i \<and> i < int (length xs) then Some (xs[nat i := v]) else None)"

text \<open>
  The faults the model makes explicit: a read of the character map out of its bounds,
  an access to another array out of its bounds, the conversion of a NaN to \<open>int\<close>
  (undefined behaviour), and a NaN produced by \<open>0/0\<close> in a value the program keeps
  (the real-number model has no NaN and stops there).
\<close>

datatype ub = Map_index int int | Array_index int | Nan_to_int | Nan_value

text \<open>
  How a step of the program ends when it does not go on: the process exits because the
  player lost or won (\<open>exit(0)\<close> in both cases), or a fault occurs.
\<close>

datatype halt = Lose | Win | Fault ub

text \<open>\<open>sqrt(pow(x, 2) + pow(z, 2))\<close>, the planar length the code computes three times.\<close>

definition hypot :: "double \<Rightarrow> double \<Rightarrow> double" where
  "hypot x z = sqrt (x\<^sup>2 + z\<^sup>2)"

section \<open>Lemmas on the conversions\<close>

lemma c_trunc_nonneg [trunc_simps]: "0 \<le> x \<Longrightarrow> c_trunc x = \<lfloor>x\<rfloor>"
  by (simp add: c_trunc_def)

lemma c_trunc_neg [trunc_simps]: "x < 0 \<Longrightarrow> c_trunc x = - \<lfloor>- x\<rfloor>"
  by (simp add: c_trunc_def)

lemma c_trunc_small: "-1 < x \<Longrightarrow> x < 1 \<Longrightarrow> c_trunc x = 0"
  by (auto simp: c_trunc_def floor_eq_iff)

lemma c_trunc_mono: "x \<le> y \<Longrightarrow> c_trunc x \<le> c_trunc y"
proof (cases "0 \<le> x")
  case True
  moreover assume "x \<le> y"
  ultimately show ?thesis by (simp add: c_trunc_def floor_mono)
next
  case False
  assume xy: "x \<le> y"
  have neg: "- \<lfloor>- x\<rfloor> \<le> 0" using False by simp
  show ?thesis
  proof (cases "0 \<le> y")
    case True
    then have "0 \<le> \<lfloor>y\<rfloor>" "c_trunc y = \<lfloor>y\<rfloor>" by (simp_all add: c_trunc_def)
    moreover have "c_trunc x = - \<lfloor>- x\<rfloor>" using \<open>\<not> 0 \<le> x\<close> by (simp add: c_trunc_def)
    ultimately show ?thesis using neg by linarith
  next
    case False
    with xy \<open>\<not> 0 \<le> x\<close> show ?thesis by (simp add: c_trunc_def floor_mono)
  qed
qed

text \<open>
  The conversion on the range that grid indices take: an argument in \<open>(-1, n + 1)\<close>
  gives an index in \<open>[0, n]\<close>.
\<close>

lemma c_trunc_range:
  assumes "-1 < x" "x < of_int n + 1" "0 \<le> n"
  shows "0 \<le> c_trunc x \<and> c_trunc x \<le> n"
proof (cases "0 \<le> x")
  case True
  with assms show ?thesis by (simp add: c_trunc_def floor_le_iff)
next
  case False
  with assms(1) show ?thesis using assms(3) by (simp add: c_trunc_small)
qed

lemma c_trunc_of_nonneg:
  "0 \<le> n \<Longrightarrow> of_int n \<le> x \<Longrightarrow> x < of_int n + 1 \<Longrightarrow> c_trunc x = n"
  by (simp add: c_trunc_def floor_eq_iff)

text \<open>
  Moving the argument by at most one moves the converted index by at most one (the
  conversion is monotone, and its bucket around zero is wider than the others).
\<close>

lemma c_trunc_add1: "c_trunc (x + 1) \<le> c_trunc x + 1"
proof (cases "0 \<le> x")
  case True
  then show ?thesis by (simp add: c_trunc_def)
next
  case False
  show ?thesis
  proof (cases "x < -1")
    case True
    then have "c_trunc (x + 1) = - \<lfloor>- x - 1\<rfloor>" by (simp add: c_trunc_def)
    also have "\<dots> = - \<lfloor>- x\<rfloor> + 1" by (simp only: floor_diff_one)
    finally show ?thesis using False by (simp add: c_trunc_def)
  next
    case False
    with \<open>\<not> 0 \<le> x\<close> have "c_trunc (x + 1) = 0" by (simp add: c_trunc_small)
    moreover have "c_trunc (- 1) \<le> c_trunc x" using False by (simp add: c_trunc_mono)
    ultimately show ?thesis by (simp add: c_trunc_def)
  qed
qed

lemma c_trunc_step: "\<bar>x - y\<bar> \<le> 1 \<Longrightarrow> \<bar>c_trunc x - c_trunc y\<bar> \<le> 1"
proof -
  assume d: "\<bar>x - y\<bar> \<le> 1"
  have "c_trunc x \<le> c_trunc (y + 1)" "c_trunc y \<le> c_trunc (x + 1)"
    using d by (auto intro: c_trunc_mono)
  with c_trunc_add1 [of y] c_trunc_add1 [of x] show ?thesis by linarith
qed

lemma arr_read_Some_iff:
  "arr_read xs i = Some v \<longleftrightarrow> 0 \<le> i \<and> i < int (length xs) \<and> xs ! nat i = v"
  by (auto simp: arr_read_def)

lemma arr_read_None_iff:
  "arr_read xs i = None \<longleftrightarrow> i < 0 \<or> int (length xs) \<le> i"
  by (auto simp: arr_read_def)

lemma arr_write_length:
  "arr_write xs i v = Some ys \<Longrightarrow> length ys = length xs"
  by (auto simp: arr_write_def split: if_splits)

lemma hypot_eq_0_iff [simp]: "hypot x z = 0 \<longleftrightarrow> x = 0 \<and> z = 0"
  by (simp add: hypot_def add_nonneg_eq_0_iff)

lemma hypot_nonneg: "0 \<le> hypot x z"
  by (simp add: hypot_def)

lemma abs_le_hypot: "\<bar>x\<bar> \<le> hypot x z \<and> \<bar>z\<bar> \<le> hypot x z"
  unfolding hypot_def by (simp add: real_le_rsqrt real_sqrt_ge_abs1)

lemma hypot_square: "(hypot x z)\<^sup>2 = x\<^sup>2 + z\<^sup>2"
  by (simp add: hypot_def)

text \<open>Dividing a non-zero planar vector by its length gives a unit vector.\<close>

lemma hypot_normalise:
  assumes "hypot x z \<noteq> 0"
  shows "(x / hypot x z)\<^sup>2 + (z / hypot x z)\<^sup>2 = 1"
proof -
  have "(x / hypot x z)\<^sup>2 + (z / hypot x z)\<^sup>2 = (x\<^sup>2 + z\<^sup>2) / (hypot x z)\<^sup>2"
    by (simp add: power_divide add_divide_distrib)
  also have "\<dots> = 1" using assms by (simp add: hypot_square)
  finally show ?thesis .
qed

lemma hypot_scale:
  assumes "hypot x z \<noteq> 0"
  shows "hypot (k * x / hypot x z) (k * z / hypot x z) = \<bar>k\<bar>"
proof -
  have "(k * x / hypot x z)\<^sup>2 + (k * z / hypot x z)\<^sup>2
      = k\<^sup>2 * ((x / hypot x z)\<^sup>2 + (z / hypot x z)\<^sup>2)"
    by (simp add: power_mult_distrib power_divide algebra_simps)
  also have "\<dots> = k\<^sup>2" using hypot_normalise [OF assms] by simp
  finally show ?thesis by (simp add: hypot_def)
qed

text \<open>
  The rotation of a planar vector keeps its length; normalising a non-zero vector of
  three components gives a unit vector.
\<close>

lemma rotate_norm:
  "(a * cos t - b * sin t)\<^sup>2 + (b * cos t + a * sin t)\<^sup>2 = a\<^sup>2 + (b :: double)\<^sup>2"
proof -
  have "(a * cos t - b * sin t)\<^sup>2 + (b * cos t + a * sin t)\<^sup>2
      = (a\<^sup>2 + b\<^sup>2) * ((sin t)\<^sup>2 + (cos t)\<^sup>2)"
    by algebra
  then show ?thesis by simp
qed

lemma normalise3:
  assumes "0 < x\<^sup>2 + y\<^sup>2 + z\<^sup>2"
  shows "(x / sqrt (x\<^sup>2 + y\<^sup>2 + z\<^sup>2))\<^sup>2 + (y / sqrt (x\<^sup>2 + y\<^sup>2 + z\<^sup>2))\<^sup>2
           + (z / sqrt (x\<^sup>2 + y\<^sup>2 + z\<^sup>2))\<^sup>2 = 1"
  using assms by (simp add: power_divide add_divide_distrib [symmetric])

text \<open>A property carried along a relation between two lists.\<close>

lemma list_all2_all:
  "list_all2 P xs ys \<Longrightarrow> (\<And>x y. P x y \<Longrightarrow> Q x \<Longrightarrow> Q y) \<Longrightarrow> list_all Q xs \<Longrightarrow> list_all Q ys"
  by (induction rule: list_all2_induct) auto

text \<open>
  An array filled from its last slot down: after slot \<open>i\<close> is written with \<open>v\<close>
  and the rest of the run fills the slots below \<open>i\<close>, the prefix up to \<open>i + 1\<close>
  ends with \<open>v\<close> and the slots above are untouched.
\<close>

lemma fill_slot_down:
  assumes "0 \<le> i" "nat i < length A" "length B = length A"
    "take (nat i) B = X" "drop (nat i) B = drop (nat i) (A[nat i := v])"
  shows "take (nat (i + 1)) B = X @ [v] \<and> drop (nat (i + 1)) B = drop (nat (i + 1)) A"
proof -
  have nth: "B ! nat i = v"
    using assms(2,3,5) by (metis Cons_nth_drop_Suc length_list_update nth_list_update_eq list.inject)
  have "take (nat (i + 1)) B = take (nat i) B @ [B ! nat i]"
    using assms(1-3) by (simp add: take_Suc_conv_app_nth [symmetric] Suc_nat_eq_nat_zadd1 add.commute)
  moreover have "drop (nat (i + 1)) B = drop 1 (drop (nat i) B)"
    using assms(1) by (simp add: Suc_nat_eq_nat_zadd1 add.commute)
  ultimately show ?thesis
    using assms(1,4,5) nth by (simp add: Suc_nat_eq_nat_zadd1 drop_update_cancel add.commute)
qed

text \<open>Writing a slot of a constant array with that constant changes nothing.\<close>

lemma replicate_update_same [simp]: "(replicate n x)[k := x] = replicate n x"
  by (metis length_replicate list_update_beyond list_update_id not_le nth_replicate)

end
