(* ===== verification/Sphere.thy ===== *)
theory Sphere
  imports Prelude
begin

text \<open>
  Class \<open>CSphere\<close> (\<open>virtualLego.cpp\<close>, lines 77--169): a moving point mass with a
  radius, used for the player's bullet, every enemy's bullet and the aim marker. Its
  simulation state is the centre, the constant radius and the velocity; the mesh, the
  material and the local transform only serve rendering and are not modelled
  (\<open>setCenter\<close> also rebuilds the local transform, which is not part of the
  state here). The theory proves that every operation keeps the radius, that
  \<open>ballUpdate\<close> is straight-line motion (it composes additively in the time
  step) and that parking an idle bullet is idempotent.
\<close>

record csphere =
  center_x :: double
  center_y :: double
  center_z :: double
  m_radius :: double
  m_velocity_x :: double
  m_velocity_z :: double
  m_velocity_y :: double

text \<open>
  The constructor (lines 86--94) sets the radius and zeroes the velocity; it leaves the
  centre unset. Every sphere of the program has static storage duration (a global or a
  member of the enemy array, whose centre the enemy constructor sets), so its centre
  starts at zero.
\<close>

definition CSphere :: "double \<Rightarrow> csphere" where
  "CSphere radius =
     \<lparr>center_x = 0, center_y = 0, center_z = 0, m_radius = radius,
      m_velocity_x = 0, m_velocity_z = 0, m_velocity_y = 0\<rparr>"

definition setCenter :: "double \<Rightarrow> double \<Rightarrow> double \<Rightarrow> csphere \<Rightarrow> csphere" where
  "setCenter x y z s = s\<lparr>center_x := x, center_y := y, center_z := z\<rparr>"

definition ballUpdate :: "double \<Rightarrow> csphere \<Rightarrow> csphere" where
  "ballUpdate timeDelta s =
     (let tX = center_x s + m_velocity_x s * timeDelta;
          tY = center_y s + m_velocity_y s * timeDelta;
          tZ = center_z s + m_velocity_z s * timeDelta
      in setCenter tX tY tZ s)"

definition setPower :: "double \<Rightarrow> double \<Rightarrow> csphere \<Rightarrow> csphere" where
  "setPower vx vz s = s\<lparr>m_velocity_x := vx, m_velocity_y := 0, m_velocity_z := vz\<rparr>"

definition setPowerY :: "double \<Rightarrow> double \<Rightarrow> double \<Rightarrow> csphere \<Rightarrow> csphere" where
  "setPowerY vx vy vz s = s\<lparr>m_velocity_x := vx, m_velocity_y := vy, m_velocity_z := vz\<rparr>"

definition getRadius :: "csphere \<Rightarrow> double" where
  "getRadius s = m_radius s"

text \<open>
  Parking an idle bullet at its owner, as \<open>Display\<close> does for the player's bullet
  (lines 654--657): move it, then stop it.
\<close>

definition park :: "double \<Rightarrow> double \<Rightarrow> double \<Rightarrow> csphere \<Rightarrow> csphere" where
  "park x y z s = setPowerY 0 0 0 (setCenter x y z s)"

text \<open>The type invariant of a sphere: its radius is positive.\<close>

definition sphere_wf :: "csphere \<Rightarrow> bool" where
  "sphere_wf s \<longleftrightarrow> 0 < m_radius s"

named_theorems sphere_simps "field equations of the sphere operations"

lemma setCenter_fields [simp, sphere_simps]:
  "center_x (setCenter x y z s) = x" "center_y (setCenter x y z s) = y"
  "center_z (setCenter x y z s) = z" "m_radius (setCenter x y z s) = m_radius s"
  "m_velocity_x (setCenter x y z s) = m_velocity_x s"
  "m_velocity_y (setCenter x y z s) = m_velocity_y s"
  "m_velocity_z (setCenter x y z s) = m_velocity_z s"
  by (simp_all add: setCenter_def)

lemma setPower_fields [simp, sphere_simps]:
  "center_x (setPower vx vz s) = center_x s" "center_y (setPower vx vz s) = center_y s"
  "center_z (setPower vx vz s) = center_z s" "m_radius (setPower vx vz s) = m_radius s"
  "m_velocity_x (setPower vx vz s) = vx" "m_velocity_y (setPower vx vz s) = 0"
  "m_velocity_z (setPower vx vz s) = vz"
  by (simp_all add: setPower_def)

lemma setPowerY_fields [simp, sphere_simps]:
  "center_x (setPowerY vx vy vz s) = center_x s" "center_y (setPowerY vx vy vz s) = center_y s"
  "center_z (setPowerY vx vy vz s) = center_z s" "m_radius (setPowerY vx vy vz s) = m_radius s"
  "m_velocity_x (setPowerY vx vy vz s) = vx" "m_velocity_y (setPowerY vx vy vz s) = vy"
  "m_velocity_z (setPowerY vx vy vz s) = vz"
  by (simp_all add: setPowerY_def)

lemma ballUpdate_fields [simp, sphere_simps]:
  "center_x (ballUpdate dt s) = center_x s + m_velocity_x s * dt"
  "center_y (ballUpdate dt s) = center_y s + m_velocity_y s * dt"
  "center_z (ballUpdate dt s) = center_z s + m_velocity_z s * dt"
  "m_radius (ballUpdate dt s) = m_radius s"
  "m_velocity_x (ballUpdate dt s) = m_velocity_x s"
  "m_velocity_y (ballUpdate dt s) = m_velocity_y s"
  "m_velocity_z (ballUpdate dt s) = m_velocity_z s"
  by (simp_all add: ballUpdate_def Let_def)

lemma csphere_eqI:
  "center_x s = center_x t \<Longrightarrow> center_y s = center_y t \<Longrightarrow> center_z s = center_z t \<Longrightarrow>
   m_radius s = m_radius t \<Longrightarrow> m_velocity_x s = m_velocity_x t \<Longrightarrow>
   m_velocity_z s = m_velocity_z t \<Longrightarrow> m_velocity_y s = m_velocity_y t \<Longrightarrow>
   csphere.more s = csphere.more t \<Longrightarrow> s = t"
  by (cases s, cases t) simp

lemma csphere_more_ops [simp]:
  "csphere.more (setCenter x y z s) = csphere.more s"
  "csphere.more (setPower vx vz s) = csphere.more s"
  "csphere.more (setPowerY vx vy vz s) = csphere.more s"
  "csphere.more (ballUpdate dt s) = csphere.more s"
  by (simp_all add: setCenter_def setPower_def setPowerY_def ballUpdate_def Let_def)

section \<open>Properties of the sphere operations\<close>

lemma sphere_wf_ops [intro]:
  "sphere_wf s \<Longrightarrow> sphere_wf (setCenter x y z s)"
  "sphere_wf s \<Longrightarrow> sphere_wf (setPower vx vz s)"
  "sphere_wf s \<Longrightarrow> sphere_wf (setPowerY vx vy vz s)"
  "sphere_wf s \<Longrightarrow> sphere_wf (ballUpdate dt s)"
  "sphere_wf s \<Longrightarrow> sphere_wf (park x y z s)"
  by (simp_all add: sphere_wf_def park_def)

lemma sphere_wf_CSphere: "0 < r \<Longrightarrow> sphere_wf (CSphere r)"
  by (simp add: sphere_wf_def CSphere_def)

text \<open>
  \<open>ballUpdate\<close> is one explicit Euler step of straight-line motion: two steps are
  one step over the summed time, and a run of frames moves the centre by the velocity
  times the total elapsed time.
\<close>

lemma ballUpdate_compose: "ballUpdate a (ballUpdate b s) = ballUpdate (b + a) s"
  by (rule csphere_eqI) (simp_all add: algebra_simps)

lemma ballUpdate_run:
  "fold ballUpdate dts s = ballUpdate (sum_list dts) s"
proof (induction dts arbitrary: s)
  case Nil
  show ?case by (rule csphere_eqI) simp_all
next
  case (Cons d dts)
  then show ?case by (simp add: ballUpdate_compose add.commute)
qed

lemma ballUpdate_still: "m_velocity_x s = 0 \<Longrightarrow> m_velocity_y s = 0 \<Longrightarrow> m_velocity_z s = 0 \<Longrightarrow>
  ballUpdate dt s = s"
  by (rule csphere_eqI) simp_all

lemma park_fields [simp, sphere_simps]:
  "center_x (park x y z s) = x" "center_y (park x y z s) = y" "center_z (park x y z s) = z"
  "m_radius (park x y z s) = m_radius s" "m_velocity_x (park x y z s) = 0"
  "m_velocity_y (park x y z s) = 0" "m_velocity_z (park x y z s) = 0"
  "csphere.more (park x y z s) = csphere.more s"
  by (simp_all add: park_def)

section \<open>Properties of the bullets' motion\<close>

text \<open>
  C11. A bullet's integration over any sequence of frames is straight-line motion: the
  velocity is unchanged and the centre moves by the velocity times the total elapsed
  time.
\<close>

theorem ballUpdate_straight_line:
  "let s' = fold ballUpdate dts s in
   center_x s' = center_x s + m_velocity_x s * sum_list dts \<and>
   center_y s' = center_y s + m_velocity_y s * sum_list dts \<and>
   center_z s' = center_z s + m_velocity_z s * sum_list dts \<and>
   m_velocity_x s' = m_velocity_x s \<and> m_velocity_y s' = m_velocity_y s \<and>
   m_velocity_z s' = m_velocity_z s \<and> m_radius s' = m_radius s"
  by (simp add: ballUpdate_run)

text \<open>
  C10. Parking an idle bullet at its owner is idempotent, and the integration step that
  follows it in the same frame does not move it.
\<close>

theorem park_idempotent:
  "park x y z (park x y z s) = park x y z s \<and> ballUpdate dt (park x y z s) = park x y z s"
proof
  show "park x y z (park x y z s) = park x y z s" by (rule csphere_eqI) simp_all
  show "ballUpdate dt (park x y z s) = park x y z s" by (rule ballUpdate_still) simp_all
qed

end
