(* ===== verification/Wall.thy ===== *)
theory Wall
  imports Sphere
begin

text \<open>
  Class \<open>CWall\<close> (\<open>virtualLego.cpp\<close>, lines 175--265): a static axis-aligned box,
  used for every maze wall, the floor, the ceiling, the flag and the body and head of
  every enemy. The state is the centre, the extents and the material colour (the
  colour only matters because \<open>CEnemy::hit\<close> reads it from an array, possibly out of
  range). The overlap test \<open>hasIntersected\<close> is proved equal to an abstract
  specification (the sphere's centre lies in the box grown by the radius on every
  axis), monotone in the radius, symmetric about the box's centre and independent of the
  colour.
\<close>

text \<open>
  The colours the program uses: the named constants of \<open>d3dUtility.h\<close> and
  \<open>D3DCOLOR_XRGB(r, g, b)\<close>.
\<close>

datatype d3dcolor = WHITE | BLACK | RED | GREEN | BLUE | YELLOW | CYAN | XRGB nat nat nat

text \<open>
  The material colour of a wall. It is \<open>None\<close> when the last colour written was
  read out of the bounds of a colour array (an indeterminate value).
\<close>

record cwall =
  m_x :: double
  m_y :: double
  m_z :: double
  m_width :: double
  m_height :: double
  m_depth :: double
  m_color :: "d3dcolor option"

text \<open>
  The default constructor (lines 187--194) zeroes the extents and the material (a
  zero, that is black, colour); the position is left unset and is zero for walls of
  static storage duration.
\<close>

definition CWall :: cwall where
  "CWall = \<lparr>m_x = 0, m_y = 0, m_z = 0, m_width = 0, m_height = 0, m_depth = 0,
            m_color = Some (XRGB 0 0 0)\<rparr>"

text \<open>
  \<open>create\<close> (lines 197--214) fails when there is no device; otherwise it stores the
  colour and the extents and asks Direct3D for a box mesh. The mesh request is the
  graphics collaborator's: its success is the parameter \<open>mesh_ok\<close>. The two
  position arguments \<open>ix\<close> and \<open>iz\<close> are ignored by the source.
\<close>

definition wall_create ::
  "bool \<Rightarrow> bool \<Rightarrow> double \<Rightarrow> double \<Rightarrow> double \<Rightarrow> double \<Rightarrow> double \<Rightarrow> d3dcolor \<Rightarrow>
   cwall \<Rightarrow> bool \<times> cwall" where
  "wall_create device mesh_ok ix iz iwidth iheight idepth color w =
     (if \<not> device then (False, w)
      else (mesh_ok, w\<lparr>m_color := Some color, m_width := iwidth, m_height := iheight,
                       m_depth := idepth\<rparr>))"

definition setColor :: "d3dcolor option \<Rightarrow> cwall \<Rightarrow> cwall" where
  "setColor color w = w\<lparr>m_color := color\<rparr>"

definition hasIntersected :: "cwall \<Rightarrow> csphere \<Rightarrow> bool" where
  "hasIntersected w ball =
     (let ball_radius = getRadius ball in
      center_z ball + ball_radius > m_z w - m_depth w / 2 \<and>
      center_z ball - ball_radius < m_z w + m_depth w / 2 \<and>
      center_y ball + ball_radius > m_y w - m_height w / 2 \<and>
      center_y ball - ball_radius < m_y w + m_height w / 2 \<and>
      center_x ball + ball_radius > m_x w - m_width w / 2 \<and>
      center_x ball - ball_radius < m_x w + m_width w / 2)"

definition setPosition :: "double \<Rightarrow> double \<Rightarrow> double \<Rightarrow> cwall \<Rightarrow> cwall" where
  "setPosition x y z w = w\<lparr>m_x := x, m_y := y, m_z := z\<rparr>"

text \<open>The type invariant of a box: its extents are not negative.\<close>

definition wall_wf :: "cwall \<Rightarrow> bool" where
  "wall_wf w \<longleftrightarrow> 0 \<le> m_width w \<and> 0 \<le> m_height w \<and> 0 \<le> m_depth w"

section \<open>Abstract specification of the overlap test\<close>

text \<open>
  One axis of the test: the interval \<open>[c - r, c + r]\<close> of the sphere and the
  interval \<open>[p - e/2, p + e/2]\<close> of the box overlap (open intervals, as the source
  uses strict comparisons). The abstract test asks it on all three axes.
\<close>

definition axis_overlap :: "double \<Rightarrow> double \<Rightarrow> double \<Rightarrow> double \<Rightarrow> bool" where
  "axis_overlap c r p e \<longleftrightarrow> \<bar>c - p\<bar> < r + e / 2"

definition box_overlap :: "cwall \<Rightarrow> csphere \<Rightarrow> bool" where
  "box_overlap w b \<longleftrightarrow>
     axis_overlap (center_x b) (m_radius b) (m_x w) (m_width w) \<and>
     axis_overlap (center_y b) (m_radius b) (m_y w) (m_height w) \<and>
     axis_overlap (center_z b) (m_radius b) (m_z w) (m_depth w)"

text \<open>
  The loop that consumes a bullet on any wall of an array (lines 379--381 for an enemy's
  bullet, 636--639 for the player's): the flag is cleared when some wall overlaps.
\<close>

definition clear_on_walls :: "cwall list \<Rightarrow> csphere \<Rightarrow> bool \<Rightarrow> bool" where
  "clear_on_walls walls ball flag = fold (\<lambda>w f. if hasIntersected w ball then False else f) walls flag"

lemma axis_overlap_iff:
  "axis_overlap c r p e \<longleftrightarrow> c + r > p - e / 2 \<and> c - r < p + e / 2"
  by (auto simp: axis_overlap_def abs_less_iff)

lemma hasIntersected_box_overlap:
  "hasIntersected w b \<longleftrightarrow> box_overlap w b"
  by (auto simp: hasIntersected_def box_overlap_def axis_overlap_iff getRadius_def Let_def)

lemma axis_overlap_mono:
  "axis_overlap c r p e \<Longrightarrow> r \<le> r' \<Longrightarrow> axis_overlap c r' p e"
  by (simp add: axis_overlap_def)

lemma axis_overlap_reflect:
  "axis_overlap (2 * p - c) r p e \<longleftrightarrow> axis_overlap c r p e"
  by (simp add: axis_overlap_def abs_minus_commute)

named_theorems wall_simps "field equations of the wall operations"

lemma wall_ops_fields [simp, wall_simps]:
  "m_x (setPosition x y z w) = x" "m_y (setPosition x y z w) = y"
  "m_z (setPosition x y z w) = z" "m_width (setPosition x y z w) = m_width w"
  "m_height (setPosition x y z w) = m_height w" "m_depth (setPosition x y z w) = m_depth w"
  "m_color (setPosition x y z w) = m_color w"
  "m_x (setColor c w) = m_x w" "m_y (setColor c w) = m_y w" "m_z (setColor c w) = m_z w"
  "m_width (setColor c w) = m_width w" "m_height (setColor c w) = m_height w"
  "m_depth (setColor c w) = m_depth w" "m_color (setColor c w) = c"
  by (simp_all add: setPosition_def setColor_def)

lemma hasIntersected_setColor [simp]: "hasIntersected (setColor c w) b = hasIntersected w b"
  by (simp add: hasIntersected_def setColor_def)

lemma clear_on_walls_iff:
  "clear_on_walls walls ball flag \<longleftrightarrow> flag \<and> \<not> (\<exists>w \<in> set walls. hasIntersected w ball)"
  unfolding clear_on_walls_def
  by (induction walls arbitrary: flag) auto

section \<open>Properties of the overlap test\<close>

text \<open>
  C9. The overlap test is the axis-aligned test of the specification: on each axis the
  distance between the sphere's centre and the box's centre is less than the radius plus
  half the box's extent.
\<close>

theorem overlap_spec:
  "hasIntersected w b \<longleftrightarrow>
     \<bar>center_x b - m_x w\<bar> < m_radius b + m_width w / 2 \<and>
     \<bar>center_y b - m_y w\<bar> < m_radius b + m_height w / 2 \<and>
     \<bar>center_z b - m_z w\<bar> < m_radius b + m_depth w / 2"
  by (simp add: hasIntersected_box_overlap box_overlap_def axis_overlap_def)

text \<open>
  The overlap test is monotone in the radius: a larger sphere at the same place
  overlaps every box the smaller one overlaps.
\<close>

theorem overlap_mono_radius:
  assumes "hasIntersected w b" "m_radius b \<le> r"
  shows "hasIntersected w (b\<lparr>m_radius := r\<rparr>)"
  using assms axis_overlap_mono
  unfolding hasIntersected_box_overlap box_overlap_def by fastforce

theorem overlap_mono_radius_witness:
  "hasIntersected (setPosition 0 0 0 (CWall\<lparr>m_width := 2, m_height := 2, m_depth := 2\<rparr>))
     (setCenter 1 0 0 (CSphere 0.05)) \<and>
   hasIntersected (setPosition 0 0 0 (CWall\<lparr>m_width := 2, m_height := 2, m_depth := 2\<rparr>))
     ((setCenter 1 0 0 (CSphere 0.05))\<lparr>m_radius := 0.5\<rparr>)"
proof -
  have h: "hasIntersected (setPosition 0 0 0 (CWall\<lparr>m_width := 2, m_height := 2, m_depth := 2\<rparr>))
     (setCenter 1 0 0 (CSphere 0.05))"
    by (simp add: hasIntersected_def getRadius_def CSphere_def CWall_def)
  have "m_radius (setCenter 1 0 0 (CSphere 0.05)) \<le> 0.5" by (simp add: CSphere_def)
  with h show ?thesis using overlap_mono_radius by blast
qed

text \<open>
  The overlap test is symmetric about the box's centre (reflecting the sphere's
  centre through it does not change the answer) and does not depend on the box's colour.
\<close>

theorem overlap_symmetric_colour_blind:
  "hasIntersected w (setCenter (2 * m_x w - center_x b) (2 * m_y w - center_y b) (2 * m_z w - center_z b) b)
     = hasIntersected w b \<and>
   hasIntersected (setColor c w) b = hasIntersected w b"
proof -
  have "axis_overlap (2 * p - q) r p e = axis_overlap q r p e" for p q r e
    by (rule axis_overlap_reflect)
  then show ?thesis unfolding hasIntersected_box_overlap box_overlap_def by simp
qed

end
