(* ===== verification/GridMap.thy ===== *)
theory GridMap
  imports Wall
begin

text \<open>
  The level (\<open>virtualLego.cpp\<close>, lines 439--519): the character grid \<open>map\<close>, the
  two position queries \<open>goable\<close> (may the player stand here?) and \<open>win\<close> (is
  the player on the flag?), and \<open>make_map\<close>, which turns the grid into wall boxes,
  the flag box and the player's spawn point. A position is mapped to a tile by the
  truncating conversion of \<open>15 - z/2\<close> (row) and \<open>15 + x/2\<close> (column); both
  queries probe the four corners of a 0.4-wide square around the position, with
  C's short-circuit \<open>||\<close>, so that a probe out of the array is undefined
  behaviour only when it is actually evaluated.
\<close>

definition game_map :: "string list" where
  "game_map =
    [''111111111111111111111111111111'',
     ''100000000000000000000000000001'',
     ''100000000000000000000000000001'',
     ''100F000000000000000e0000000001'',
     ''10000000000000000000e000000001'',
     ''100000000000000000000000000001'',
     ''111111111111111111111111000001'',
     ''100000000000000000000000000001'',
     ''100000000000000000000000000001'',
     ''100000000000000000000000000001'',
     ''10000000000000000000e000000001'',
     ''100000000e00000000000000000001'',
     ''100000111111111110000000000001'',
     ''100000100000000000000000000001'',
     ''10000010000000000e000000000001'',
     ''1000e010000e000000000000000001'',
     ''100000100000000000000000000001'',
     ''100000111111111111111111111111'',
     ''100000000000000000000000000001'',
     ''100000000000000000000000000001'',
     ''100000000000000e00000000000001'',
     ''1000000000000000000000000e0001'',
     ''100000000000000000000000000001'',
     ''111111111111111111111111000001'',
     ''100000000000000000000000000001'',
     ''100000000000000000000000000001'',
     ''100P00000000000000000000000001'',
     ''100000000000000000000000000001'',
     ''100000000000000000000000000001'',
     ''111111111111111111111111111111'']"

text \<open>
  \<open>map[r][c]\<close> on \<open>char map[MAP_SIZE][MAP_SIZE + 1]\<close>: each row holds its string
  and the terminating NUL; an index outside the array is undefined behaviour, \<open>None\<close>.
\<close>

definition map_at :: "string list \<Rightarrow> int \<Rightarrow> int \<Rightarrow> char option" where
  "map_at m r c = do { row \<leftarrow> arr_read m r; arr_read (row @ [CHR 0x00]) c }"

definition tile_row :: "double \<Rightarrow> int" where
  "tile_row z = c_trunc (of_int (MAP_SIZE div 2) - z / 2)"

definition tile_col :: "double \<Rightarrow> int" where
  "tile_col x = c_trunc (of_int (MAP_SIZE div 2) + x / 2)"

text \<open>
  The disjunction of the four corner probes that \<open>goable\<close> and \<open>win\<close> share
  (lines 506--509 and 514--517), evaluated left to right with short circuit.
\<close>

definition corner_test :: "char \<Rightarrow> string list \<Rightarrow> double \<Rightarrow> double \<Rightarrow> ub + bool" where
  "corner_test ch m pos_x pos_z =
     (let probe = (\<lambda>r c. case map_at m r c of None \<Rightarrow> Inl (Map_index r c) | Some v \<Rightarrow> Inr (v = ch))
      in case probe (tile_row (pos_z + 0.2)) (tile_col (pos_x + 0.2)) of Inl e \<Rightarrow> Inl e
       | Inr True \<Rightarrow> Inr True
       | Inr False \<Rightarrow>
      (case probe (tile_row (pos_z + 0.2)) (tile_col (pos_x - 0.2)) of Inl e \<Rightarrow> Inl e
       | Inr True \<Rightarrow> Inr True
       | Inr False \<Rightarrow>
      (case probe (tile_row (pos_z - 0.2)) (tile_col (pos_x + 0.2)) of Inl e \<Rightarrow> Inl e
       | Inr True \<Rightarrow> Inr True
       | Inr False \<Rightarrow> probe (tile_row (pos_z - 0.2)) (tile_col (pos_x - 0.2)))))"

definition goable :: "string list \<Rightarrow> double \<Rightarrow> double \<Rightarrow> ub + bool" where
  "goable m pos_x pos_z = map_sum id Not (corner_test (CHR ''1'') m pos_x pos_z)"

definition win :: "string list \<Rightarrow> double \<Rightarrow> double \<Rightarrow> ub + bool" where
  "win m pos_x pos_z = corner_test (CHR ''F'') m pos_x pos_z"

text \<open>
  World coordinates that \<open>make_map\<close> computes in \<open>int\<close> arithmetic from a cell
  index \<open>k\<close>, whose row is \<open>k / MAP_SIZE\<close> and column \<open>k % MAP_SIZE\<close>: the
  centre of a wall or of the flag (lines 480 and 484), and the player's spawn point
  (lines 487--488).
\<close>

definition cell_x :: "int \<Rightarrow> double" where
  "cell_x col = of_int (col * WORLD_SIZE - (MAP_SIZE - 1) * WORLD_SIZE div 2)"

definition cell_z :: "int \<Rightarrow> double" where
  "cell_z row = of_int ((MAP_SIZE - row) * WORLD_SIZE - (MAP_SIZE + 1) * WORLD_SIZE div 2)"

definition spawn_x :: "int \<Rightarrow> double" where
  "spawn_x row = of_int ((MAP_SIZE div 2 - row) * WORLD_SIZE - WORLD_SIZE div 2)"

definition spawn_z :: "int \<Rightarrow> double" where
  "spawn_z col = of_int ((col - MAP_SIZE div 2) * WORLD_SIZE + WORLD_SIZE div 2)"

section \<open>The probes as a loop over a list\<close>

text \<open>
  The four probes of \<open>goable\<close> and \<open>win\<close>, in the order the source evaluates
  them, and the short-circuit disjunction over a list of probes.
\<close>

definition probe_cells :: "double \<Rightarrow> double \<Rightarrow> (int \<times> int) list" where
  "probe_cells pos_x pos_z =
     [(tile_row (pos_z + 0.2), tile_col (pos_x + 0.2)), (tile_row (pos_z + 0.2), tile_col (pos_x - 0.2)),
      (tile_row (pos_z - 0.2), tile_col (pos_x + 0.2)), (tile_row (pos_z - 0.2), tile_col (pos_x - 0.2))]"

fun probe_any :: "char \<Rightarrow> string list \<Rightarrow> (int \<times> int) list \<Rightarrow> ub + bool" where
  "probe_any ch m [] = Inr False"
| "probe_any ch m ((r, c) # ps) =
     (case map_at m r c of None \<Rightarrow> Inl (Map_index r c)
      | Some v \<Rightarrow> if v = ch then Inr True else probe_any ch m ps)"

subsection \<open>Well-formed and walled maps\<close>

text \<open>
  The array the source declares: \<open>MAP_SIZE\<close> rows of \<open>MAP_SIZE\<close> characters
  (plus the NUL). A walled map has walls all along its border.
\<close>

definition map_wf :: "string list \<Rightarrow> bool" where
  "map_wf m \<longleftrightarrow> int (length m) = MAP_SIZE \<and> (\<forall>row \<in> set m. int (length row) = MAP_SIZE)"

definition walled :: "string list \<Rightarrow> bool" where
  "walled m \<longleftrightarrow> (\<forall>c \<in> set (hd m). c = CHR ''1'') \<and> (\<forall>c \<in> set (last m). c = CHR ''1'') \<and>
     (\<forall>row \<in> set m. hd row = CHR ''1'' \<and> last row = CHR ''1'')"

text \<open>
  A cell off the border of the map, and a position of the player whose four probes all
  lie on such cells and none on a wall: the positions the player may stand on.
\<close>

definition inner_cell :: "int \<times> int \<Rightarrow> bool" where
  "inner_cell rc \<longleftrightarrow> 1 \<le> fst rc \<and> fst rc \<le> MAP_SIZE - 2 \<and> 1 \<le> snd rc \<and> snd rc \<le> MAP_SIZE - 2"

definition placed :: "string list \<Rightarrow> double \<Rightarrow> double \<Rightarrow> bool" where
  "placed m x z \<longleftrightarrow> list_all inner_cell (probe_cells x z) \<and> goable m x z = Inr True"

section \<open>Lemmas on the probes\<close>

lemma corner_test_probe_any: "corner_test ch m x z = probe_any ch m (probe_cells x z)"
  by (simp add: corner_test_def probe_cells_def split: option.split)

text \<open>A probe run that returns answers whether some probe shows the character.\<close>

lemma probe_any_Inr:
  "probe_any ch m ps = Inr b \<Longrightarrow> b \<longleftrightarrow> (\<exists>(r, c) \<in> set ps. map_at m r c = Some ch)"
  by (induction ps rule: probe_any.induct) (auto split: option.splits if_splits)

text \<open>A probe run goes wrong only at a probe outside the array.\<close>

lemma probe_any_Inl:
  "probe_any ch m ps = Inl e \<Longrightarrow> \<exists>(r, c) \<in> set ps. map_at m r c = None \<and> e = Map_index r c"
  by (induction ps rule: probe_any.induct) (auto split: option.splits if_splits)

lemma probe_any_defined:
  "\<forall>(r, c) \<in> set ps. map_at m r c \<noteq> None \<Longrightarrow> \<exists>b. probe_any ch m ps = Inr b"
  by (induction ps rule: probe_any.induct) (auto split: option.splits)

lemma probe_any_cases:
  "(\<exists>b. probe_any ch m ps = Inr b \<and> (b \<longleftrightarrow> (\<exists>(r, c) \<in> set ps. map_at m r c = Some ch))) \<or>
   (\<exists>r c. probe_any ch m ps = Inl (Map_index r c) \<and> (r, c) \<in> set ps \<and> map_at m r c = None)"
proof (cases "probe_any ch m ps")
  case (Inl e)
  then show ?thesis using probe_any_Inl [OF Inl] by blast
next
  case (Inr b)
  then show ?thesis using probe_any_Inr [OF Inr] by blast
qed

lemma goable_Inr_iff:
  "goable m x z = Inr b \<longleftrightarrow> (\<exists>b'. corner_test (CHR ''1'') m x z = Inr b' \<and> b = (\<not> b'))"
  by (cases "corner_test (CHR ''1'') m x z") (auto simp: goable_def)

lemma goable_Inl_iff:
  "goable m x z = Inl e \<longleftrightarrow> corner_test (CHR ''1'') m x z = Inl e"
  by (cases "corner_test (CHR ''1'') m x z") (auto simp: goable_def)

lemma map_at_in_range:
  assumes "map_wf m" "0 \<le> r" "r < MAP_SIZE" "0 \<le> c" "c < MAP_SIZE"
  shows "map_at m r c = Some (m ! nat r ! nat c)"
proof -
  have r: "nat r < length m" using assms by (simp add: map_wf_def nat_less_iff)
  then have "int (length (m ! nat r)) = MAP_SIZE" using assms(1) by (simp add: map_wf_def)
  then have "nat c < length (m ! nat r)" "r < int (length m)" using assms r by linarith+
  with assms show ?thesis by (simp add: map_at_def arr_read_def nth_append)
qed

lemma map_at_None_iff:
  assumes "map_wf m"
  shows "map_at m r c = None \<longleftrightarrow> \<not> (0 \<le> r \<and> r < MAP_SIZE \<and> 0 \<le> c \<and> c \<le> MAP_SIZE)"
proof -
  have "nat r < length m \<Longrightarrow> int (length (m ! nat r)) = MAP_SIZE"
    using assms by (simp add: map_wf_def)
  then show ?thesis using assms
    by (auto simp: map_at_def arr_read_def map_wf_def)
qed

section \<open>Tiles of the level geometry\<close>

lemma cell_xz_eval: "cell_x c = of_int (2 * c - 29)" "cell_z r = of_int (29 - 2 * r)"
  "spawn_x r = of_int (29 - 2 * r)" "spawn_z c = of_int (2 * c - 29)"
  by (simp_all add: cell_x_def cell_z_def spawn_x_def spawn_z_def macro_defs)

lemma tile_col_at:
  assumes "0 \<le> c" "of_int (2 * c - 30) < x" "x < of_int (2 * c - 28)"
  shows "tile_col x = c"
  unfolding tile_col_def MAP_SIZE_def using assms by (intro c_trunc_of_nonneg) simp_all

lemma tile_row_at:
  assumes "0 \<le> r" "of_int (28 - 2 * r) < z" "z < of_int (30 - 2 * r)"
  shows "tile_row z = r"
  unfolding tile_row_def MAP_SIZE_def using assms by (intro c_trunc_of_nonneg) simp_all

lemma tile_col_at_le:
  assumes "0 \<le> c" "of_int (2 * c - 30) \<le> x" "x < of_int (2 * c - 28)"
  shows "tile_col x = c"
  unfolding tile_col_def MAP_SIZE_def using assms by (intro c_trunc_of_nonneg) simp_all

lemma tile_row_at_le:
  assumes "0 \<le> r" "of_int (28 - 2 * r) < z" "z \<le> of_int (30 - 2 * r)"
  shows "tile_row z = r"
  unfolding tile_row_def MAP_SIZE_def using assms by (intro c_trunc_of_nonneg) simp_all

text \<open>
  Where the four probes of the spawn point of cell \<open>(r, c)\<close> land: on cell
  \<open>(29 - c, 29 - r)\<close>, the mirror image of the spawn cell in the anti-diagonal. The
  spawn formulas compute the \<open>x\<close> coordinate from the row and \<open>z\<close> from the
  column, while the tile lookup (like the wall placement) reads the column from
  \<open>x\<close> and the row from \<open>z\<close>.
\<close>

lemma spawn_probe_cells:
  assumes "0 \<le> r" "r \<le> 29" "0 \<le> c" "c \<le> 29"
  shows "probe_cells (spawn_x r) (spawn_z c) = replicate 4 (29 - c, 29 - r)"
proof -
  have "tile_row (spawn_z c + 0.2) = 29 - c" "tile_row (spawn_z c - 0.2) = 29 - c"
    using assms by (auto simp: cell_xz_eval intro!: tile_row_at)
  moreover have "tile_col (spawn_x r + 0.2) = 29 - r" "tile_col (spawn_x r - 0.2) = 29 - r"
    using assms by (auto simp: cell_xz_eval intro!: tile_col_at)
  ultimately show ?thesis by (simp add: probe_cells_def numeral_eq_Suc)
qed

text \<open>A point of the footprint of the box built for cell \<open>(r, c)\<close> lies on that cell.\<close>

lemma cell_footprint_tile:
  assumes "0 \<le> r" "0 \<le> c" "\<bar>x - cell_x c\<bar> < 1" "\<bar>z - cell_z r\<bar> < 1"
  shows "tile_col x = c \<and> tile_row z = r"
  using assms by (auto simp: cell_xz_eval abs_less_iff intro!: tile_col_at tile_row_at)

section \<open>Small moves of the player\<close>

text \<open>A walled, well-formed map shows a wall on every border cell.\<close>

lemma walled_border:
  assumes "map_wf m" "walled m" "0 \<le> r" "r < MAP_SIZE" "0 \<le> c" "c < MAP_SIZE"
    and "r = 0 \<or> r = MAP_SIZE - 1 \<or> c = 0 \<or> c = MAP_SIZE - 1"
  shows "map_at m r c = Some (CHR ''1'')"
proof -
  have len: "length m = 30" using assms(1) by (simp add: map_wf_def MAP_SIZE_def)
  have rlen: "length (m ! nat r) = 30"
    using assms(1,3,4) len by (simp add: map_wf_def MAP_SIZE_def)
  have rin: "m ! nat r \<in> set m" using assms(3,4) len by (simp add: MAP_SIZE_def)
  have "m ! nat r ! nat c = CHR ''1''"
  proof -
    consider "r = 0" | "r = 29" | "c = 0" | "c = 29" using assms(7) by (auto simp: MAP_SIZE_def)
    then show ?thesis
    proof cases
      case 1
      then have "m ! nat r = hd m" using len by (cases m) simp_all
      then show ?thesis using assms(2,5,6) rlen by (simp add: walled_def MAP_SIZE_def)
    next
      case 2
      moreover have "m \<noteq> []" using len by auto
      ultimately have "m ! nat r = last m" using len by (simp add: last_conv_nth)
      then show ?thesis using assms(2,5,6) rlen by (simp add: walled_def MAP_SIZE_def)
    next
      case 3
      have "hd (m ! nat r) = CHR ''1''" using assms(2) rin by (simp add: walled_def)
      moreover have "m ! nat r \<noteq> []" using rlen by auto
      ultimately show ?thesis using 3 by (simp add: hd_conv_nth)
    next
      case 4
      have "last (m ! nat r) = CHR ''1''" using assms(2) rin by (simp add: walled_def)
      moreover have "m ! nat r \<noteq> []" using rlen by auto
      ultimately show ?thesis using 4 rlen by (simp add: last_conv_nth)
    qed
  qed
  then show ?thesis using assms(1,3-6) by (simp add: map_at_in_range)
qed

text \<open>
  A move by at most two units on each axis (a tile is two units wide) moves every
  probe by at most one tile, so from a placed position every probe stays inside the
  array.
\<close>

lemma probe_cells_near:
  assumes "list_all inner_cell (probe_cells x z)" "\<bar>x' - x\<bar> \<le> 2" "\<bar>z' - z\<bar> \<le> 2"
  shows "\<forall>(r, c) \<in> set (probe_cells x' z'). 0 \<le> r \<and> r < MAP_SIZE \<and> 0 \<le> c \<and> c < MAP_SIZE"
proof -
  have row: "\<bar>tile_row (z' + d) - tile_row (z + d)\<bar> \<le> 1" for d
    using assms(3) unfolding tile_row_def by (intro c_trunc_step) (simp add: abs_le_iff field_simps)
  have col: "\<bar>tile_col (x' + d) - tile_col (x + d)\<bar> \<le> 1" for d
    using assms(2) unfolding tile_col_def by (intro c_trunc_step) (simp add: abs_le_iff field_simps)
  show ?thesis
    using assms(1) row [of "0.2"] row [of "- 0.2"] col [of "0.2"] col [of "- 0.2"]
    by (simp add: probe_cells_def inner_cell_def MAP_SIZE_def abs_le_iff)
qed

lemma placed_step:
  assumes "map_wf m" "walled m" "placed m x z" "\<bar>x' - x\<bar> \<le> 2" "\<bar>z' - z\<bar> \<le> 2"
  shows "\<exists>b. goable m x' z' = Inr b \<and> (b \<longrightarrow> placed m x' z')"
proof -
  let ?ps = "probe_cells x' z'"
  have near: "\<forall>(r, c) \<in> set ?ps. 0 \<le> r \<and> r < MAP_SIZE \<and> 0 \<le> c \<and> c < MAP_SIZE"
    using assms(3) probe_cells_near [OF _ assms(4,5)] by (simp add: placed_def)
  have ok: "map_at m r c \<noteq> None \<and> (map_at m r c \<noteq> Some (CHR ''1'') \<longrightarrow> inner_cell (r, c))"
    if "(r, c) \<in> set ?ps" for r c
  proof -
    have rc: "0 \<le> r" "r < MAP_SIZE" "0 \<le> c" "c < MAP_SIZE" using near that by auto
    then have "map_at m r c \<noteq> None" using assms(1) by (simp add: map_at_in_range)
    moreover have "inner_cell (r, c)" if "map_at m r c \<noteq> Some (CHR ''1'')"
    proof -
      have "r \<noteq> 0" "r \<noteq> MAP_SIZE - 1" "c \<noteq> 0" "c \<noteq> MAP_SIZE - 1"
        using that walled_border [OF assms(1,2) rc] by auto
      with rc show ?thesis unfolding inner_cell_def MAP_SIZE_def by simp
    qed
    ultimately show ?thesis by blast
  qed
  then have "\<forall>(r, c) \<in> set ?ps. map_at m r c \<noteq> None" by blast
  then have "\<exists>b. probe_any (CHR ''1'') m ?ps = Inr b" by (rule probe_any_defined)
  then obtain b' where b': "corner_test (CHR ''1'') m x' z' = Inr b'"
    by (auto simp: corner_test_probe_any)
  have "list_all inner_cell ?ps" if "\<not> b'"
  proof -
    have "\<forall>(r, c) \<in> set ?ps. map_at m r c \<noteq> Some (CHR ''1'')"
      using that b' probe_any_Inr [of "CHR ''1''" m ?ps b'] by (auto simp: corner_test_probe_any)
    then show ?thesis using ok by (force simp: list_all_iff)
  qed
  with b' show ?thesis by (auto simp: goable_def placed_def)
qed

text \<open>The shipped map is well formed and walled, and its spawn point is placed.\<close>

lemma game_map_wf: "map_wf game_map"
  by (simp add: map_wf_def game_map_def MAP_SIZE_def)

lemma game_map_walled: "walled game_map"
  by (simp add: walled_def game_map_def)

lemma game_spawn_placed: "placed game_map (-23) (-23)"
  by (simp add: placed_def probe_cells_def inner_cell_def goable_def corner_test_def tile_row_def
      tile_col_def macro_defs c_trunc_def map_at_def arr_read_def game_map_def)

section \<open>Properties of the level queries\<close>

text \<open>
  C8. The two position queries: when \<open>goable\<close> answers, it allows the position
  exactly when none of the four corner probes lands on a wall tile; when \<open>win\<close>
  answers, it reports the flag exactly when some probe lands on the flag tile; and both
  answer whenever every probe lies inside the map array.
\<close>

theorem position_queries_spec:
  "(goable m x z = Inr b \<longrightarrow>
      (b \<longleftrightarrow> (\<forall>(r, c) \<in> set (probe_cells x z). map_at m r c \<noteq> Some (CHR ''1'')))) \<and>
   (win m x z = Inr b' \<longrightarrow>
      (b' \<longleftrightarrow> (\<exists>(r, c) \<in> set (probe_cells x z). map_at m r c = Some (CHR ''F'')))) \<and>
   ((\<forall>(r, c) \<in> set (probe_cells x z). map_at m r c \<noteq> None) \<longrightarrow>
      (\<exists>b. goable m x z = Inr b) \<and> (\<exists>b. win m x z = Inr b))"
proof -
  have g: "b \<longleftrightarrow> (\<forall>(r, c) \<in> set (probe_cells x z). map_at m r c \<noteq> Some (CHR ''1''))"
    if g0: "goable m x z = Inr b"
  proof -
    obtain b' where "probe_any (CHR ''1'') m (probe_cells x z) = Inr b'" "b = (\<not> b')"
      using g0 unfolding goable_Inr_iff corner_test_probe_any by blast
    then show ?thesis using probe_any_Inr by fastforce
  qed
  have w: "b' \<longleftrightarrow> (\<exists>(r, c) \<in> set (probe_cells x z). map_at m r c = Some (CHR ''F''))"
    if "win m x z = Inr b'"
    using that probe_any_Inr by (simp add: win_def corner_test_probe_any)
  have d: "(\<exists>b. goable m x z = Inr b) \<and> (\<exists>b. win m x z = Inr b)"
    if d0: "\<forall>(r, c) \<in> set (probe_cells x z). map_at m r c \<noteq> None"
  proof -
    obtain b1 b2 where "probe_any (CHR ''1'') m (probe_cells x z) = Inr b1"
      "probe_any (CHR ''F'') m (probe_cells x z) = Inr b2"
      using d0 probe_any_defined by blast
    then show ?thesis by (simp add: goable_def win_def corner_test_probe_any)
  qed
  from g w d show ?thesis by blast
qed

theorem position_queries_spec_witness:
  "goable game_map (-23) (-23) = Inr True \<and> win game_map (-23) (-23) = Inr False \<and>
   map_at game_map 26 3 \<noteq> Some (CHR ''1'')"
proof -
  have g: "goable game_map (-23) (-23) = Inr True" and w: "win game_map (-23) (-23) = Inr False"
    by (simp_all add: goable_def win_def corner_test_def tile_row_def tile_col_def macro_defs
        c_trunc_def map_at_def arr_read_def game_map_def)
  have "(26, 3) \<in> set (probe_cells (-23) (-23))"
    using spawn_probe_cells [of 26 3] by (simp add: cell_xz_eval)
  with position_queries_spec [of game_map "-23" "-23" True] g w show ?thesis by fastforce
qed

text \<open>
  C12. The player's spawn point is computed with the axes swapped: the probes around
  the spawn point of the cell in row \<open>r\<close> and column \<open>c\<close> all land on the cell in row
  \<open>29 - c\<close> and column \<open>29 - r\<close>, which is the spawn cell itself only when
  \<open>r + c = 29\<close>.
\<close>

theorem spawn_lands_on_mirror_cell:
  assumes "0 \<le> r" "r \<le> 29" "0 \<le> c" "c \<le> 29"
  shows "set (probe_cells (spawn_x r) (spawn_z c)) = {(29 - c, 29 - r)} \<and>
         ((29 - c, 29 - r) = (r, c) \<longleftrightarrow> r + c = 29)"
  using spawn_probe_cells [OF assms] by auto

theorem spawn_lands_on_mirror_cell_witness:
  "set (probe_cells (spawn_x 2) (spawn_z 5)) = {(24, 27)} \<and>
   set (probe_cells (spawn_x 26) (spawn_z 3)) = {(26, 3)}"
  using spawn_lands_on_mirror_cell [of 2 5] spawn_lands_on_mirror_cell [of 26 3] by simp

text \<open>
  The walls \<open>make_map\<close> builds agree with the tile lookup: every point of the
  footprint of the box built for the cell in row \<open>r\<close> and column \<open>c\<close> (its centre
  \<open>(cell_x c, cell_z r)\<close>, extent \<open>WORLD_SIZE\<close>) lies on that cell.
\<close>

theorem wall_footprint_tile:
  assumes "0 \<le> r" "0 \<le> c" "\<bar>x - cell_x c\<bar> < of_int WORLD_SIZE / 2" "\<bar>z - cell_z r\<bar> < of_int WORLD_SIZE / 2"
  shows "tile_col x = c \<and> tile_row z = r"
  using assms cell_footprint_tile by (simp add: WORLD_SIZE_def)

theorem wall_footprint_tile_witness:
  "\<bar>-22.5 - cell_x 3\<bar> < of_int WORLD_SIZE / 2 \<and> \<bar>-23.9 - cell_z 26\<bar> < of_int WORLD_SIZE / 2 \<and>
   tile_col (-22.5) = 3 \<and> tile_row (-23.9) = 26"
proof -
  have h: "\<bar>-22.5 - cell_x 3\<bar> < of_int WORLD_SIZE / 2" "\<bar>-23.9 - cell_z 26\<bar> < of_int WORLD_SIZE / 2"
    by (simp_all add: cell_xz_eval WORLD_SIZE_def)
  show ?thesis using wall_footprint_tile [of 26 3, OF _ _ h] h by simp
qed

end
