(* ===== verification/Enemy.thy ===== *)
theory Enemy
  imports GridMap
begin

text \<open>
  Class \<open>CEnemy\<close> (\<open>virtualLego.cpp\<close>, lines 352--433): a stationary turret made
  of two boxes (body and head) and one bullet, with a hit counter \<open>life\<close> and a flag
  \<open>alive\<close>. \<open>Update\<close> is its per-frame step (bullet against walls, bullet against
  the player, reload aimed at the player, integration); \<open>hasHit\<close> and \<open>hit\<close> apply
  the player's bullet to it. The globals \<open>Update\<close> reads and writes (the player's
  position \<open>pos_x\<close>, \<open>pos_z\<close> and life \<open>my_life\<close>) and the one \<open>hasHit\<close>
  writes (\<open>my_shoot\<close>) are explicit arguments and results.
\<close>

record cenemy =
  x_pos :: double
  z_pos :: double
  body :: cwall
  head :: cwall
  bullet :: csphere
  shoot :: bool
  life :: int
  alive :: bool

text \<open>The hit-indicator colours, indexed by the remaining life minus one (lines 40--41).\<close>

definition headHit :: "d3dcolor list" where
  "headHit = [XRGB 192 32 0, XRGB 128 128 0]"

definition bodyHit :: "d3dcolor list" where
  "bodyHit = [XRGB 192 16 16, XRGB 128 64 64]"

text \<open>
  The constructor \<open>CEnemy(z, x)\<close> for the cell in row \<open>z\<close> and column \<open>x\<close>
  (lines 355--368). The boxes are created on the global device; their mesh requests are
  assumed to succeed (their results are ignored by the source anyway).
\<close>

definition CEnemy :: "bool \<Rightarrow> int \<Rightarrow> int \<Rightarrow> cenemy" where
  "CEnemy device z x =
     (let x_pos = of_int ((x - MAP_SIZE div 2) * WORLD_SIZE + WORLD_SIZE div 2);
          z_pos = of_int ((MAP_SIZE div 2 - z) * WORLD_SIZE - WORLD_SIZE div 2);
          body = setPosition (x_pos - ENEMYSIZE / 2) (PLAYERHEIGHT * 0.425) (z_pos - ENEMYSIZE / 2)
                   (snd (wall_create device True (-1) (-1) ENEMYSIZE (PLAYERHEIGHT * 0.85) ENEMYSIZE
                          CYAN CWall));
          head = setPosition (x_pos - ENEMYSIZE / 2) PLAYERHEIGHT (z_pos - ENEMYSIZE / 2)
                   (snd (wall_create device True (-1) (-1) ENEMYSIZE (PLAYERHEIGHT * 0.3) ENEMYSIZE
                          GREEN CWall));
          bullet = setCenter x_pos (PLAYERHEIGHT * 0.75) z_pos (CSphere M_RADIUS)
      in \<lparr>x_pos = x_pos, z_pos = z_pos, body = body, head = head, bullet = bullet,
          shoot = False, life = 3, alive = True\<rparr>)"

text \<open>
  The test of lines 384--389: the enemy's bullet against the player's hit volume, a box
  of \<open>ENEMYSIZE\<close> around the player's position that spans the heights strictly
  between the floor and \<open>PLAYERHEIGHT\<close> (the bullet must lie inside it vertically).
\<close>

definition bullet_hits_player :: "double \<Rightarrow> double \<Rightarrow> csphere \<Rightarrow> bool" where
  "bullet_hits_player pos_x pos_z b =
     (let bullet_radius = getRadius b in
      center_z b + bullet_radius > pos_z - ENEMYSIZE / 2 \<and>
      center_z b - bullet_radius < pos_z + ENEMYSIZE / 2 \<and>
      center_y b + bullet_radius < PLAYERHEIGHT \<and>
      center_y b - bullet_radius > 0 \<and>
      center_x b + bullet_radius > pos_x - ENEMYSIZE / 2 \<and>
      center_x b - bullet_radius < pos_x + ENEMYSIZE / 2)"

text \<open>
  The reload of lines 394--402: an idle bullet is put back at the enemy's chest and fired
  at \<open>BULLETSPEED\<close> towards the player's current position. When the player stands
  exactly on the enemy's position the direction is \<open>0/0\<close>, a NaN velocity.
\<close>

definition reload :: "double \<Rightarrow> double \<Rightarrow> cenemy \<Rightarrow> ub + cenemy" where
  "reload pos_x pos_z e =
     (if shoot e then Inr e
      else
        (let b = setCenter (x_pos e) (PLAYERHEIGHT * 0.75) (z_pos e) (setPower 0 0 (bullet e));
             x_power = pos_x - x_pos e;
             z_power = pos_z - z_pos e;
             bullet_radius = hypot x_power z_power
         in if bullet_radius = 0 then Inl Nan_value
            else Inr (e\<lparr>bullet := setPower (BULLETSPEED * x_power / bullet_radius)
                                           (BULLETSPEED * z_power / bullet_radius) b,
                        shoot := True\<rparr>)))"

text \<open>
  \<open>Update\<close> (lines 378--404). The player's bullet, passed by value, is not used. A hit
  on the player decrements \<open>my_life\<close>; when it reaches zero the process exits
  (\<open>Lose\<close>) before the reload.
\<close>

definition Update ::
  "double \<Rightarrow> cwall list \<Rightarrow> double \<Rightarrow> double \<Rightarrow> int \<Rightarrow> cenemy \<Rightarrow> halt + cenemy \<times> int" where
  "Update timeDelta g_legowalls pos_x pos_z my_life e =
     (let e = e\<lparr>shoot := clear_on_walls g_legowalls (bullet e) (shoot e)\<rparr>;
          hit_me = bullet_hits_player pos_x pos_z (bullet e);
          my_life = (if hit_me then my_life - 1 else my_life);
          e = (if hit_me then e\<lparr>shoot := False\<rparr> else e)
      in if hit_me \<and> my_life \<le> 0 then Inl Lose
         else (case reload pos_x pos_z e of
                 Inl u \<Rightarrow> Inl (Fault u)
               | Inr e \<Rightarrow> Inr (e\<lparr>bullet := ballUpdate timeDelta (bullet e)\<rparr>, my_life)))"

text \<open>
  \<open>hit\<close> (lines 415--420): one point of damage. The colours are read at index
  \<open>life - 1\<close> of two-element arrays, out of range (\<open>None\<close>) unless the new life is
  1 or 2.
\<close>

definition hit :: "cenemy \<Rightarrow> cenemy" where
  "hit e =
     (let life' = life e - 1;
          e = e\<lparr>life := life',
                head := setColor (arr_read headHit (life' - 1)) (head e),
                body := setColor (arr_read bodyHit (life' - 1)) (body e)\<rparr>
      in if life' \<le> 0 then e\<lparr>alive := False\<rparr> else e)"

text \<open>
  \<open>hasHit\<close> (lines 406--413). The body is tested first; only when it is missed is the
  head tested, and only then can the hit be a head-shot. Any hit calls \<open>hit\<close>, kills
  on a head-shot and consumes the player's bullet (\<open>my_shoot = false\<close>).
\<close>

definition hasHit :: "csphere \<Rightarrow> bool \<Rightarrow> cenemy \<Rightarrow> cenemy \<times> bool" where
  "hasHit my_bullet my_shoot e =
     (let body_hit = hasIntersected (body e) my_bullet;
          isHeadShot = (\<not> body_hit \<and> hasIntersected (head e) my_bullet)
      in if body_hit \<or> isHeadShot then
           (let e = hit e in ((if isHeadShot then e\<lparr>alive := False\<rparr> else e), False))
         else (e, my_shoot))"

section \<open>The enemy as a state machine\<close>

text \<open>
  The abstract machine of an enemy, a labelled transition system: its states are alive
  with a health value or dead, its labels the three outcomes of the player's bullet
  (a miss, a body hit, a head-shot). A miss changes nothing; a body hit takes one point
  of health and kills at the last point; a head-shot kills from any health; nothing
  leaves \<open>Dead\<close>. The outcome of a bullet is read off the geometry, with the
  per-axis interval test \<open>box_overlap\<close> of theory \<open>Wall\<close>: a bullet that overlaps
  the body is a body hit, otherwise one that overlaps the head is a head-shot.
\<close>

datatype enemy_state = EAlive int | EDead

datatype shot = Miss | Body_hit | Head_shot

definition estate :: "cenemy \<Rightarrow> enemy_state" where
  "estate e = (if alive e then EAlive (life e) else EDead)"

definition shot_at :: "csphere \<Rightarrow> cenemy \<Rightarrow> shot" where
  "shot_at b e =
     (if box_overlap (body e) b then Body_hit
      else if box_overlap (head e) b then Head_shot else Miss)"

inductive enemy_trans :: "enemy_state \<Rightarrow> shot \<Rightarrow> enemy_state \<Rightarrow> bool" where
  miss: "enemy_trans s Miss s"
| wound: "1 < h \<Longrightarrow> enemy_trans (EAlive h) Body_hit (EAlive (h - 1))"
| last_hit: "h \<le> 1 \<Longrightarrow> enemy_trans (EAlive h) Body_hit EDead"
| head_shot: "enemy_trans (EAlive h) Head_shot EDead"
| dead: "k \<noteq> Miss \<Longrightarrow> enemy_trans EDead k EDead"

code_pred enemy_trans .

inductive_cases enemy_trans_EDead: "enemy_trans EDead k s"
inductive_cases enemy_trans_EAlive: "enemy_trans (EAlive h) k s"

text \<open>
  The invariant the concrete operations keep: the life never exceeds its initial 3 and a
  living enemy has a positive life. (The converse, that an enemy with a positive life is
  alive, is not kept: a head-shot kills without emptying the life.)
\<close>

definition enemy_inv :: "cenemy \<Rightarrow> bool" where
  "enemy_inv e \<longleftrightarrow> life e \<le> 3 \<and> (alive e \<longrightarrow> 0 < life e)"

text \<open>Whether \<open>Update\<close> reloads: its bullet hit a wall, was idle, or hit the player.\<close>

definition needs_reload :: "cwall list \<Rightarrow> double \<Rightarrow> double \<Rightarrow> cenemy \<Rightarrow> bool" where
  "needs_reload ws px pz e \<longleftrightarrow>
     \<not> clear_on_walls ws (bullet e) (shoot e) \<or> bullet_hits_player px pz (bullet e)"

section \<open>Lemmas on hit and hasHit\<close>

lemma hit_fields [simp]:
  "life (hit e) = life e - 1" "alive (hit e) \<longleftrightarrow> alive e \<and> 0 < life e - 1"
  "x_pos (hit e) = x_pos e" "z_pos (hit e) = z_pos e" "bullet (hit e) = bullet e"
  "shoot (hit e) = shoot e"
  "m_color (head (hit e)) = arr_read headHit (life e - 2)"
  "m_color (body (hit e)) = arr_read bodyHit (life e - 2)"
  by (auto simp: hit_def Let_def setColor_def)

lemma hit_boxes [simp]:
  "hasIntersected (body (hit e)) b = hasIntersected (body e) b"
  "hasIntersected (head (hit e)) b = hasIntersected (head e) b"
  by (simp_all add: hit_def Let_def)

lemma hasHit_miss:
  "\<not> hasIntersected (body e) b \<Longrightarrow> \<not> hasIntersected (head e) b \<Longrightarrow> hasHit b s e = (e, s)"
  by (simp add: hasHit_def)

lemma hasHit_body:
  "hasIntersected (body e) b \<Longrightarrow> hasHit b s e = (hit e, False)"
  by (simp add: hasHit_def)

lemma hasHit_head:
  "\<not> hasIntersected (body e) b \<Longrightarrow> hasIntersected (head e) b \<Longrightarrow>
   hasHit b s e = ((hit e)\<lparr>alive := False\<rparr>, False)"
  by (simp add: hasHit_def)

lemmas hasHit_cases = hasHit_miss hasHit_body hasHit_head

lemma hasHit_alive_mono: "alive (fst (hasHit b s e)) \<Longrightarrow> alive e"
  by (auto simp: hasHit_def Let_def split: if_splits)

lemma hasHit_enemy_inv: "enemy_inv e \<Longrightarrow> enemy_inv (fst (hasHit b s e))"
  by (auto simp: hasHit_def enemy_inv_def Let_def)

lemma enemy_trans_dead: "enemy_trans EDead k s \<Longrightarrow> s = EDead"
  by (erule enemy_trans_EDead) simp_all

lemma enemy_trans_deterministic: "enemy_trans s k t \<Longrightarrow> enemy_trans s k t' \<Longrightarrow> t = t'"
  by (induction rule: enemy_trans.induct) (auto elim: enemy_trans.cases)

section \<open>Lemmas on Update\<close>

lemmas Update_unfold = Update_def reload_def Let_def

lemma Update_Inr_frame:
  assumes "Update dt ws px pz ml e = Inr (e', ml')"
  shows "x_pos e' = x_pos e \<and> z_pos e' = z_pos e \<and> body e' = body e \<and> head e' = head e \<and>
         life e' = life e \<and> alive e' = alive e \<and> shoot e'"
  using assms by (auto simp: Update_unfold split: if_splits sum.splits)

lemma Update_enemy_inv:
  "Update dt ws px pz ml e = Inr (e', ml') \<Longrightarrow> enemy_inv e \<Longrightarrow> enemy_inv e'"
  by (drule Update_Inr_frame) (simp add: enemy_inv_def)

lemma Update_life_count:
  assumes "Update dt ws px pz ml e = Inr (e', ml')"
  shows "ml' = (if bullet_hits_player px pz (bullet e) then ml - 1 else ml) \<and>
         (bullet_hits_player px pz (bullet e) \<longrightarrow> 0 < ml')"
  using assms by (auto simp: Update_unfold split: if_splits sum.splits)

lemma Update_Lose_iff:
  "Update dt ws px pz ml e = Inl Lose \<longleftrightarrow> bullet_hits_player px pz (bullet e) \<and> ml \<le> 1"
  by (auto simp: Update_unfold split: if_splits sum.splits)

lemma Update_Fault_iff:
  "Update dt ws px pz ml e = Inl (Fault u) \<longleftrightarrow>
     needs_reload ws px pz e \<and> \<not> (bullet_hits_player px pz (bullet e) \<and> ml \<le> 1) \<and>
     px = x_pos e \<and> pz = z_pos e \<and> u = Nan_value"
  unfolding needs_reload_def by (auto simp: Update_unfold split: if_splits sum.splits)

lemma Update_no_Win: "Update dt ws px pz ml e \<noteq> Inl Win"
  by (auto simp: Update_unfold split: if_splits sum.splits)

lemma Update_reload_bullet:
  assumes "Update dt ws px pz ml e = Inr (e', ml')" "needs_reload ws px pz e"
  defines "d \<equiv> hypot (px - x_pos e) (pz - z_pos e)"
  shows "m_velocity_x (bullet e') = BULLETSPEED * (px - x_pos e) / d \<and>
         m_velocity_z (bullet e') = BULLETSPEED * (pz - z_pos e) / d \<and>
         m_velocity_y (bullet e') = 0 \<and>
         center_x (bullet e') = x_pos e + m_velocity_x (bullet e') * dt \<and>
         center_y (bullet e') = PLAYERHEIGHT * 0.75 \<and>
         center_z (bullet e') = z_pos e + m_velocity_z (bullet e') * dt \<and> d \<noteq> 0"
  using assms unfolding needs_reload_def
  by (auto simp: Update_unfold split: if_splits sum.splits)

lemma Update_keep_bullet:
  assumes "Update dt ws px pz ml e = Inr (e', ml')" "\<not> needs_reload ws px pz e"
  shows "bullet e' = ballUpdate dt (bullet e)"
  using assms unfolding needs_reload_def
  by (auto simp: Update_unfold split: if_splits sum.splits)

section \<open>Concrete enemy used by the witnesses\<close>

text \<open>
  The enemy the level places in row 3, column 19 of \<open>game_map\<close>: it stands at
  \<open>(9, 23)\<close>; its body box is centred at \<open>(8.7, 0.85, 22.7)\<close>, its head box at
  \<open>(8.7, 2, 22.7)\<close>.
\<close>

lemma demo_enemy:
  "x_pos (CEnemy True 3 19) = 9" "z_pos (CEnemy True 3 19) = 23"
  "life (CEnemy True 3 19) = 3" "alive (CEnemy True 3 19)" "\<not> shoot (CEnemy True 3 19)"
  by (simp_all add: CEnemy_def Let_def macro_defs)

lemma demo_body_shot:
  "hasIntersected (body (CEnemy True 3 19)) (setCenter 8.7 0.85 22.7 (CSphere M_RADIUS))"
  by (simp add: CEnemy_def Let_def hasIntersected_def macro_defs getRadius_def CSphere_def
      CWall_def wall_create_def)

lemma demo_head_shot:
  "\<not> hasIntersected (body (CEnemy True 3 19)) (setCenter 8.7 2 22.7 (CSphere M_RADIUS))"
  "hasIntersected (head (CEnemy True 3 19)) (setCenter 8.7 2 22.7 (CSphere M_RADIUS))"
  by (simp_all add: CEnemy_def Let_def hasIntersected_def macro_defs getRadius_def CSphere_def
      CWall_def wall_create_def)

lemma demo_update:
  "needs_reload [] 9 20 (CEnemy True 3 19)"
  "\<exists>e' ml'. Update 0.001 [] 9 20 3 (CEnemy True 3 19) = Inr (e', ml')"
  by (simp_all add: needs_reload_def Update_def reload_def CEnemy_def Let_def clear_on_walls_def
      bullet_hits_player_def macro_defs hypot_def getRadius_def CSphere_def)

section \<open>Properties of the enemy\<close>

text \<open>
  C1. A body hit by the player's bullet costs the enemy exactly one point of life, kills
  it exactly when that empties its life, and consumes the player's bullet.
\<close>

theorem hasHit_body_shot:
  assumes "hasIntersected (body e) b"
  shows "snd (hasHit b s e) = False \<and> life (fst (hasHit b s e)) = life e - 1 \<and>
         (alive (fst (hasHit b s e)) \<longleftrightarrow> alive e \<and> 0 < life e - 1)"
  using assms by (simp add: hasHit_body)

theorem hasHit_body_shot_witness:
  "hasIntersected (body (CEnemy True 3 19)) (setCenter 8.7 0.85 22.7 (CSphere M_RADIUS)) \<and>
   life (fst (hasHit (setCenter 8.7 0.85 22.7 (CSphere M_RADIUS)) True (CEnemy True 3 19))) = 2 \<and>
   alive (fst (hasHit (setCenter 8.7 0.85 22.7 (CSphere M_RADIUS)) True (CEnemy True 3 19)))"
  using hasHit_body_shot [OF demo_body_shot, of True] demo_body_shot demo_enemy by simp

text \<open>
  C2. A bullet that misses the body but overlaps the head is a head-shot: the enemy is
  dead afterwards whatever its life was, although \<open>hit\<close> takes only one point of that
  life (a fresh enemy dies with two), and the player's bullet is consumed.
\<close>

theorem hasHit_head_shot:
  assumes "\<not> hasIntersected (body e) b" "hasIntersected (head e) b"
  shows "\<not> alive (fst (hasHit b s e)) \<and> life (fst (hasHit b s e)) = life e - 1 \<and>
         snd (hasHit b s e) = False"
  using assms by (simp add: hasHit_head)

theorem hasHit_head_shot_witness:
  "\<not> hasIntersected (body (CEnemy True 3 19)) (setCenter 8.7 2 22.7 (CSphere M_RADIUS)) \<and>
   hasIntersected (head (CEnemy True 3 19)) (setCenter 8.7 2 22.7 (CSphere M_RADIUS)) \<and>
   \<not> alive (fst (hasHit (setCenter 8.7 2 22.7 (CSphere M_RADIUS)) True (CEnemy True 3 19)))"
  using hasHit_head_shot [OF demo_head_shot, of True] demo_head_shot by simp

text \<open>
  C3. \<open>hasHit\<close> refines the enemy's abstract machine: the abstract state after the hit
  is the one the machine reaches from the abstract state before it, under the outcome the
  geometry gives the bullet. The machine is deterministic (\<open>enemy_trans_deterministic\<close>),
  so this fixes the health and the death of the enemy after every hit.
\<close>

theorem hasHit_refines_enemy_trans:
  "enemy_trans (estate e) (shot_at b e) (estate (fst (hasHit b s e)))"
proof (cases "alive e")
  case True
  then show ?thesis
    by (auto simp: hasHit_def estate_def shot_at_def Let_def hasIntersected_box_overlap [symmetric]
        intro: enemy_trans.intros)
next
  case False
  then show ?thesis
    by (auto simp: hasHit_def estate_def shot_at_def Let_def hasIntersected_box_overlap [symmetric]
        intro: enemy_trans.intros)
qed

text \<open>
  C4. Death is permanent: \<open>hasHit\<close> and \<open>Update\<close> never make a dead enemy alive, and
  the abstract machine has no transition out of \<open>Dead\<close>.
\<close>

theorem enemy_death_permanent:
  assumes "\<not> alive e"
  shows "\<not> alive (fst (hasHit b s e)) \<and>
         (\<forall>e' ml'. Update dt ws px pz ml e = Inr (e', ml') \<longrightarrow> \<not> alive e') \<and>
         (\<forall>k t. enemy_trans (estate e) k t \<longrightarrow> t = EDead)"
  using assms Update_Inr_frame enemy_trans_dead hasHit_alive_mono by (auto simp: estate_def)

theorem enemy_death_permanent_witness:
  "\<not> alive ((CEnemy True 3 19)\<lparr>alive := False\<rparr>) \<and>
   \<not> alive (fst (hasHit (setCenter 8.7 0.85 22.7 (CSphere M_RADIUS)) True ((CEnemy True 3 19)\<lparr>alive := False\<rparr>)))"
  using enemy_death_permanent [of "(CEnemy True 3 19)\<lparr>alive := False\<rparr>"] by simp

text \<open>
  C5. The damage an enemy's \<open>Update\<close> does to the player: the process exits with
  \<open>Lose\<close> exactly when the enemy's bullet is in the player's hit volume and the player
  has at most one life left; otherwise the player's life drops by one exactly when the
  bullet is in the hit volume.
\<close>

theorem Update_player_damage:
  "(Update dt ws px pz ml e = Inl Lose \<longleftrightarrow> bullet_hits_player px pz (bullet e) \<and> ml \<le> 1) \<and>
   (Update dt ws px pz ml e = Inr (e', ml') \<longrightarrow>
      ml' = (if bullet_hits_player px pz (bullet e) then ml - 1 else ml))"
  using Update_Lose_iff Update_life_count by blast

theorem Update_player_damage_witness:
  "\<exists>e' ml'. Update 0.001 [] 9 20 3 (CEnemy True 3 19) = Inr (e', ml') \<and> ml' = 3"
proof -
  obtain e' ml' where u: "Update 0.001 [] 9 20 3 (CEnemy True 3 19) = Inr (e', ml')"
    using demo_update by blast
  have "\<not> bullet_hits_player 9 20 (bullet (CEnemy True 3 19))"
    by (simp add: bullet_hits_player_def CEnemy_def Let_def macro_defs getRadius_def CSphere_def)
  with Update_player_damage [of "0.001" "[]" 9 20 3 "CEnemy True 3 19" e' ml'] u show ?thesis by auto
qed

text \<open>
  C6. When \<open>Update\<close> reloads (its bullet was idle, hit a wall or hit the player) it
  fires at the player's current position, horizontally, at speed \<open>BULLETSPEED\<close>.
\<close>

theorem Update_aims_at_player:
  assumes "Update dt ws px pz ml e = Inr (e', ml')" "needs_reload ws px pz e"
  shows "hypot (m_velocity_x (bullet e')) (m_velocity_z (bullet e')) = BULLETSPEED \<and>
         (\<exists>k>0. m_velocity_x (bullet e') = k * (px - x_pos e) \<and>
                m_velocity_z (bullet e') = k * (pz - z_pos e)) \<and>
         m_velocity_y (bullet e') = 0"
proof -
  let ?d = "hypot (px - x_pos e) (pz - z_pos e)"
  from Update_reload_bullet [OF assms] have v:
    "m_velocity_x (bullet e') = BULLETSPEED * (px - x_pos e) / ?d"
    "m_velocity_z (bullet e') = BULLETSPEED * (pz - z_pos e) / ?d"
    "m_velocity_y (bullet e') = 0" "?d \<noteq> 0" by auto
  have "hypot (BULLETSPEED * (px - x_pos e) / ?d) (BULLETSPEED * (pz - z_pos e) / ?d) = \<bar>BULLETSPEED\<bar>"
    by (rule hypot_scale [OF v(4)])
  moreover have "0 < ?d" using v(4) hypot_nonneg [of "px - x_pos e" "pz - z_pos e"]
    by (metis less_le)
  then have "0 < BULLETSPEED / ?d" by (simp add: BULLETSPEED_def)
  ultimately show ?thesis unfolding v(1,2,3) by (auto simp: BULLETSPEED_def intro!: exI [of _ "400 / ?d"])
qed

theorem Update_aims_at_player_witness:
  "\<exists>e' ml'. Update 0.001 [] 9 20 3 (CEnemy True 3 19) = Inr (e', ml') \<and>
     hypot (m_velocity_x (bullet e')) (m_velocity_z (bullet e')) = BULLETSPEED"
  using demo_update Update_aims_at_player by blast

text \<open>
  C13. \<open>hit\<close> reads the hit-colour arrays at index \<open>life - 1\<close> after the decrement; the
  read is out of bounds exactly when the life before the hit is neither 2 nor 3, in
  particular on the body hit that kills an enemy with one life left.
\<close>

theorem hit_colour_out_of_bounds:
  "(m_color (head (hit e)) = None \<longleftrightarrow> life e \<notin> {2, 3}) \<and>
   (m_color (body (hit e)) = None \<longleftrightarrow> life e \<notin> {2, 3})"
  by (auto simp: arr_read_def headHit_def bodyHit_def)

text \<open>
  C7. The invariant of an enemy (life at most 3, and positive while alive) holds for a
  newly constructed enemy and is kept by \<open>hasHit\<close> and by \<open>Update\<close>.
\<close>

theorem enemy_inv_kept:
  assumes "enemy_inv e"
  shows "enemy_inv (CEnemy d z x) \<and> enemy_inv (fst (hasHit b s e)) \<and>
         (\<forall>e' ml'. Update dt ws px pz ml e = Inr (e', ml') \<longrightarrow> enemy_inv e')"
  using assms hasHit_enemy_inv Update_enemy_inv
  by (auto simp: enemy_inv_def CEnemy_def Let_def)

theorem enemy_inv_kept_witness:
  "enemy_inv (CEnemy True 3 19) \<and>
   enemy_inv (fst (hasHit (setCenter 8.7 0.85 22.7 (CSphere M_RADIUS)) True (CEnemy True 3 19)))"
proof -
  have "enemy_inv (CEnemy True 3 19)" by (simp add: enemy_inv_def demo_enemy)
  then show ?thesis using enemy_inv_kept [of "CEnemy True 3 19"] by blast
qed

end
