(* ===== verification/Level.thy ===== *)
theory Level
  imports Enemy
begin

text \<open>
  Building the level from the grid (\<open>virtualLego.cpp\<close>, lines 472--503 and 596--603).
  \<open>make_map\<close> scans the 900 cell indices twice: once to count the walls and allocate
  the wall array, once to create each wall box in the array from its last slot down, the
  flag box and the player's spawn point. \<open>locate_enemy\<close> does the same for the
  enemies. The arrays are lists whose slots start as placeholders (the source's
  \<open>malloc\<close> leaves them uninitialised; the theorems show that every slot is
  overwritten). \<open>Cleanup\<close>'s loop is modelled only by its array accesses: the
  release of Direct3D resources is not part of the state.
\<close>

record level =
  lv_walls :: "cwall list"
  lv_wall_count :: int
  lv_flag :: cwall
  lv_pos_x :: double
  lv_pos_z :: double

text \<open>The loop index \<open>k\<close> of both scans, \<open>0 \<le> k < MAP_SIZE * MAP_SIZE\<close>.\<close>

definition cells :: "int list" where
  "cells = [0 .. MAP_SIZE * MAP_SIZE - 1]"

text \<open>The counting pass (lines 474 and 496).\<close>

fun count_cells :: "char \<Rightarrow> string list \<Rightarrow> int list \<Rightarrow> int \<Rightarrow> ub + int" where
  "count_cells ch m [] n = Inr n"
| "count_cells ch m (k # ks) n =
     (case map_at m (k div MAP_SIZE) (k mod MAP_SIZE) of
        None \<Rightarrow> Inl (Map_index (k div MAP_SIZE) (k mod MAP_SIZE))
      | Some c \<Rightarrow> count_cells ch m ks (if c = ch then n + 1 else n))"

text \<open>
  The filling pass of \<open>make_map\<close> (lines 477--490). A wall goes to slot
  \<open>--wall_count\<close>; a failed \<open>create\<close> returns \<open>false\<close> at once.
\<close>

fun fill_map :: "bool \<Rightarrow> string list \<Rightarrow> int list \<Rightarrow> level \<Rightarrow> ub + bool \<times> level" where
  "fill_map device m [] lv = Inr (True, lv)"
| "fill_map device m (k # ks) lv =
     (let row = k div MAP_SIZE; col = k mod MAP_SIZE in
      case map_at m row col of
        None \<Rightarrow> Inl (Map_index row col)
      | Some c \<Rightarrow>
          if c = CHR ''1'' then
            (let i = lv_wall_count lv - 1 in
             case arr_read (lv_walls lv) i of
               None \<Rightarrow> Inl (Array_index i)
             | Some w \<Rightarrow>
                 (let (ok, w) = wall_create device True (-1) (-1) (of_int WORLD_SIZE)
                                  (of_int WALL_HEIGHT) (of_int WORLD_SIZE) WHITE w
                  in if ok then
                       fill_map device m ks
                         (lv\<lparr>lv_wall_count := i,
                             lv_walls := (lv_walls lv)[nat i :=
                               setPosition (cell_x col) (of_int (WALL_HEIGHT div 2)) (cell_z row) w]\<rparr>)
                     else Inr (False, lv\<lparr>lv_wall_count := i, lv_walls := (lv_walls lv)[nat i := w]\<rparr>)))
          else if c = CHR ''F'' then
            (let (ok, f) = wall_create device True (-1) (-1) (of_int WORLD_SIZE)
                             (of_int WALL_HEIGHT) (of_int WORLD_SIZE) YELLOW (lv_flag lv)
             in if ok then
                  fill_map device m ks
                    (lv\<lparr>lv_flag := setPosition (cell_x col) (of_int (WALL_HEIGHT div 2)) (cell_z row) f\<rparr>)
                else Inr (False, lv\<lparr>lv_flag := f\<rparr>))
          else if c = CHR ''P'' then
            fill_map device m ks (lv\<lparr>lv_pos_x := spawn_x row, lv_pos_z := spawn_z col\<rparr>)
          else fill_map device m ks lv)"

definition make_map :: "bool \<Rightarrow> string list \<Rightarrow> level \<Rightarrow> ub + bool \<times> level" where
  "make_map device m lv =
     (case count_cells (CHR ''1'') m cells 0 of
        Inl u \<Rightarrow> Inl u
      | Inr wall_count \<Rightarrow>
          fill_map device m cells
            (lv\<lparr>lv_walls := replicate (nat wall_count) CWall, lv_wall_count := wall_count\<rparr>))"

text \<open>The filling pass of \<open>locate_enemy\<close> (lines 499--502): slot \<open>--enemy_count\<close>.\<close>

fun place_enemies ::
  "bool \<Rightarrow> string list \<Rightarrow> int list \<Rightarrow> cenemy list \<times> int \<Rightarrow> ub + cenemy list \<times> int" where
  "place_enemies device m [] st = Inr st"
| "place_enemies device m (k # ks) (es, n) =
     (case map_at m (k div MAP_SIZE) (k mod MAP_SIZE) of
        None \<Rightarrow> Inl (Map_index (k div MAP_SIZE) (k mod MAP_SIZE))
      | Some c \<Rightarrow>
          if c = CHR ''e'' then
            (case arr_read es (n - 1) of
               None \<Rightarrow> Inl (Array_index (n - 1))
             | Some _ \<Rightarrow>
                 place_enemies device m ks
                   (es[nat (n - 1) := CEnemy device (k div MAP_SIZE) (k mod MAP_SIZE)], n - 1))
          else place_enemies device m ks (es, n))"

definition locate_enemy :: "bool \<Rightarrow> string list \<Rightarrow> ub + cenemy list" where
  "locate_enemy device m =
     (case count_cells (CHR ''e'') m cells 0 of
        Inl u \<Rightarrow> Inl u
      | Inr enemy_count \<Rightarrow>
          map_sum id fst (place_enemies device m cells
            (replicate (nat enemy_count) (CEnemy device 0 0), enemy_count)))"

text \<open>
  \<open>Cleanup\<close>'s loop (lines 598--600) touches \<open>g_legowalls[i]\<close> for every
  \<open>i < MAP_SIZE * MAP_SIZE\<close>; the first index out of the array is a fault.
\<close>

fun touch_walls :: "cwall list \<Rightarrow> int list \<Rightarrow> ub + unit" where
  "touch_walls ws [] = Inr ()"
| "touch_walls ws (i # is) =
     (case arr_read ws i of None \<Rightarrow> Inl (Array_index i) | Some _ \<Rightarrow> touch_walls ws is)"

definition Cleanup :: "cwall list \<Rightarrow> ub + unit" where
  "Cleanup g_legowalls = touch_walls g_legowalls cells"

text \<open>
  The specification of the builders: the cells of a character in scan order, the wall
  box \<open>make_map\<close> builds for a cell index, and the enemy \<open>locate_enemy\<close> builds.
\<close>

definition cells_of :: "char \<Rightarrow> string list \<Rightarrow> int list" where
  "cells_of ch m = filter (\<lambda>k. map_at m (k div MAP_SIZE) (k mod MAP_SIZE) = Some ch) cells"

definition wall_box :: "int \<Rightarrow> cwall" where
  "wall_box k =
     setPosition (cell_x (k mod MAP_SIZE)) (of_int (WALL_HEIGHT div 2)) (cell_z (k div MAP_SIZE))
       (snd (wall_create True True (-1) (-1) (of_int WORLD_SIZE) (of_int WALL_HEIGHT)
               (of_int WORLD_SIZE) WHITE CWall))"

definition enemy_at :: "bool \<Rightarrow> int \<Rightarrow> cenemy" where
  "enemy_at device k = CEnemy device (k div MAP_SIZE) (k mod MAP_SIZE)"

text \<open>The level's globals before \<open>Setup\<close>: \<open>pos_x = pos_z = 0\<close> and a default flag.\<close>

definition level0 :: level where
  "level0 = \<lparr>lv_walls = [], lv_wall_count = 0, lv_flag = CWall, lv_pos_x = 0, lv_pos_z = 0\<rparr>"

section \<open>Lemmas on the scans\<close>

abbreviation is_cell :: "char \<Rightarrow> string list \<Rightarrow> int \<Rightarrow> bool" where
  "is_cell ch m k \<equiv> map_at m (k div MAP_SIZE) (k mod MAP_SIZE) = Some ch"

abbreviation cells_defined :: "string list \<Rightarrow> int list \<Rightarrow> bool" where
  "cells_defined m ks \<equiv> \<forall>k \<in> set ks. map_at m (k div MAP_SIZE) (k mod MAP_SIZE) \<noteq> None"

lemma cells_range:
  "k \<in> set cells \<Longrightarrow> 0 \<le> k div MAP_SIZE \<and> k div MAP_SIZE < MAP_SIZE \<and> 0 \<le> k mod MAP_SIZE \<and> k mod MAP_SIZE < MAP_SIZE"
  by (auto simp: cells_def MAP_SIZE_def)

lemma map_wf_cells_defined: "map_wf m \<Longrightarrow> cells_defined m cells"
  using cells_range map_at_in_range by fastforce

lemma length_cells: "length cells = 900"
  by (simp add: cells_def MAP_SIZE_def)

lemma count_cells_eq:
  "cells_defined m ks \<Longrightarrow> count_cells ch m ks n = Inr (n + int (length (filter (is_cell ch m) ks)))"
  by (induction ks arbitrary: n) auto

lemma wall_box_placeholder:
  "setPosition x y z (snd (wall_create True True a b wd h d c w)) =
   setPosition x y z (snd (wall_create True True a b wd h d c w'))"
  by (cases w, cases w') (simp add: setPosition_def wall_create_def)

lemma fill_map_wall_step:
  assumes "is_cell (CHR ''1'') m k" "0 < lv_wall_count lv" "nat (lv_wall_count lv) \<le> length (lv_walls lv)"
  shows "fill_map True m (k # ks) lv =
    fill_map True m ks (lv\<lparr>lv_wall_count := lv_wall_count lv - 1,
      lv_walls := (lv_walls lv)[nat (lv_wall_count lv - 1) := wall_box k]\<rparr>)"
proof -
  let ?i = "lv_wall_count lv - 1"
  have "setPosition (cell_x (k mod MAP_SIZE)) (of_int (WALL_HEIGHT div 2)) (cell_z (k div MAP_SIZE))
          (snd (wall_create True True (-1) (-1) (of_int WORLD_SIZE) (of_int WALL_HEIGHT)
                 (of_int WORLD_SIZE) WHITE (lv_walls lv ! nat ?i))) = wall_box k"
    unfolding wall_box_def by (rule wall_box_placeholder)
  moreover have "0 \<le> ?i" "?i < int (length (lv_walls lv))" using assms(2,3) by linarith+
  ultimately show ?thesis using assms(1) by (simp add: arr_read_def wall_create_def Let_def)
qed

lemma fill_map_other_step:
  assumes "map_at m (k div MAP_SIZE) (k mod MAP_SIZE) = Some c" "c \<noteq> CHR ''1''"
  shows "\<exists>lv1. fill_map True m (k # ks) lv = fill_map True m ks lv1 \<and>
           lv_walls lv1 = lv_walls lv \<and> lv_wall_count lv1 = lv_wall_count lv"
  using assms by (auto simp: Let_def wall_create_def)

lemma fill_map_walls:
  assumes "cells_defined m ks" "lv_wall_count lv = int (length (filter (is_cell (CHR ''1'') m) ks))"
    "nat (lv_wall_count lv) \<le> length (lv_walls lv)"
  shows "\<exists>lv'. fill_map True m ks lv = Inr (True, lv') \<and> lv_wall_count lv' = 0 \<and>
     length (lv_walls lv') = length (lv_walls lv) \<and>
     take (nat (lv_wall_count lv)) (lv_walls lv') = rev (map wall_box (filter (is_cell (CHR ''1'') m) ks)) \<and>
     drop (nat (lv_wall_count lv)) (lv_walls lv') = drop (nat (lv_wall_count lv)) (lv_walls lv)"
  using assms
proof (induction ks arbitrary: lv)
  case Nil
  then show ?case by simp
next
  case (Cons k ks)
  from Cons.prems(1) obtain c where c: "map_at m (k div MAP_SIZE) (k mod MAP_SIZE) = Some c" by auto
  show ?case
  proof (cases "c = CHR ''1''")
    case True
    let ?i = "lv_wall_count lv - 1" and ?A = "lv_walls lv"
    have n: "lv_wall_count lv = int (length (filter (is_cell (CHR ''1'') m) ks)) + 1"
      using Cons.prems(2) c True by simp
    then have i: "0 \<le> ?i" "nat ?i < length ?A" using Cons.prems(3) by auto
    obtain lv' where lv': "fill_map True m ks (lv\<lparr>lv_wall_count := ?i, lv_walls := ?A[nat ?i := wall_box k]\<rparr>)
        = Inr (True, lv')" "lv_wall_count lv' = 0" "length (lv_walls lv') = length ?A"
      "take (nat ?i) (lv_walls lv') = rev (map wall_box (filter (is_cell (CHR ''1'') m) ks))"
      "drop (nat ?i) (lv_walls lv') = drop (nat ?i) (?A[nat ?i := wall_box k])"
      using Cons.IH [of "lv\<lparr>lv_wall_count := ?i, lv_walls := ?A[nat ?i := wall_box k]\<rparr>"] Cons.prems(1) n i
      by auto
    have "fill_map True m (k # ks) lv = Inr (True, lv')"
      using fill_map_wall_step [of m k lv ks] c True i lv'(1) by simp
    moreover have "take (nat (?i + 1)) (lv_walls lv') = rev (map wall_box (filter (is_cell (CHR ''1'') m) ks)) @ [wall_box k]"
      "drop (nat (?i + 1)) (lv_walls lv') = drop (nat (?i + 1)) ?A"
      using fill_slot_down [OF i lv'(3,4,5)] by simp_all
    ultimately show ?thesis using lv'(2,3) c True by simp
  next
    case False
    then obtain lv1 where eq: "fill_map True m (k # ks) lv = fill_map True m ks lv1"
      "lv_walls lv1 = lv_walls lv" "lv_wall_count lv1 = lv_wall_count lv"
      using fill_map_other_step c by blast
    have fl: "filter (is_cell (CHR ''1'') m) (k # ks) = filter (is_cell (CHR ''1'') m) ks"
      using c False by simp
    have "\<exists>lv'. fill_map True m ks lv1 = Inr (True, lv') \<and> lv_wall_count lv' = 0 \<and>
       length (lv_walls lv') = length (lv_walls lv1) \<and>
       take (nat (lv_wall_count lv1)) (lv_walls lv') = rev (map wall_box (filter (is_cell (CHR ''1'') m) ks)) \<and>
       drop (nat (lv_wall_count lv1)) (lv_walls lv') = drop (nat (lv_wall_count lv1)) (lv_walls lv1)"
      using Cons.prems eq(2,3) fl by (intro Cons.IH) simp_all
    then show ?thesis by (simp only: eq fl)
  qed
qed

text \<open>The spawn point is the one of the last \<open>'P'\<close> cell of the scan, or unchanged.\<close>

definition spawn_fold :: "string list \<Rightarrow> int list \<Rightarrow> double \<times> double \<Rightarrow> double \<times> double" where
  "spawn_fold m ks p0 =
     fold (\<lambda>k p. if is_cell (CHR ''P'') m k then (spawn_x (k div MAP_SIZE), spawn_z (k mod MAP_SIZE)) else p)
       ks p0"

lemma fill_map_pos:
  "fill_map True m ks lv = Inr (True, lv') \<Longrightarrow>
   (lv_pos_x lv', lv_pos_z lv') = spawn_fold m ks (lv_pos_x lv, lv_pos_z lv)"
proof (induction ks arbitrary: lv)
  case Nil
  then show ?case by (simp add: spawn_fold_def)
next
  case (Cons k ks)
  show ?case
  proof (cases "map_at m (k div MAP_SIZE) (k mod MAP_SIZE)")
    case None
    with Cons.prems show ?thesis by (simp add: Let_def)
  next
    case (Some c)
    with Cons show ?thesis
      by (auto simp: Let_def wall_create_def spawn_fold_def split: option.splits if_splits)
  qed
qed

lemma place_enemies_eq:
  assumes "cells_defined m ks" "n = int (length (filter (is_cell (CHR ''e'') m) ks))" "nat n \<le> length es"
  shows "\<exists>es'. place_enemies d m ks (es, n) = Inr (es', 0) \<and> length es' = length es \<and>
     take (nat n) es' = rev (map (enemy_at d) (filter (is_cell (CHR ''e'') m) ks)) \<and>
     drop (nat n) es' = drop (nat n) es"
  using assms
proof (induction ks arbitrary: es n)
  case Nil
  then show ?case by simp
next
  case (Cons k ks)
  from Cons.prems(1) obtain c where c: "map_at m (k div MAP_SIZE) (k mod MAP_SIZE) = Some c" by auto
  show ?case
  proof (cases "c = CHR ''e''")
    case True
    let ?i = "n - 1"
    have n: "n = int (length (filter (is_cell (CHR ''e'') m) ks)) + 1" using Cons.prems(2) c True by simp
    then have i: "0 \<le> ?i" "nat ?i < length es" using Cons.prems(3) by auto
    obtain es' where es': "place_enemies d m ks (es[nat ?i := enemy_at d k], ?i) = Inr (es', 0)"
      "length es' = length es" "take (nat ?i) es' = rev (map (enemy_at d) (filter (is_cell (CHR ''e'') m) ks))"
      "drop (nat ?i) es' = drop (nat ?i) (es[nat ?i := enemy_at d k])"
      using Cons.IH [of ?i "es[nat ?i := enemy_at d k]"] Cons.prems(1) n i by auto
    have "place_enemies d m (k # ks) (es, n) = Inr (es', 0)"
      using c True i es'(1) by (simp add: arr_read_def enemy_at_def)
    moreover have "take (nat (?i + 1)) es' = rev (map (enemy_at d) (filter (is_cell (CHR ''e'') m) ks)) @ [enemy_at d k]"
      "drop (nat (?i + 1)) es' = drop (nat (?i + 1)) es"
      using fill_slot_down [OF i es'(2,3,4)] by simp_all
    ultimately show ?thesis using es'(2) c True by simp
  next
    case False
    then have "place_enemies d m (k # ks) (es, n) = place_enemies d m ks (es, n)"
      "filter (is_cell (CHR ''e'') m) (k # ks) = filter (is_cell (CHR ''e'') m) ks" using c by simp_all
    then show ?thesis using Cons.IH [of n es] Cons.prems c False by simp
  qed
qed

lemma touch_walls_upto:
  assumes "0 \<le> a" "a \<le> int (length ws)" "int (length ws) \<le> b"
  shows "touch_walls ws [a..b] = Inl (Array_index (int (length ws)))"
  using assms
proof (induction "nat (int (length ws) - a)" arbitrary: a)
  case 0
  then have "a = int (length ws)" by simp
  then show ?case using 0 by (simp add: upto_rec1 arr_read_def)
next
  case (Suc n)
  then have "a < int (length ws)" by simp
  moreover have "touch_walls ws [a + 1..b] = Inl (Array_index (int (length ws)))"
    using Suc by (intro Suc.hyps) auto
  ultimately show ?case using Suc.prems by (simp add: upto_rec1 arr_read_def)
qed

lemma cleanup_short_walls:
  "int (length ws) < MAP_SIZE * MAP_SIZE \<Longrightarrow> Cleanup ws = Inl (Array_index (int (length ws)))"
  unfolding Cleanup_def cells_def by (intro touch_walls_upto) auto

lemma walls_fewer_than_cells:
  assumes "k \<in> set cells" "\<not> is_cell (CHR ''1'') m k"
  shows "int (length (cells_of (CHR ''1'') m)) < MAP_SIZE * MAP_SIZE"
proof -
  have "length (cells_of (CHR ''1'') m) < length cells"
    using assms unfolding cells_of_def by (auto simp: length_filter_less)
  then show ?thesis using length_cells by (simp add: MAP_SIZE_def)
qed

lemma game_map_floor_cell: "31 \<in> set cells \<and> \<not> is_cell (CHR ''1'') game_map 31"
  by (simp add: cells_def MAP_SIZE_def map_at_def arr_read_def game_map_def)

text \<open>
  On a well-formed map \<open>make_map\<close> succeeds and its wall array holds the boxes of the
  wall cells in reverse scan order.
\<close>

lemma make_map_ok:
  assumes "map_wf m"
  shows "\<exists>lv'. make_map True m lv = Inr (True, lv') \<and>
           lv_walls lv' = rev (map wall_box (cells_of (CHR ''1'') m)) \<and> lv_wall_count lv' = 0"
proof -
  let ?n = "int (length (cells_of (CHR ''1'') m))"
  let ?lv0 = "lv\<lparr>lv_walls := replicate (nat ?n) CWall, lv_wall_count := ?n\<rparr>"
  have defd: "cells_defined m cells" using assms by (rule map_wf_cells_defined)
  then have cnt: "count_cells (CHR ''1'') m cells 0 = Inr ?n"
    by (simp add: count_cells_eq cells_of_def)
  obtain lv' where lv': "fill_map True m cells ?lv0 = Inr (True, lv')" "lv_wall_count lv' = 0"
    "length (lv_walls lv') = nat ?n"
    "take (nat ?n) (lv_walls lv') = rev (map wall_box (cells_of (CHR ''1'') m))"
    using fill_map_walls [where m = m and ks = cells and lv = ?lv0] defd by (auto simp: cells_of_def)
  have "lv_walls lv' = rev (map wall_box (cells_of (CHR ''1'') m))"
    using lv'(3,4) by simp
  then show ?thesis using cnt lv'(1,2) by (auto simp: make_map_def)
qed

text \<open>
  On a well-formed map \<open>locate_enemy\<close> returns the enemies of the \<open>'e'\<close> cells in
  reverse scan order.
\<close>

lemma locate_enemy_eq:
  assumes "map_wf m"
  shows "locate_enemy d m = Inr (rev (map (enemy_at d) (cells_of (CHR ''e'') m)))"
proof -
  let ?n = "int (length (cells_of (CHR ''e'') m))"
  have defd: "cells_defined m cells" using assms by (rule map_wf_cells_defined)
  then have cnt: "count_cells (CHR ''e'') m cells 0 = Inr ?n"
    by (simp add: count_cells_eq cells_of_def)
  obtain es' where "place_enemies d m cells (replicate (nat ?n) (CEnemy d 0 0), ?n) = Inr (es', 0)"
    "length es' = nat ?n" "take (nat ?n) es' = rev (map (enemy_at d) (cells_of (CHR ''e'') m))"
    using place_enemies_eq [where m = m and ks = cells and n = ?n and es = "replicate (nat ?n) (CEnemy d 0 0)" and d = d] defd
    by (auto simp: cells_of_def)
  then show ?thesis using cnt by (simp add: locate_enemy_def)
qed

lemma enemy_at_fields:
  "x_pos (enemy_at d k) = cell_x (k mod MAP_SIZE)" "z_pos (enemy_at d k) = cell_z (k div MAP_SIZE)"
  "alive (enemy_at d k)" "life (enemy_at d k) = 3" "\<not> shoot (enemy_at d k)"
  by (simp_all add: enemy_at_def CEnemy_def Let_def cell_x_def cell_z_def macro_defs algebra_simps)

text \<open>
  The player's spawn point after a scan: that of the last \<open>'P'\<close> cell scanned, if any.
\<close>

lemma spawn_fold_last:
  "spawn_fold m ks p0 =
     (case filter (is_cell (CHR ''P'') m) ks of [] \<Rightarrow> p0
      | xs \<Rightarrow> (spawn_x (last xs div MAP_SIZE), spawn_z (last xs mod MAP_SIZE)))"
  by (induction ks rule: rev_induct) (auto simp: spawn_fold_def split: list.splits)

lemma game_map_spawn_cell: "cells_of (CHR ''P'') game_map = [783]"
  by code_simp

section \<open>Properties of the level builders\<close>

text \<open>
  C14. For a well-formed map, \<open>make_map\<close> never reads the map or writes the wall array
  out of bounds and succeeds; it fills every slot of the array it allocates, with the
  boxes of the wall cells in reverse scan order (\<open>wall_count\<close> ends at 0), and leaves
  the player at the spawn point of the last \<open>'P'\<close> cell (or where it was, without one).
\<close>

theorem make_map_builds_walls:
  assumes "map_wf m"
  shows "\<exists>lv'. make_map True m lv = Inr (True, lv') \<and>
           lv_walls lv' = rev (map wall_box (cells_of (CHR ''1'') m)) \<and> lv_wall_count lv' = 0 \<and>
           (lv_pos_x lv', lv_pos_z lv') = spawn_fold m cells (lv_pos_x lv, lv_pos_z lv)"
proof -
  obtain lv' where lv': "make_map True m lv = Inr (True, lv')"
    "lv_walls lv' = rev (map wall_box (cells_of (CHR ''1'') m))" "lv_wall_count lv' = 0"
    using make_map_ok [OF assms] by blast
  moreover have "(lv_pos_x lv', lv_pos_z lv') = spawn_fold m cells (lv_pos_x lv, lv_pos_z lv)"
    using lv'(1) fill_map_pos by (auto simp: make_map_def split: sum.splits)
  ultimately show ?thesis by blast
qed

theorem make_map_builds_walls_witness:
  "\<exists>lv'. make_map True game_map level0 = Inr (True, lv') \<and>
     lv_walls lv' = rev (map wall_box (cells_of (CHR ''1'') game_map)) \<and> lv_wall_count lv' = 0"
  using make_map_builds_walls [OF game_map_wf, of level0] by blast

text \<open>
  C15. For a well-formed map, \<open>locate_enemy\<close> never goes out of bounds and returns one
  enemy for every \<open>'e'\<close> cell, in reverse scan order: each alive, with three lives and
  no bullet in flight, standing at the centre of its cell (where \<open>make_map\<close> would
  centre a wall box on that cell).
\<close>

theorem locate_enemy_builds_enemies:
  assumes "map_wf m"
  shows "\<exists>es. locate_enemy d m = Inr es \<and> length es = length (cells_of (CHR ''e'') m) \<and>
           map (\<lambda>e. (x_pos e, z_pos e)) es =
             rev (map (\<lambda>k. (cell_x (k mod MAP_SIZE), cell_z (k div MAP_SIZE))) (cells_of (CHR ''e'') m)) \<and>
           list_all (\<lambda>e. alive e \<and> life e = 3 \<and> \<not> shoot e) es"
  using locate_enemy_eq [OF assms, of d] by (simp add: rev_map [symmetric] comp_def enemy_at_fields list_all_iff)

theorem locate_enemy_builds_enemies_witness:
  "\<exists>es. locate_enemy True game_map = Inr es \<and> length es = length (cells_of (CHR ''e'') game_map) \<and>
     map (\<lambda>e. (x_pos e, z_pos e)) es =
       rev (map (\<lambda>k. (cell_x (k mod MAP_SIZE), cell_z (k div MAP_SIZE))) (cells_of (CHR ''e'') game_map)) \<and>
     list_all (\<lambda>e. alive e \<and> life e = 3 \<and> \<not> shoot e) es"
  using locate_enemy_builds_enemies [OF game_map_wf] .

text \<open>
  C16. \<open>Cleanup\<close> walks \<open>MAP_SIZE * MAP_SIZE\<close> slots of the wall array, but
  \<open>make_map\<close> allocates one slot per wall cell: on every well-formed map with a cell
  that is not a wall, such as the shipped one, \<open>Cleanup\<close> accesses the array out of
  bounds, first at index \<open>wall_num\<close>.
\<close>

theorem cleanup_overruns_walls:
  assumes "map_wf m" "k \<in> set cells" "\<not> is_cell (CHR ''1'') m k"
    "make_map True m lv = Inr (True, lv')"
  shows "Cleanup (lv_walls lv') = Inl (Array_index (int (length (lv_walls lv'))))"
proof -
  obtain lv'' where "make_map True m lv = Inr (True, lv'')"
    "lv_walls lv'' = rev (map wall_box (cells_of (CHR ''1'') m))"
    using make_map_ok [OF assms(1)] by blast
  then have w: "lv_walls lv' = rev (map wall_box (cells_of (CHR ''1'') m))" using assms(4) by simp
  show ?thesis using walls_fewer_than_cells [OF assms(2,3)] w by (intro cleanup_short_walls) simp
qed

theorem cleanup_overruns_walls_witness:
  "\<exists>lv'. make_map True game_map level0 = Inr (True, lv') \<and>
     Cleanup (lv_walls lv') = Inl (Array_index (int (length (lv_walls lv'))))"
proof -
  obtain lv' where lv': "make_map True game_map level0 = Inr (True, lv')"
    using make_map_ok [OF game_map_wf, of level0] by blast
  then show ?thesis
    using cleanup_overruns_walls [OF game_map_wf _ _ lv'] game_map_floor_cell by blast
qed

end
