(* ===== verification/Player.thy ===== *)
theory Player
  imports GridMap "HOL-Library.Word"
begin

unbundle bit_operations_syntax

text \<open>
  The player (\<open>virtualLego.cpp\<close>): the globals \<open>pos_x\<close>, \<open>pos_z\<close>,
  \<open>target_x\<close>, \<open>target_y\<close>, \<open>target_z\<close>, \<open>my_life\<close>, \<open>my_shoot\<close> and
  \<open>my_bullet\<close> (lines 47--55 and 530) as a record, the mouse handler of
  \<open>WndProc\<close> (lines 745--779: the look rotation and firing) and the movement block
  of \<open>Display\<close> (lines 667--695). The operations are stated over the record scheme,
  so that they apply unchanged to the world of all globals in theory \<open>Frame\<close>.
  The lemmas show that the aim stays a unit vector off the vertical, so that looking
  never divides by zero; that firing launches the bullet along the aim at
  \<open>BULLETSPEED\<close>; that a move is a step of exactly \<open>WALKSPEED\<close> or none at all;
  that from a placed position every move reads the map in bounds and lands on a placed
  position; and that a frame in which no movement key is pressed converts a NaN to
  \<open>int\<close>.
\<close>

record player =
  pos_x :: double
  pos_z :: double
  target_x :: double
  target_y :: double
  target_z :: double
  my_life :: int
  my_shoot :: bool
  my_bullet :: csphere

section \<open>The mouse handler\<close>

text \<open>
  The message parameters as the 32-bit words they are on the target, and the
  \<open>windef.h\<close> macros that split them.
\<close>

definition LOWORD :: "32 word \<Rightarrow> 16 word" where
  "LOWORD l = ucast (l AND 0xFFFF)"

definition HIWORD :: "32 word \<Rightarrow> 16 word" where
  "HIWORD l = ucast (drop_bit 16 l AND 0xFFFF)"

definition MK_LBUTTON :: "16 word" where
  "MK_LBUTTON = 0x0001"

text \<open>
  The look rotation (lines 746--769): the horizontal part of the aim turns by the
  horizontal mouse offset from \<open>(492, 269)\<close>; the vertical component becomes the sine
  of the old elevation plus the vertical offset; the vector is then normalised. The
  square root of a negative number and the division \<open>0/0\<close> give NaN in the source;
  both are faults here.
\<close>

definition look :: "int \<Rightarrow> int \<Rightarrow> 'a player_scheme \<Rightarrow> ub + 'a player_scheme" where
  "look new_h new_v p =
     (let dh = of_int (492 - new_h) * 0.001;
          dv = of_int (269 - new_v) * 0.001;
          cos_target = target_x p;
          sin_target = target_z p;
          cos_dh = cos (dh * LOOKAROUNDSPEED);
          sin_dh = sin (dh * LOOKAROUNDSPEED);
          tx = cos_target * cos_dh - sin_target * sin_dh;
          tz = sin_target * cos_dh + cos_target * sin_dh;
          sin_target_up = target_y p
      in if 1 - (target_y p)\<^sup>2 < 0 then Inl Nan_value
         else
           (let cos_target_up = sqrt (1 - (target_y p)\<^sup>2);
                sin_dv_up = sin (dv * LOOKAROUNDSPEED);
                cos_dv_up = cos (dv * LOOKAROUNDSPEED);
                ty = sin_target_up * cos_dv_up + cos_target_up * sin_dv_up;
                target_radius = sqrt (tx\<^sup>2 + ty\<^sup>2 + tz\<^sup>2)
            in if target_radius = 0 then Inl Nan_value
               else Inr (p\<lparr>target_x := tx / target_radius, target_y := ty / target_radius,
                           target_z := tz / target_radius\<rparr>)))"

text \<open>Firing (lines 774--777): launch the bullet from half a unit ahead, along the aim.\<close>

definition fire :: "'a player_scheme \<Rightarrow> 'a player_scheme" where
  "fire p =
     (if \<not> my_shoot p then
        p\<lparr>my_bullet := setPowerY (target_x p * BULLETSPEED) (target_y p * BULLETSPEED)
                          (target_z p * BULLETSPEED)
                          (setCenter (pos_x p + target_x p * 0.5) (PLAYERHEIGHT + target_y p * 0.5)
                             (pos_z p + target_z p * 0.5) (my_bullet p)),
          my_shoot := True\<rparr>
      else p)"

text \<open>\<open>WM_MOUSEMOVE\<close> (lines 745--780): look, then fire if the left button is down.\<close>

definition mouse_move :: "32 word \<Rightarrow> 32 word \<Rightarrow> 'a player_scheme \<Rightarrow> ub + 'a player_scheme" where
  "mouse_move wParam lParam p =
     (let new_h = uint (LOWORD lParam);
          new_v = uint (HIWORD lParam)
      in case look new_h new_v p of
           Inl u \<Rightarrow> Inl u
         | Inr p \<Rightarrow>
             Inr (if LOWORD wParam \<noteq> 0 \<and> LOWORD wParam AND MK_LBUTTON \<noteq> 0 then fire p else p))"

section \<open>Movement\<close>

text \<open>
  The keyboard as \<open>GetAsyncKeyState\<close> sees it: whether the key with a virtual-key code
  is down. Each direction is bound to two codes (lines 670, 674, 678, 682).
\<close>

type_synonym keystate = "nat \<Rightarrow> bool"

text \<open>
  The direction of a move (lines 667--685): the sum of the unit vectors of the pressed
  directions in the horizontal frame of the aim (\<open>aim_x\<close>, \<open>aim_z\<close> are the globals
  \<open>target_x\<close>, \<open>target_z\<close>). A zero horizontal aim divides
  \<open>0/0\<close> as soon as a key is pressed.
\<close>

definition move_vector :: "keystate \<Rightarrow> double \<Rightarrow> double \<Rightarrow> ub + double \<times> double" where
  "move_vector ks aim_x aim_z =
     (let radius = hypot aim_x aim_z;
          w = (ks 0x77 \<or> ks 0x57); s = (ks 0x73 \<or> ks 0x53);
          a = (ks 0x61 \<or> ks 0x41); d = (ks 0x64 \<or> ks 0x44)
      in if radius = 0 \<and> (w \<or> s \<or> a \<or> d) then Inl Nan_value
         else
           (let (next_x, next_z) = ((0, 0) :: double \<times> double);
                (next_x, next_z) = (if w then (next_x + aim_x / radius, next_z + aim_z / radius)
                                    else (next_x, next_z));
                (next_x, next_z) = (if s then (next_x - aim_x / radius, next_z - aim_z / radius)
                                    else (next_x, next_z));
                (next_x, next_z) = (if a then (next_x - aim_z / radius, next_z + aim_x / radius)
                                    else (next_x, next_z));
                (next_x, next_z) = (if d then (next_x + aim_z / radius, next_z - aim_x / radius)
                                    else (next_x, next_z))
            in Inr (next_x, next_z)))"

text \<open>
  The move (lines 687--695): scale the direction to \<open>WALKSPEED\<close> and take the step
  only if the destination is passable. A zero direction makes the scale factor
  \<open>WALKSPEED / 0\<close> infinite and the step \<open>0 * inf\<close> NaN, which \<open>goable\<close> then
  converts to \<open>int\<close>: undefined behaviour.
\<close>

definition move :: "string list \<Rightarrow> keystate \<Rightarrow> 'a player_scheme \<Rightarrow> ub + 'a player_scheme" where
  "move m ks p =
     (case move_vector ks (target_x p) (target_z p) of
        Inl u \<Rightarrow> Inl u
      | Inr (next_x, next_z) \<Rightarrow>
          (let next_radius = hypot next_x next_z
           in if next_radius = 0 then Inl Nan_to_int
              else
                (let next_x = next_x * (WALKSPEED / next_radius);
                     next_z = next_z * (WALKSPEED / next_radius)
                 in case goable m (pos_x p + next_x) (pos_z p + next_z) of
                      Inl u \<Rightarrow> Inl u
                    | Inr True \<Rightarrow> Inr (p\<lparr>pos_x := pos_x p + next_x, pos_z := pos_z p + next_z\<rparr>)
                    | Inr False \<Rightarrow> Inr p)))"

text \<open>
  The direction of a move as the specification describes it: the forward and right
  unit vectors of the horizontal aim, weighted by the net forward and net sideways key
  presses.
\<close>

definition move_dir :: "keystate \<Rightarrow> double \<Rightarrow> double \<Rightarrow> double \<times> double" where
  "move_dir ks ax az =
     (let r = hypot ax az; u = ax / r; v = az / r;
          f = (if ks 0x77 \<or> ks 0x57 then 1 else 0) - (if ks 0x73 \<or> ks 0x53 then 1 else 0);
          l = (if ks 0x61 \<or> ks 0x41 then 1 else 0) - (if ks 0x64 \<or> ks 0x44 then 1 else 0)
      in (f * u - l * v, f * v + l * u))"

text \<open>
  The invariant of the aim: a unit vector that is not vertical. The initial aim
  \<open>(1, 0, 0)\<close> (lines 49--51) has it.
\<close>

definition aim_wf :: "'a player_scheme \<Rightarrow> bool" where
  "aim_wf p \<longleftrightarrow> (target_x p)\<^sup>2 + (target_y p)\<^sup>2 + (target_z p)\<^sup>2 = 1 \<and> 0 < (target_x p)\<^sup>2 + (target_z p)\<^sup>2"

text \<open>
  The player's globals at start-up (lines 47--55 and 530): at the origin, aiming along
  \<open>x\<close>, with no bullet in flight; \<open>my_life\<close> has static storage and is zero until
  \<open>Setup\<close> sets it.
\<close>

definition player0 :: player where
  "player0 = \<lparr>pos_x = 0, pos_z = 0, target_x = 1, target_y = 0, target_z = 0, my_life = 0,
              my_shoot = False, my_bullet = CSphere M_RADIUS\<rparr>"

section \<open>Lemmas on the handler and the move\<close>

text \<open>
  Looking from a unit aim off the vertical: the horizontal part is rotated, so it keeps
  its length, which is positive; the vector is therefore never zero and the result is
  again a unit vector off the vertical.
\<close>

lemma look_eq:
  assumes "aim_wf p"
    and A: "A = of_int (492 - h) * 0.001 * LOOKAROUNDSPEED"
    and B: "B = of_int (269 - v) * 0.001 * LOOKAROUNDSPEED"
    and tx_def: "tx = target_x p * cos A - target_z p * sin A"
    and tz_def: "tz = target_z p * cos A + target_x p * sin A"
    and ty_def: "ty = target_y p * cos B + sqrt (1 - (target_y p)\<^sup>2) * sin B"
    and R_def: "R = sqrt (tx\<^sup>2 + ty\<^sup>2 + tz\<^sup>2)"
  shows "look h v p = Inr (p\<lparr>target_x := tx / R, target_y := ty / R, target_z := tz / R\<rparr>) \<and>
         0 < tx\<^sup>2 + tz\<^sup>2 \<and> tx\<^sup>2 + tz\<^sup>2 = (target_x p)\<^sup>2 + (target_z p)\<^sup>2 \<and> 0 < R"
proof -
  have hor: "tx\<^sup>2 + tz\<^sup>2 = (target_x p)\<^sup>2 + (target_z p)\<^sup>2"
    unfolding tx_def tz_def by (rule rotate_norm)
  have y: "\<not> 1 - (target_y p)\<^sup>2 < 0" using assms(1) by (simp add: aim_wf_def)
  have hpos: "0 < tx\<^sup>2 + tz\<^sup>2" using hor assms(1) by (simp add: aim_wf_def)
  moreover have "0 \<le> ty\<^sup>2" by simp
  ultimately have "0 < tx\<^sup>2 + ty\<^sup>2 + tz\<^sup>2" by linarith
  then have R: "0 < R" by (simp add: R_def)
  have "look h v p = Inr (p\<lparr>target_x := tx / R, target_y := ty / R, target_z := tz / R\<rparr>)"
    using y R unfolding look_def Let_def A B tx_def tz_def ty_def R_def by simp
  then show ?thesis using hor hpos R by simp
qed

lemma look_ok:
  assumes "aim_wf p"
  shows "\<exists>p'. look h v p = Inr p' \<and> aim_wf p' \<and>
           p' = p\<lparr>target_x := target_x p', target_y := target_y p', target_z := target_z p'\<rparr>"
proof -
  define A where "A = of_int (492 - h) * 0.001 * LOOKAROUNDSPEED"
  define B where "B = of_int (269 - v) * 0.001 * LOOKAROUNDSPEED"
  define tx where "tx = target_x p * cos A - target_z p * sin A"
  define tz where "tz = target_z p * cos A + target_x p * sin A"
  define ty where "ty = target_y p * cos B + sqrt (1 - (target_y p)\<^sup>2) * sin B"
  define R where "R = sqrt (tx\<^sup>2 + ty\<^sup>2 + tz\<^sup>2)"
  have eq: "look h v p = Inr (p\<lparr>target_x := tx / R, target_y := ty / R, target_z := tz / R\<rparr>)"
    and hpos: "0 < tx\<^sup>2 + tz\<^sup>2" and R: "0 < R"
    using look_eq [OF assms A_def B_def tx_def tz_def ty_def R_def] by auto
  have "0 \<le> ty\<^sup>2" by simp
  then have pos: "0 < tx\<^sup>2 + ty\<^sup>2 + tz\<^sup>2" using hpos by linarith
  have unit: "(tx / R)\<^sup>2 + (ty / R)\<^sup>2 + (tz / R)\<^sup>2 = 1"
    unfolding R_def by (rule normalise3 [OF pos])
  have "(tx / R)\<^sup>2 + (tz / R)\<^sup>2 = (tx\<^sup>2 + tz\<^sup>2) / R\<^sup>2" by (simp add: power_divide add_divide_distrib)
  then have "0 < (tx / R)\<^sup>2 + (tz / R)\<^sup>2" using hpos R by simp
  with unit have "aim_wf (p\<lparr>target_x := tx / R, target_y := ty / R, target_z := tz / R\<rparr>)"
    by (simp add: aim_wf_def)
  with eq show ?thesis by simp
qed

lemma move_vector_Inl: "move_vector ks x z = Inl u \<Longrightarrow> u = Nan_value"
  by (simp add: move_vector_def Let_def split: if_splits prod.splits)

text \<open>
  The outcomes of a move: a NaN fault, or a step of length \<open>WALKSPEED\<close> whose
  destination \<open>goable\<close> judges, taken exactly when it is passable.
\<close>

lemma move_outcome:
  "(\<exists>u. move m ks p = Inl u \<and> (u = Nan_value \<or> u = Nan_to_int)) \<or>
   (\<exists>dx dz. hypot dx dz = WALKSPEED \<and>
      (case goable m (pos_x p + dx) (pos_z p + dz) of
         Inl u \<Rightarrow> move m ks p = Inl u
       | Inr True \<Rightarrow> move m ks p = Inr (p\<lparr>pos_x := pos_x p + dx, pos_z := pos_z p + dz\<rparr>)
       | Inr False \<Rightarrow> move m ks p = Inr p))"
proof (cases "move_vector ks (target_x p) (target_z p)")
  case (Inl u)
  then show ?thesis using move_vector_Inl [OF Inl] by (simp add: move_def)
next
  case (Inr d)
  obtain nx nz where d: "d = (nx, nz)" by (cases d)
  show ?thesis
  proof (cases "hypot nx nz = 0")
    case True
    then show ?thesis using Inr d by (simp add: move_def)
  next
    case False
    let ?dx = "nx * (WALKSPEED / hypot nx nz)" and ?dz = "nz * (WALKSPEED / hypot nx nz)"
    have "hypot ?dx ?dz = \<bar>WALKSPEED\<bar>"
      using hypot_scale [OF False, of WALKSPEED] by (simp add: mult.commute times_divide_eq_left)
    then have "hypot ?dx ?dz = WALKSPEED" by (simp add: WALKSPEED_def)
    moreover have eq: "move m ks p =
      (case goable m (pos_x p + ?dx) (pos_z p + ?dz) of
         Inl u \<Rightarrow> Inl u
       | Inr True \<Rightarrow> Inr (p\<lparr>pos_x := pos_x p + ?dx, pos_z := pos_z p + ?dz\<rparr>)
       | Inr False \<Rightarrow> Inr p)"
      by (simp only: move_def Inr d sum.case prod.case Let_def if_not_P [OF False])
    have "case goable m (pos_x p + ?dx) (pos_z p + ?dz) of
         Inl u \<Rightarrow> move m ks p = Inl u
       | Inr True \<Rightarrow> move m ks p = Inr (p\<lparr>pos_x := pos_x p + ?dx, pos_z := pos_z p + ?dz\<rparr>)
       | Inr False \<Rightarrow> move m ks p = Inr p"
      unfolding eq by (simp split: sum.split bool.split)
    ultimately show ?thesis by blast
  qed
qed

lemma fire_fields [simp]:
  "pos_x (fire p) = pos_x p" "pos_z (fire p) = pos_z p" "my_life (fire p) = my_life p"
  "target_x (fire p) = target_x p" "target_y (fire p) = target_y p" "target_z (fire p) = target_z p"
  by (simp_all add: fire_def)

lemma aim_wf_fire [simp]: "aim_wf (fire p) = aim_wf p"
  by (simp add: aim_wf_def)

lemma lbutton_nonzero: "LOWORD w AND MK_LBUTTON \<noteq> 0 \<Longrightarrow> LOWORD w \<noteq> 0"
  by auto

text \<open>A move changes nothing but the position.\<close>

lemma move_frame:
  assumes "move m ks p = Inr p'"
  shows "p' = p\<lparr>pos_x := pos_x p', pos_z := pos_z p'\<rparr>"
proof -
  obtain dx dz where step: "case goable m (pos_x p + dx) (pos_z p + dz) of
         Inl u \<Rightarrow> move m ks p = Inl u
       | Inr True \<Rightarrow> move m ks p = Inr (p\<lparr>pos_x := pos_x p + dx, pos_z := pos_z p + dz\<rparr>)
       | Inr False \<Rightarrow> move m ks p = Inr p"
    using move_outcome [of m ks p] assms by auto
  then show ?thesis using assms by (auto split: sum.splits bool.splits)
qed

lemma move_keeps:
  assumes "move m ks p = Inr p'"
  shows "my_life p' = my_life p" "target_x p' = target_x p" "target_y p' = target_y p"
    "target_z p' = target_z p" "player.more p' = player.more p"
  by (subst move_frame [OF assms]; simp)+

text \<open>
  From a placed position on a well-formed walled map, a move either stops at a NaN or
  lands on a placed position: one step moves each probe by at most one tile, and the
  border of the map is wall.
\<close>

lemma move_placed:
  assumes "map_wf m" "walled m" "placed m (pos_x p) (pos_z p)"
  shows "(\<exists>u. move m ks p = Inl u \<and> (u = Nan_value \<or> u = Nan_to_int)) \<or>
         (\<exists>p'. move m ks p = Inr p' \<and> placed m (pos_x p') (pos_z p'))"
proof -
  consider (nan) u where "move m ks p = Inl u" "u = Nan_value \<or> u = Nan_to_int"
    | (step) dx dz where "hypot dx dz = WALKSPEED"
      "case goable m (pos_x p + dx) (pos_z p + dz) of
         Inl u \<Rightarrow> move m ks p = Inl u
       | Inr True \<Rightarrow> move m ks p = Inr (p\<lparr>pos_x := pos_x p + dx, pos_z := pos_z p + dz\<rparr>)
       | Inr False \<Rightarrow> move m ks p = Inr p"
    using move_outcome [of m ks p] by blast
  then show ?thesis
  proof cases
    case nan
    then show ?thesis by auto
  next
    case step
    have "\<bar>dx\<bar> \<le> 2" "\<bar>dz\<bar> \<le> 2"
      using abs_le_hypot [of dx dz] step(1) by (simp_all add: WALKSPEED_def)
    then obtain b where "goable m (pos_x p + dx) (pos_z p + dz) = Inr b"
      "b \<longrightarrow> placed m (pos_x p + dx) (pos_z p + dz)"
      using placed_step [OF assms, of "pos_x p + dx" "pos_z p + dz"] by auto
    with step(2) assms(3) show ?thesis by (cases b) auto
  qed
qed

text \<open>One step forward from the spawn point of the shipped map, along the initial aim.\<close>

lemma walk_from_spawn:
  assumes "pos_x p = -23" "pos_z p = -23" "target_x p = 1" "target_z p = 0"
  shows "move game_map (\<lambda>k. k = 0x57) p = Inr (p\<lparr>pos_x := -22.985\<rparr>)"
  using assms by (simp add: move_def move_vector_def hypot_def goable_def corner_test_def
      tile_row_def tile_col_def macro_defs c_trunc_def map_at_def arr_read_def game_map_def)

lemma spawn_walk:
  "move game_map (\<lambda>k. k = 0x57) (player0\<lparr>pos_x := -23, pos_z := -23\<rparr>)
     = Inr (player0\<lparr>pos_x := -22.985, pos_z := -23\<rparr>)"
  using walk_from_spawn [of "player0\<lparr>pos_x := -23, pos_z := -23\<rparr>"] by (simp add: player0_def)

lemma mask16: "(0xFFFF :: 32 word) = mask 16"
  by (simp add: mask_eq_exp_minus_1)

text \<open>The mouse handler is the look rotation, followed by firing when the left button is down.\<close>

lemma mouse_move_look:
  assumes "look (uint (LOWORD lParam)) (uint (HIWORD lParam)) p = Inr p1"
  shows "mouse_move wParam lParam p = Inr (if LOWORD wParam AND MK_LBUTTON \<noteq> 0 then fire p1 else p1)"
  using assms lbutton_nonzero by (simp add: mouse_move_def)

lemma aim_speed:
  assumes "aim_wf p"
  shows "sqrt ((target_x p * k)\<^sup>2 + (target_y p * k)\<^sup>2 + (target_z p * k)\<^sup>2) = \<bar>k\<bar>"
proof -
  have "(target_x p * k)\<^sup>2 + (target_y p * k)\<^sup>2 + (target_z p * k)\<^sup>2
      = k\<^sup>2 * ((target_x p)\<^sup>2 + (target_y p)\<^sup>2 + (target_z p)\<^sup>2)"
    by (simp add: power_mult_distrib algebra_simps)
  then show ?thesis using assms by (simp add: aim_wf_def)
qed

text \<open>
  C17. The mouse handler keeps the aim a unit vector off the vertical, so that it never
  divides by zero or takes the square root of a negative number, and it does not move
  the player or change the player's life.
\<close>

theorem mouse_move_keeps_aim:
  assumes "aim_wf p"
  shows "\<exists>p'. mouse_move wParam lParam p = Inr p' \<and> aim_wf p' \<and>
           pos_x p' = pos_x p \<and> pos_z p' = pos_z p \<and> my_life p' = my_life p"
proof -
  obtain p1 where p1: "look (uint (LOWORD lParam)) (uint (HIWORD lParam)) p = Inr p1" "aim_wf p1"
    "p1 = p\<lparr>target_x := target_x p1, target_y := target_y p1, target_z := target_z p1\<rparr>"
    using look_ok [OF assms] by blast
  have "pos_x p1 = pos_x p" "pos_z p1 = pos_z p" "my_life p1 = my_life p"
    by (subst p1(3); simp)+
  then show ?thesis using mouse_move_look [OF p1(1)] p1(2) by simp
qed

theorem mouse_move_keeps_aim_witness:
  "\<exists>p'. mouse_move 1 0x01000100 player0 = Inr p' \<and> aim_wf p' \<and>
     pos_x p' = pos_x player0 \<and> pos_z p' = pos_z player0 \<and> my_life p' = my_life player0"
  by (rule mouse_move_keeps_aim) (simp add: aim_wf_def player0_def)

text \<open>
  C18. The handler reads the cursor's column from the low word of \<open>lParam\<close> and its row
  from the high word, and turns the aim about the matching axis: a cursor on the centre
  column 492 keeps the heading (the horizontal part of the aim is only rescaled), and a
  cursor on the centre row 269 keeps the elevation.
\<close>

theorem mouse_look_axes:
  assumes "aim_wf p" "mouse_move wParam lParam p = Inr p'"
  shows "(uint (LOWORD lParam) = 492 \<longrightarrow>
            (\<exists>k>0. target_x p' = k * target_x p \<and> target_z p' = k * target_z p)) \<and>
         (uint (HIWORD lParam) = 269 \<longrightarrow> target_y p' = target_y p)"
proof -
  let ?h = "uint (LOWORD lParam)" and ?v = "uint (HIWORD lParam)"
  define A where "A = of_int (492 - ?h) * 0.001 * LOOKAROUNDSPEED"
  define B where "B = of_int (269 - ?v) * 0.001 * LOOKAROUNDSPEED"
  define tx where "tx = target_x p * cos A - target_z p * sin A"
  define tz where "tz = target_z p * cos A + target_x p * sin A"
  define ty where "ty = target_y p * cos B + sqrt (1 - (target_y p)\<^sup>2) * sin B"
  define R where "R = sqrt (tx\<^sup>2 + ty\<^sup>2 + tz\<^sup>2)"
  have eq: "look ?h ?v p = Inr (p\<lparr>target_x := tx / R, target_y := ty / R, target_z := tz / R\<rparr>)"
    and hor: "tx\<^sup>2 + tz\<^sup>2 = (target_x p)\<^sup>2 + (target_z p)\<^sup>2" and R: "0 < R"
    using look_eq [OF assms(1) A_def B_def tx_def tz_def ty_def R_def] by auto
  have p': "target_x p' = tx / R" "target_y p' = ty / R" "target_z p' = tz / R"
    using mouse_move_look [OF eq, of wParam] assms(2) by (auto split: if_splits)
  have "(\<exists>k>0. target_x p' = k * target_x p \<and> target_z p' = k * target_z p)" if "?h = 492"
  proof -
    have "A = 0" using that by (simp add: A_def)
    then show ?thesis using R p'(1,3) by (intro exI [of _ "1 / R"]) (simp add: tx_def tz_def)
  qed
  moreover have "target_y p' = target_y p" if "?v = 269"
  proof -
    have "B = 0" using that by (simp add: B_def)
    then have "ty = target_y p" by (simp add: ty_def)
    then have "R = 1" using hor assms(1) by (simp add: R_def aim_wf_def add.commute add.left_commute)
    then show ?thesis using p'(2) \<open>ty = target_y p\<close> by simp
  qed
  ultimately show ?thesis by blast
qed

theorem mouse_look_axes_witness:
  "\<exists>p'. mouse_move 0 0x010D01EC player0 = Inr p' \<and> target_y p' = target_y player0 \<and>
     (\<exists>k>0. target_x p' = k * target_x player0 \<and> target_z p' = k * target_z player0)"
proof -
  have a: "aim_wf player0" by (simp add: aim_wf_def player0_def)
  obtain p1 where "look (uint (LOWORD (0x010D01EC :: 32 word))) (uint (HIWORD (0x010D01EC :: 32 word))) player0 = Inr p1"
    using look_ok [OF a] by blast
  from mouse_move_look [OF this, of 0]
  have p': "mouse_move 0 0x010D01EC player0 = Inr p1" by (simp add: LOWORD_def)
  have "uint (LOWORD (0x010D01EC :: 32 word)) = 492" "uint (HIWORD (0x010D01EC :: 32 word)) = 269"
    by (simp_all add: LOWORD_def HIWORD_def)
  then show ?thesis using mouse_look_axes [OF a p'] p' by blast
qed

text \<open>
  C19. Firing: when the left button is down and no bullet is in flight, the handler
  launches the player's bullet from half a unit ahead along the new aim, with velocity
  \<open>BULLETSPEED\<close> times the aim, hence at speed \<open>BULLETSPEED\<close>; otherwise it leaves
  the bullet and its flag alone.
\<close>

theorem mouse_move_fire:
  assumes "aim_wf p" "mouse_move wParam lParam p = Inr p'"
  shows "(LOWORD wParam AND MK_LBUTTON \<noteq> 0 \<and> \<not> my_shoot p \<longrightarrow>
            my_shoot p' \<and>
            center_x (my_bullet p') = pos_x p + target_x p' * 0.5 \<and>
            center_y (my_bullet p') = PLAYERHEIGHT + target_y p' * 0.5 \<and>
            center_z (my_bullet p') = pos_z p + target_z p' * 0.5 \<and>
            m_velocity_x (my_bullet p') = target_x p' * BULLETSPEED \<and>
            m_velocity_y (my_bullet p') = target_y p' * BULLETSPEED \<and>
            m_velocity_z (my_bullet p') = target_z p' * BULLETSPEED \<and>
            sqrt ((m_velocity_x (my_bullet p'))\<^sup>2 + (m_velocity_y (my_bullet p'))\<^sup>2
                  + (m_velocity_z (my_bullet p'))\<^sup>2) = BULLETSPEED) \<and>
         (LOWORD wParam AND MK_LBUTTON = 0 \<or> my_shoot p \<longrightarrow>
            my_shoot p' = my_shoot p \<and> my_bullet p' = my_bullet p)"
proof -
  obtain p1 where p1: "look (uint (LOWORD lParam)) (uint (HIWORD lParam)) p = Inr p1" "aim_wf p1"
    "p1 = p\<lparr>target_x := target_x p1, target_y := target_y p1, target_z := target_z p1\<rparr>"
    using look_ok [OF assms(1)] by blast
  have same: "pos_x p1 = pos_x p" "pos_z p1 = pos_z p" "my_shoot p1 = my_shoot p"
    "my_bullet p1 = my_bullet p"
    by (subst p1(3); simp)+
  have p': "p' = (if LOWORD wParam AND MK_LBUTTON \<noteq> 0 then fire p1 else p1)"
    using mouse_move_look [OF p1(1)] assms(2) by simp
  have "sqrt ((target_x p1 * BULLETSPEED)\<^sup>2 + (target_y p1 * BULLETSPEED)\<^sup>2
          + (target_z p1 * BULLETSPEED)\<^sup>2) = BULLETSPEED"
    using aim_speed [OF p1(2), of BULLETSPEED] unfolding BULLETSPEED_def by simp
  then show ?thesis using same by (simp add: p' fire_def)
qed

theorem mouse_move_fire_witness:
  "mouse_move 1 0x010D01EC player0 = Inr (fire player0) \<and> my_shoot (fire player0) \<and>
   center_x (my_bullet (fire player0)) = 0.5 \<and> m_velocity_x (my_bullet (fire player0)) = 400"
proof -
  have look0: "look 492 269 player0 = Inr player0"
    by (simp add: look_def player0_def)
  have "LOWORD 0x010D01EC = (492 :: 16 word)" "HIWORD 0x010D01EC = (269 :: 16 word)"
    by (simp_all add: LOWORD_def HIWORD_def)
  then have mm: "mouse_move 1 0x010D01EC player0 = Inr (fire player0)"
    using look0 by (simp add: mouse_move_def MK_LBUTTON_def LOWORD_def)
  have aim: "aim_wf player0" by (simp add: aim_wf_def player0_def)
  have "LOWORD (1 :: 32 word) AND MK_LBUTTON \<noteq> 0" by (simp add: LOWORD_def MK_LBUTTON_def)
  then have "my_shoot (fire player0) \<and>
    center_x (my_bullet (fire player0)) = pos_x player0 + target_x (fire player0) * 0.5 \<and>
    m_velocity_x (my_bullet (fire player0)) = target_x (fire player0) * BULLETSPEED"
    using mouse_move_fire [OF aim mm] by (simp add: player0_def)
  with mm show ?thesis by (simp add: player0_def BULLETSPEED_def)
qed

text \<open>
  C20. A move is all or nothing: either the player steps by exactly \<open>WALKSPEED\<close>
  onto a passable position, or the player stays put because the destination at
  distance \<open>WALKSPEED\<close> is not passable; nothing else of the state changes.
\<close>

theorem move_exact_step:
  assumes "move m ks p = Inr p'"
  shows "(p' = p\<lparr>pos_x := pos_x p', pos_z := pos_z p'\<rparr> \<and>
          hypot (pos_x p' - pos_x p) (pos_z p' - pos_z p) = WALKSPEED \<and>
          goable m (pos_x p') (pos_z p') = Inr True) \<or>
         (p' = p \<and> (\<exists>dx dz. hypot dx dz = WALKSPEED \<and> goable m (pos_x p + dx) (pos_z p + dz) = Inr False))"
proof -
  consider (nan) u where "move m ks p = Inl u"
    | (step) dx dz where "hypot dx dz = WALKSPEED"
      "case goable m (pos_x p + dx) (pos_z p + dz) of
         Inl u \<Rightarrow> move m ks p = Inl u
       | Inr True \<Rightarrow> move m ks p = Inr (p\<lparr>pos_x := pos_x p + dx, pos_z := pos_z p + dz\<rparr>)
       | Inr False \<Rightarrow> move m ks p = Inr p"
    using move_outcome [of m ks p] by blast
  then show ?thesis
  proof cases
    case nan
    with assms show ?thesis by simp
  next
    case step
    show ?thesis
    proof (cases "goable m (pos_x p + dx) (pos_z p + dz)")
      case (Inl u)
      with step(2) assms show ?thesis by simp
    next
      case (Inr b)
      show ?thesis
      proof (cases b)
        case True
        with Inr step assms have "p' = p\<lparr>pos_x := pos_x p + dx, pos_z := pos_z p + dz\<rparr>" by simp
        with Inr True step(1) show ?thesis by simp
      next
        case False
        with Inr step assms show ?thesis by auto
      qed
    qed
  qed
qed

theorem move_exact_step_witness:
  "move game_map (\<lambda>k. k = 0x57) (player0\<lparr>pos_x := -23, pos_z := -23\<rparr>)
     = Inr (player0\<lparr>pos_x := -22.985, pos_z := -23\<rparr>) \<and>
   hypot (-22.985 - (-23)) (-23 - (-23)) = WALKSPEED"
proof -
  have "hypot (-22.985 - (-23)) (-23 - (-23)) = WALKSPEED"
    using move_exact_step [OF spawn_walk] by (auto simp: player0_def)
  with spawn_walk show ?thesis by blast
qed

text \<open>
  C21. On a well-formed walled map (the shipped one is), a move from a placed position
  never reads the map out of bounds and ends on a placed position: the player can never
  leave the maze or walk into a wall.
\<close>

theorem move_keeps_placed:
  assumes "map_wf m" "walled m" "placed m (pos_x p) (pos_z p)"
  shows "(\<forall>r c. move m ks p \<noteq> Inl (Map_index r c)) \<and>
         (\<forall>p'. move m ks p = Inr p' \<longrightarrow> placed m (pos_x p') (pos_z p'))"
  using move_placed [OF assms, of ks] by auto

theorem move_keeps_placed_witness:
  "(\<forall>r c. move game_map (\<lambda>k. k = 0x57) (player0\<lparr>pos_x := -23, pos_z := -23\<rparr>)
      \<noteq> Inl (Map_index r c)) \<and> placed game_map (-22.985) (-23)"
  using move_keeps_placed [of game_map "player0\<lparr>pos_x := -23, pos_z := -23\<rparr>" "\<lambda>k. k = 0x57"]
    game_map_wf game_map_walled game_spawn_placed spawn_walk by (simp add: player0_def)

text \<open>
  C22. A frame whose movement keys cancel out (none pressed, or both of an opposite
  pair) makes the step \<open>0 * (WALKSPEED / 0)\<close>, a NaN, which \<open>goable\<close> converts
  to \<open>int\<close>: the movement code has undefined behaviour in every frame in which the
  player does not walk.
\<close>

theorem move_without_direction:
  assumes "aim_wf p" "(ks 0x77 \<or> ks 0x57) = (ks 0x73 \<or> ks 0x53)"
    "(ks 0x61 \<or> ks 0x41) = (ks 0x64 \<or> ks 0x44)"
  shows "move m ks p = Inl Nan_to_int"
proof -
  have "hypot (target_x p) (target_z p) \<noteq> 0" using assms(1) by (auto simp: aim_wf_def)
  then show ?thesis using assms(2,3) by (auto simp: move_def move_vector_def Let_def)
qed

theorem move_without_direction_witness:
  "move game_map (\<lambda>k. False) player0 = Inl Nan_to_int"
  by (rule move_without_direction) (simp_all add: aim_wf_def player0_def)

text \<open>
  C29. The direction the movement code sums up key by key equals the specification's
  direction, the forward and right unit vectors weighted by the net key presses; its
  length depends only on the keys (one for a single key, the square root of two for a
  diagonal, zero when the keys cancel).
\<close>

theorem move_vector_eq_move_dir:
  assumes "hypot ax az \<noteq> 0"
  shows "move_vector ks ax az = Inr (move_dir ks ax az) \<and>
         hypot (fst (move_dir ks ax az)) (snd (move_dir ks ax az)) =
           hypot (fst (move_dir ks 1 0)) (snd (move_dir ks 1 0))"
proof -
  have "move_vector ks ax az = Inr (move_dir ks ax az)"
    using assms by (simp add: move_vector_def move_dir_def Let_def algebra_simps del: hypot_eq_0_iff split: if_split)
  moreover have "hypot (fst (move_dir ks ax az)) (snd (move_dir ks ax az)) =
           hypot (fst (move_dir ks 1 0)) (snd (move_dir ks 1 0))"
  proof -
    define f :: double where "f = (if ks 0x77 \<or> ks 0x57 then 1 else 0) - (if ks 0x73 \<or> ks 0x53 then 1 else 0)"
    define l :: double where "l = (if ks 0x61 \<or> ks 0x41 then 1 else 0) - (if ks 0x64 \<or> ks 0x44 then 1 else 0)"
    have u: "(ax / hypot ax az)\<^sup>2 + (az / hypot ax az)\<^sup>2 = 1" by (rule hypot_normalise [OF assms])
    have "(f * (ax / hypot ax az) - l * (az / hypot ax az))\<^sup>2 + (f * (az / hypot ax az) + l * (ax / hypot ax az))\<^sup>2
          = (f\<^sup>2 + l\<^sup>2) * ((ax / hypot ax az)\<^sup>2 + (az / hypot ax az)\<^sup>2)"
      by algebra
    then show ?thesis using u by (simp add: move_dir_def Let_def hypot_def f_def l_def)
  qed
  ultimately show ?thesis by blast
qed

theorem move_vector_eq_move_dir_witness:
  "move_vector (\<lambda>k. k = 0x57) 0.6 0.8 = Inr (move_dir (\<lambda>k. k = 0x57) 0.6 0.8) \<and>
   move_dir (\<lambda>k. k = 0x57) 0.6 0.8 = (0.6, 0.8)"
proof -
  have h: "hypot 0.6 0.8 = 1" by (simp add: hypot_def power2_eq_square)
  then show ?thesis using move_vector_eq_move_dir [of "0.6" "0.8" "\<lambda>k. k = 0x57"]
    by (simp add: move_dir_def Let_def)
qed

end
