(* ===== verification/Frame.thy ===== *)
theory Frame
  imports Level Player
begin

text \<open>
  The game loop (\<open>virtualLego.cpp\<close>): the globals of the level and the player as one
  world record, \<open>Setup\<close> (lines 535--593), the frame-rate detection loop and the
  frame of \<open>Display\<close> (lines 607--705), and the reachable worlds: those \<open>Setup\<close>
  builds, closed under the frames of \<open>Display\<close> and the mouse messages of
  \<open>WndProc\<close>. The lemmas show when the detection loop ends (exactly for positive time
  steps, and then with \<open>FPS = 0\<close> for every step of at least a millisecond), the order
  of a frame (the win test before any movement; the loss on the frame whose hit takes
  the last life), that dead enemies are never touched, and the invariant of every
  reachable world of the shipped map: the aim is a unit vector off the vertical, the
  player stands on a placed position, has one to three lives, every enemy is
  well formed, and no map read goes out of bounds.
\<close>

text \<open>
  The globals (lines 47--55, 522--531, 38). The array lengths stand for
  \<open>wall_num\<close> and \<open>enemy_num\<close>; the map is the constant array \<open>map\<close>, passed
  to the operations as a parameter.
\<close>

record world = player +
  g_legoPlane :: cwall
  g_legoCeiling :: cwall
  g_legoFlag :: cwall
  g_legowalls :: "cwall list"
  g_enemy :: "cenemy list"
  aim_point :: csphere
  FPS :: int

definition world0 :: world where
  "world0 = \<lparr>pos_x = 0, pos_z = 0, target_x = 1, target_y = 0, target_z = 0, my_life = 0,
             my_shoot = False, my_bullet = CSphere M_RADIUS,
             g_legoPlane = CWall, g_legoCeiling = CWall, g_legoFlag = CWall, g_legowalls = [],
             g_enemy = [], aim_point = CSphere 0.001, FPS = 0\<rparr>"

section \<open>Set-up\<close>

text \<open>
  \<open>Setup\<close> (lines 535--593): the level, the enemies, the floor and the ceiling, the
  player's bullet and aim marker, and three lives. Each \<open>create\<close> fails without a
  device; the light, the camera and the render states are rendering and assumed to
  succeed once there is a device.
\<close>

definition Setup :: "bool \<Rightarrow> string list \<Rightarrow> world \<Rightarrow> ub + bool \<times> world" where
  "Setup device m w =
     (case make_map device m \<lparr>lv_walls = g_legowalls w, lv_wall_count = 0, lv_flag = g_legoFlag w,
                               lv_pos_x = pos_x w, lv_pos_z = pos_z w\<rparr> of
        Inl u \<Rightarrow> Inl u
      | Inr (ok, lv) \<Rightarrow>
          (let w = w\<lparr>g_legowalls := lv_walls lv, g_legoFlag := lv_flag lv, pos_x := lv_pos_x lv,
                     pos_z := lv_pos_z lv\<rparr>
           in if \<not> ok then Inr (False, w)
              else
                (case locate_enemy device m of
                   Inl u \<Rightarrow> Inl u
                 | Inr es \<Rightarrow>
                     (let w = w\<lparr>g_enemy := es\<rparr>;
                          (ok, plane) = wall_create device True (-1) (-1) (of_int (WORLD_SIZE * MAP_SIZE))
                                          0.5 (of_int (WORLD_SIZE * MAP_SIZE)) WHITE (g_legoPlane w)
                      in if \<not> ok then Inr (False, w\<lparr>g_legoPlane := plane\<rparr>)
                         else
                           (let w = w\<lparr>g_legoPlane := setPosition 0 0 0 plane\<rparr>;
                                (ok, ceiling_w) = wall_create device True (-1) (-1)
                                                  (of_int (WORLD_SIZE * MAP_SIZE)) 0.5
                                                  (of_int (WORLD_SIZE * MAP_SIZE)) WHITE (g_legoCeiling w)
                            in if \<not> ok then Inr (False, w\<lparr>g_legoCeiling := ceiling_w\<rparr>)
                               else
                                 (let w = w\<lparr>g_legoCeiling := setPosition 0 (of_int WALL_HEIGHT) 0 ceiling_w\<rparr>
                                  in if \<not> device then Inr (False, w)
                                     else Inr (True, w\<lparr>my_bullet := setCenter (pos_x w) (PLAYERHEIGHT * 0.75)
                                                                      (pos_z w) (my_bullet w),
                                                      aim_point := setCenter (pos_x w) (PLAYERHEIGHT * 0.75)
                                                                      (pos_z w) (aim_point w),
                                                      my_life := 3\<rparr>)))))))"

section \<open>The frame\<close>

text \<open>
  The frame-rate detection (lines 612--621), run while \<open>FPS\<close> is zero: the first
  power of ten that brings the time step to at least one decides, and only a leading
  digit of seven sets \<open>FPS\<close>. The loop \<open>for (k = 1; true; k++)\<close> has no bound: it
  is a partial function whose value is \<open>None\<close> when it never ends.
\<close>

partial_function (option) detect_fps :: "double \<Rightarrow> nat \<Rightarrow> int option" where
  "detect_fps timeDelta k =
     (let f = timeDelta * 10 ^ k
      in if 1 \<le> f then Some (if f < 7.01 \<and> f > 6.99 then c_trunc (0.0003 * 10 ^ k) else 0)
         else detect_fps timeDelta (k + 1))"

text \<open>
  The enemy pass (lines 640--646): every living enemy runs \<open>Update\<close>, which may take
  a life or end the game, and then, while the player's bullet flies, \<open>hasHit\<close>, which
  may consume it. The player's position and bullet are read, its life and
  \<open>my_shoot\<close> threaded through the pass.
\<close>

fun enemy_pass ::
  "double \<Rightarrow> cwall list \<Rightarrow> cenemy list \<Rightarrow> 'a player_scheme \<Rightarrow> halt + cenemy list \<times> 'a player_scheme" where
  "enemy_pass dt ws [] p = Inr ([], p)"
| "enemy_pass dt ws (e # es) p =
     (if alive e then
        (case Update dt ws (pos_x p) (pos_z p) (my_life p) e of
           Inl h \<Rightarrow> Inl h
         | Inr (e, ml) \<Rightarrow>
             (let p = p\<lparr>my_life := ml\<rparr>;
                  (e, sh) = (if my_shoot p then hasHit (my_bullet p) (my_shoot p) e else (e, my_shoot p))
              in case enemy_pass dt ws es (p\<lparr>my_shoot := sh\<rparr>) of
                   Inl h \<Rightarrow> Inl h
                 | Inr (es, p) \<Rightarrow> Inr (e # es, p)))
      else
        (case enemy_pass dt ws es p of
           Inl h \<Rightarrow> Inl h
         | Inr (es, p) \<Rightarrow> Inr (e # es, p)))"

text \<open>
  The player's bullet against the floor, the ceiling and the walls (lines 628--639): it
  is consumed by any of them.
\<close>

definition bullet_walls :: "world \<Rightarrow> world" where
  "bullet_walls w =
     (let w = (if hasIntersected (g_legoPlane w) (my_bullet w) then w\<lparr>my_shoot := False\<rparr> else w);
          w = (if hasIntersected (g_legoCeiling w) (my_bullet w) then w\<lparr>my_shoot := False\<rparr> else w)
      in w\<lparr>my_shoot := clear_on_walls (g_legowalls w) (my_bullet w) (my_shoot w)\<rparr>)"

text \<open>
  The end of a frame (lines 649--695): the aim marker, parking and integrating the
  player's bullet, the win test, and the move.
\<close>

definition frame_end :: "string list \<Rightarrow> double \<Rightarrow> keystate \<Rightarrow> world \<Rightarrow> halt + world" where
  "frame_end m timeDelta ks w =
     (let w = w\<lparr>aim_point := setCenter (pos_x w + target_x w * 0.125) (PLAYERHEIGHT + target_y w * 0.125)
                              (pos_z w + target_z w * 0.125) (aim_point w)\<rparr>;
          w = (if \<not> my_shoot w
               then w\<lparr>my_bullet := park (pos_x w) (PLAYERHEIGHT * 0.75) (pos_z w) (my_bullet w)\<rparr>
               else w);
          w = w\<lparr>my_bullet := ballUpdate timeDelta (my_bullet w)\<rparr>
      in case win m (pos_x w) (pos_z w) of
           Inl u \<Rightarrow> Inl (Fault u)
         | Inr True \<Rightarrow> Inl Win
         | Inr False \<Rightarrow>
             (case move m ks w of
                Inl u \<Rightarrow> Inl (Fault u)
              | Inr w \<Rightarrow> Inr w))"

text \<open>
  One frame with a device and a detected frame rate (lines 623--700): the bullet against
  the static boxes, the enemy pass, the end of the frame.
\<close>

definition frame :: "string list \<Rightarrow> double \<Rightarrow> keystate \<Rightarrow> world \<Rightarrow> halt + world" where
  "frame m timeDelta ks w =
     (let w = bullet_walls w
      in case enemy_pass timeDelta (g_legowalls w) (g_enemy w) w of
           Inl h \<Rightarrow> Inl h
         | Inr (es, w) \<Rightarrow> frame_end m timeDelta ks (w\<lparr>g_enemy := es\<rparr>))"

text \<open>
  \<open>Display\<close> (lines 607--705): detect the frame rate first, then run frames. Its value
  is \<open>None\<close> when the detection loop does not end.
\<close>

definition Display :: "string list \<Rightarrow> double \<Rightarrow> keystate \<Rightarrow> world \<Rightarrow> (halt + world) option" where
  "Display m timeDelta ks w =
     (if FPS w = 0 then
        (if timeDelta \<noteq> 0 then map_option (\<lambda>n. Inr (w\<lparr>FPS := n\<rparr>)) (detect_fps timeDelta 1)
         else Some (Inr w))
      else Some (frame m timeDelta ks w))"

section \<open>Reachable worlds\<close>

text \<open>
  The worlds of a running game on map \<open>m\<close>: the world \<open>Setup\<close> builds from the
  initial globals with a device, and every world a frame of \<open>Display\<close> or a mouse
  message leads to without ending the game.
\<close>

inductive reach :: "string list \<Rightarrow> world \<Rightarrow> bool" for m where
  init: "Setup True m world0 = Inr (True, w) \<Longrightarrow> reach m w"
| tick: "reach m w \<Longrightarrow> Display m dt ks w = Some (Inr w') \<Longrightarrow> reach m w'"
| mouse: "reach m w \<Longrightarrow> mouse_move wParam lParam w = Inr w' \<Longrightarrow> reach m w'"

text \<open>
  The number of living enemies whose bullet is on the player at the start of the
  enemy pass: each of them takes one life in this frame.
\<close>

definition hits :: "double \<Rightarrow> double \<Rightarrow> cenemy list \<Rightarrow> int" where
  "hits px pz es = int (length (filter (\<lambda>e. alive e \<and> bullet_hits_player px pz (bullet e)) es))"

text \<open>
  The type invariant of the spheres of a world: each keeps the radius it was constructed
  with (\<open>M_RADIUS\<close> for the bullets, \<open>0.001\<close> for the aim marker).
\<close>

definition sphere_radii :: "world \<Rightarrow> bool" where
  "sphere_radii w \<longleftrightarrow> m_radius (my_bullet w) = M_RADIUS \<and> m_radius (aim_point w) = 0.001 \<and>
     list_all (\<lambda>e. m_radius (bullet e) = M_RADIUS) (g_enemy w)"

text \<open>The invariant of a running game.\<close>

definition world_inv :: "string list \<Rightarrow> world \<Rightarrow> bool" where
  "world_inv m w \<longleftrightarrow> aim_wf w \<and> placed m (pos_x w) (pos_z w) \<and> 0 < my_life w \<and> my_life w \<le> 3 \<and>
     list_all enemy_inv (g_enemy w) \<and> sphere_radii w"

text \<open>
  Two worlds of the shipped map used by the witnesses: the player on the flag tile, and
  the player at the spawn point, each with three lives and no enemies.
\<close>

definition wflag :: world where "wflag = world0\<lparr>pos_x := -23, pos_z := 23, my_life := 3\<rparr>"

definition wspawn :: world where "wspawn = world0\<lparr>pos_x := -23, pos_z := -23, my_life := 3\<rparr>"

section \<open>Lemmas on the frame-rate detection\<close>

text \<open>
  The loop returns only for a positive time step (partial correctness by the fixpoint
  induction of \<open>detect_fps\<close>), and for a positive step it returns once the power of
  ten is large enough (induction on the distance to that power).
\<close>

lemma pow10_pos_scale: "1 \<le> t * 10 ^ k \<Longrightarrow> 0 < (t :: double)"
proof (rule ccontr)
  assume "1 \<le> t * 10 ^ k" "\<not> 0 < t"
  moreover have "t * 10 ^ k \<le> 0" using \<open>\<not> 0 < t\<close> by (simp add: mult_nonpos_nonneg)
  ultimately show False by simp
qed

lemma detect_fps_Some_pos:
  assumes "detect_fps t k = Some n"
  shows "0 < t"
proof (rule detect_fps.raw_induct [OF _ assms])
  fix f :: "double \<Rightarrow> nat \<Rightarrow> int option" and t k y
  assume IH: "\<And>t k y. f t k = Some y \<Longrightarrow> 0 < t"
    and step: "(let fr = t * 10 ^ k
                in if 1 \<le> fr then Some (if fr < 7.01 \<and> fr > 6.99 then c_trunc (0.0003 * 10 ^ k) else 0)
                   else f t (k + 1)) = Some y"
  show "0 < t"
  proof (cases "1 \<le> t * 10 ^ k")
    case True
    then show ?thesis by (rule pow10_pos_scale)
  next
    case False
    then show ?thesis using step IH by (simp add: Let_def)
  qed
qed

lemma detect_fps_ends:
  assumes "0 < t" "1 \<le> t * 10 ^ N"
  shows "\<exists>n. detect_fps t k = Some n"
  using assms(2)
proof (induction "N - k" arbitrary: k)
  case 0
  then have "k \<ge> N" by simp
  then have "t * 10 ^ N \<le> t * 10 ^ k" using assms(1) by (simp add: power_increasing)
  with 0 show ?case by (subst detect_fps.simps) (simp add: Let_def)
next
  case (Suc d)
  show ?case
  proof (cases "1 \<le> t * 10 ^ k")
    case True
    then show ?thesis by (subst detect_fps.simps) (simp add: Let_def)
  next
    case False
    have "d = N - Suc k" using Suc(2) by simp
    from Suc(1) [OF this Suc(3)] False show ?thesis
      by (subst detect_fps.simps) (simp add: Let_def)
  qed
qed

lemma detect_fps_ms: "0.001 \<le> t \<Longrightarrow> detect_fps t 1 = Some 0"
proof -
  assume t: "0.001 \<le> t"
  have 3: "detect_fps t 3 = Some 0" using t by (subst detect_fps.simps) (simp add: c_trunc_def Let_def)
  have 2: "detect_fps t 2 = Some 0"
    using 3 by (subst detect_fps.simps) (simp add: c_trunc_def Let_def numeral_3_eq_3)
  show "detect_fps t 1 = Some 0"
    using 2 by (subst detect_fps.simps) (simp add: c_trunc_def Let_def numeral_2_eq_2)
qed


section \<open>Lemmas on the enemy pass and the frame\<close>

lemma enemy_pass_frame:
  "enemy_pass dt ws es p = Inr (es', p') \<Longrightarrow>
   p' = p\<lparr>my_life := my_life p', my_shoot := my_shoot p'\<rparr> \<and> length es' = length es"
proof (induction es arbitrary: p es' p')
  case Nil
  then show ?case by simp
next
  case (Cons e es)
  then show ?case by (fastforce simp: Let_def split: if_splits sum.splits prod.splits)
qed

lemma enemy_pass_Cons_alive:
  assumes "alive e" "Update dt ws (pos_x p) (pos_z p) (my_life p) e = Inr (e1, ml)"
    "(if my_shoot p then hasHit (my_bullet p) (my_shoot p) e1 else (e1, my_shoot p)) = (e2, sh)"
  shows "enemy_pass dt ws (e # es) p =
           (case enemy_pass dt ws es (p\<lparr>my_life := ml, my_shoot := sh\<rparr>) of
              Inl h \<Rightarrow> Inl h
            | Inr (es, p) \<Rightarrow> Inr (e2 # es, p))"
proof (cases "my_shoot p")
  case True
  with assms(3) have "hasHit (my_bullet p) True e1 = (e2, sh)" by simp
  with True assms(1,2) show ?thesis by (simp add: Let_def)
next
  case False
  with assms(3) have e: "e2 = e1" "sh = False" by simp_all
  show ?thesis unfolding e using False assms(1,2) by (simp add: Let_def)
qed

lemma enemy_pass_Cons_dead:
  "\<not> alive e \<Longrightarrow> enemy_pass dt ws (e # es) p =
     (case enemy_pass dt ws es p of Inl h \<Rightarrow> Inl h | Inr (es, p) \<Rightarrow> Inr (e # es, p))"
  by simp

lemma Update_radius:
  "Update dt ws px pz ml e = Inr (e', ml') \<Longrightarrow> m_radius (bullet e') = m_radius (bullet e)"
  by (auto simp: Update_unfold split: if_splits sum.splits)

lemma hasHit_bullet: "bullet (fst (hasHit b s e)) = bullet e"
  by (simp add: hasHit_def Let_def)

lemma enemy_pass_enemies:
  "enemy_pass dt ws es p = Inr (es', p') \<Longrightarrow>
   list_all2 (\<lambda>e e'. (\<not> alive e \<longrightarrow> e' = e) \<and> (alive e' \<longrightarrow> alive e) \<and> (enemy_inv e \<longrightarrow> enemy_inv e') \<and>
                     m_radius (bullet e') = m_radius (bullet e))
     es es'"
proof (induction es arbitrary: p es' p')
  case Nil
  then show ?case by simp
next
  case (Cons e es)
  show ?case
  proof (cases "alive e")
    case True
    then obtain e1 ml where u: "Update dt ws (pos_x p) (pos_z p) (my_life p) e = Inr (e1, ml)"
      using Cons.prems by (auto split: sum.splits)
    have inv: "enemy_inv e \<Longrightarrow> enemy_inv e1" using Update_enemy_inv [OF u] .
    obtain e2 sh where h: "(if my_shoot p then hasHit (my_bullet p) (my_shoot p) e1 else (e1, my_shoot p)) = (e2, sh)"
      by (cases "if my_shoot p then hasHit (my_bullet p) (my_shoot p) e1 else (e1, my_shoot p)")
    have inv2: "enemy_inv e \<Longrightarrow> enemy_inv e2"
      using h inv hasHit_enemy_inv by (auto split: if_splits) (metis fst_conv)
    have "m_radius (bullet e1) = m_radius (bullet e)" using Update_radius [OF u] .
    moreover have "bullet e2 = bullet e1" using h by (auto simp: hasHit_bullet split: if_splits) (metis fst_conv hasHit_bullet)
    ultimately have rad: "m_radius (bullet e2) = m_radius (bullet e)" by simp
    obtain es'' where r: "enemy_pass dt ws es (p\<lparr>my_life := ml, my_shoot := sh\<rparr>) = Inr (es'', p')"
      "es' = e2 # es''"
      using Cons.prems enemy_pass_Cons_alive [OF True u h] by (auto split: sum.splits)
    show ?thesis using Cons.IH [OF r(1)] r(2) True inv2 rad by simp
  next
    case False
    then obtain es'' where r: "enemy_pass dt ws es p = Inr (es'', p')" "es' = e # es''"
      using Cons.prems enemy_pass_Cons_dead [OF False] by (auto split: sum.splits)
    show ?thesis using Cons.IH [OF r(1)] r(2) False by simp
  qed
qed


lemma hits_Cons:
  "hits px pz (e # es) = (if alive e \<and> bullet_hits_player px pz (bullet e) then 1 else 0) + hits px pz es"
  by (simp add: hits_def)

lemma enemy_pass_life:
  "enemy_pass dt ws es p = Inr (es', p') \<Longrightarrow>
   my_life p' = my_life p - hits (pos_x p) (pos_z p) es \<and> (0 < my_life p \<longrightarrow> 0 < my_life p')"
proof (induction es arbitrary: p es' p')
  case Nil
  then show ?case by (simp add: hits_def)
next
  case (Cons e es)
  show ?case
  proof (cases "alive e")
    case True
    then obtain e1 ml where u: "Update dt ws (pos_x p) (pos_z p) (my_life p) e = Inr (e1, ml)"
      using Cons.prems by (auto split: sum.splits)
    obtain e2 sh where h: "(if my_shoot p then hasHit (my_bullet p) (my_shoot p) e1 else (e1, my_shoot p)) = (e2, sh)"
      by (cases "if my_shoot p then hasHit (my_bullet p) (my_shoot p) e1 else (e1, my_shoot p)")
    obtain es'' where r: "enemy_pass dt ws es (p\<lparr>my_life := ml, my_shoot := sh\<rparr>) = Inr (es'', p')"
      using Cons.prems enemy_pass_Cons_alive [OF True u h] by (auto split: sum.splits)
    show ?thesis using Cons.IH [OF r] Update_life_count [OF u] True by (auto simp: hits_Cons)
  next
    case False
    then obtain es'' where r: "enemy_pass dt ws es p = Inr (es'', p')"
      using Cons.prems by (auto split: sum.splits)
    show ?thesis using Cons.IH [OF r] False by (auto simp: hits_Cons)
  qed
qed

lemma enemy_pass_lose:
  "enemy_pass dt ws es p = Inl Lose \<Longrightarrow> my_life p \<le> hits (pos_x p) (pos_z p) es"
proof (induction es arbitrary: p)
  case Nil
  then show ?case by simp
next
  case (Cons e es)
  show ?case
  proof (cases "alive e")
    case True
    show ?thesis
    proof (cases "Update dt ws (pos_x p) (pos_z p) (my_life p) e")
      case (Inl h)
      then have "h = Lose" using Cons.prems True by simp
      then show ?thesis using Inl Update_Lose_iff True
        by (auto simp: hits_Cons hits_def)
    next
      case (Inr r)
      then obtain e1 ml where u: "Update dt ws (pos_x p) (pos_z p) (my_life p) e = Inr (e1, ml)"
        by (cases r) auto
      obtain e2 sh where h: "(if my_shoot p then hasHit (my_bullet p) (my_shoot p) e1 else (e1, my_shoot p)) = (e2, sh)"
        by (cases "if my_shoot p then hasHit (my_bullet p) (my_shoot p) e1 else (e1, my_shoot p)")
      have "enemy_pass dt ws es (p\<lparr>my_life := ml, my_shoot := sh\<rparr>) = Inl Lose"
        using Cons.prems enemy_pass_Cons_alive [OF True u h] by (auto split: sum.splits)
      from Cons.IH [OF this] show ?thesis using Update_life_count [OF u] True
        by (auto simp: hits_Cons)
    qed
  next
    case False
    then have "enemy_pass dt ws es p = Inl Lose" using Cons.prems by (auto split: sum.splits)
    from Cons.IH [OF this] show ?thesis using False by (simp add: hits_Cons)
  qed
qed

lemma enemy_pass_halt:
  "enemy_pass dt ws es p = Inl h \<Longrightarrow> h = Lose \<or> h = Fault Nan_value"
proof (induction es arbitrary: p)
  case Nil
  then show ?case by simp
next
  case (Cons e es)
  show ?case
  proof (cases "alive e \<and> (\<exists>h'. Update dt ws (pos_x p) (pos_z p) (my_life p) e = Inl h')")
    case True
    then obtain h' where "Update dt ws (pos_x p) (pos_z p) (my_life p) e = Inl h'" by blast
    moreover have "h' = Lose \<or> h' = Fault Nan_value"
      using calculation Update_no_Win Update_Fault_iff by (cases h') auto
    ultimately show ?thesis using Cons.prems True by simp
  next
    case False
    then show ?thesis using Cons.prems Cons.IH
      by (auto simp: Let_def split: if_splits sum.splits prod.splits)
  qed
qed


lemma bullet_walls_shoot: "bullet_walls w = w\<lparr>my_shoot := my_shoot (bullet_walls w)\<rparr>"
  by (simp add: bullet_walls_def Let_def)

lemma frame_unfold:
  "frame m dt ks w =
     (case enemy_pass dt (g_legowalls w) (g_enemy w) (w\<lparr>my_shoot := my_shoot (bullet_walls w)\<rparr>) of
        Inl h \<Rightarrow> Inl h
      | Inr (es, w2) \<Rightarrow> frame_end m dt ks (w2\<lparr>g_enemy := es\<rparr>))"
proof -
  have "g_legowalls (bullet_walls w) = g_legowalls w" "g_enemy (bullet_walls w) = g_enemy w"
    by (subst bullet_walls_shoot; simp)+
  then show ?thesis unfolding frame_def Let_def by (subst (3) bullet_walls_shoot) simp
qed

text \<open>
  The end of a frame decides the win on the player's position as the enemy pass left
  it, and then moves the player with only the aim marker and the bullet changed.
\<close>

lemma frame_end_split:
  "\<exists>a b. m_radius a = m_radius (aim_point w) \<and> m_radius b = m_radius (my_bullet w) \<and> frame_end m dt ks w =
     (case win m (pos_x w) (pos_z w) of
        Inl u \<Rightarrow> Inl (Fault u)
      | Inr True \<Rightarrow> Inl Win
      | Inr False \<Rightarrow> (case move m ks (w\<lparr>aim_point := a, my_bullet := b\<rparr>) of Inl u \<Rightarrow> Inl (Fault u) | Inr w \<Rightarrow> Inr w))"
proof -
  define a where "a = setCenter (pos_x w + target_x w * 0.125) (PLAYERHEIGHT + target_y w * 0.125)
                         (pos_z w + target_z w * 0.125) (aim_point w)"
  define b where "b = ballUpdate dt (if \<not> my_shoot w
                                      then park (pos_x w) (PLAYERHEIGHT * 0.75) (pos_z w) (my_bullet w)
                                      else my_bullet w)"
  have "frame_end m dt ks w =
    (case win m (pos_x w) (pos_z w) of
       Inl u \<Rightarrow> Inl (Fault u)
     | Inr True \<Rightarrow> Inl Win
     | Inr False \<Rightarrow> (case move m ks (w\<lparr>aim_point := a, my_bullet := b\<rparr>) of Inl u \<Rightarrow> Inl (Fault u) | Inr w \<Rightarrow> Inr w))"
    by (cases "my_shoot w") (simp_all add: frame_end_def Let_def a_def b_def split: sum.split bool.split)
  moreover have "m_radius a = m_radius (aim_point w)" "m_radius b = m_radius (my_bullet w)"
    by (simp_all add: a_def b_def)
  ultimately show ?thesis by blast
qed

lemma frame_end_cases:
  assumes "frame_end m dt ks w = r"
  shows "(r = Inl Win \<longleftrightarrow> win m (pos_x w) (pos_z w) = Inr True) \<and> r \<noteq> Inl Lose \<and>
         (\<forall>w'. r = Inr w' \<longrightarrow> win m (pos_x w) (pos_z w) = Inr False \<and>
            (\<exists>a b. move m ks (w\<lparr>aim_point := a, my_bullet := b\<rparr>) = Inr w')) \<and>
         (\<forall>u. r = Inl (Fault u) \<longrightarrow> win m (pos_x w) (pos_z w) = Inl u \<or>
            (win m (pos_x w) (pos_z w) = Inr False \<and> (\<exists>a b. move m ks (w\<lparr>aim_point := a, my_bullet := b\<rparr>) = Inl u)))"
proof -
  obtain a b where ab: "frame_end m dt ks w =
    (case win m (pos_x w) (pos_z w) of
       Inl u \<Rightarrow> Inl (Fault u)
     | Inr True \<Rightarrow> Inl Win
     | Inr False \<Rightarrow> (case move m ks (w\<lparr>aim_point := a, my_bullet := b\<rparr>) of Inl u \<Rightarrow> Inl (Fault u) | Inr w \<Rightarrow> Inr w))"
    using frame_end_split by blast
  show ?thesis using assms unfolding ab by (auto split: sum.splits bool.splits)
qed

lemma enemy_pass_keeps:
  assumes "enemy_pass dt ws es p = Inr (es', p')"
  shows "pos_x p' = pos_x p" "pos_z p' = pos_z p" "target_x p' = target_x p" "target_y p' = target_y p"
    "target_z p' = target_z p" "player.more p' = player.more p"
  by (subst enemy_pass_frame [OF assms, THEN conjunct1]; simp)+

lemma frame_Inr:
  assumes "frame m dt ks w = Inr w'"
  obtains es w2 a b where
    "enemy_pass dt (g_legowalls w) (g_enemy w) (w\<lparr>my_shoot := my_shoot (bullet_walls w)\<rparr>) = Inr (es, w2)"
    "win m (pos_x w) (pos_z w) = Inr False"
    "move m ks (w2\<lparr>g_enemy := es, aim_point := a, my_bullet := b\<rparr>) = Inr w'"
    "m_radius a = m_radius (aim_point w)" "m_radius b = m_radius (my_bullet w)"
proof (cases "enemy_pass dt (g_legowalls w) (g_enemy w) (w\<lparr>my_shoot := my_shoot (bullet_walls w)\<rparr>)")
  case (Inl h)
  then show ?thesis using assms by (simp add: frame_unfold)
next
  case (Inr r)
  then obtain es w2 where r: "enemy_pass dt (g_legowalls w) (g_enemy w) (w\<lparr>my_shoot := my_shoot (bullet_walls w)\<rparr>) = Inr (es, w2)"
    by (cases r) auto
  then have fe: "frame_end m dt ks (w2\<lparr>g_enemy := es\<rparr>) = Inr w'" using assms by (simp add: frame_unfold)
  have k: "pos_x w2 = pos_x w" "pos_z w2 = pos_z w" "aim_point w2 = aim_point w" "my_bullet w2 = my_bullet w"
    by (subst enemy_pass_frame [OF r, THEN conjunct1]; simp)+
  obtain a b where ab: "m_radius a = m_radius (aim_point w)" "m_radius b = m_radius (my_bullet w)"
    "frame_end m dt ks (w2\<lparr>g_enemy := es\<rparr>) =
     (case win m (pos_x w) (pos_z w) of
        Inl u \<Rightarrow> Inl (Fault u)
      | Inr True \<Rightarrow> Inl Win
      | Inr False \<Rightarrow> (case move m ks (w2\<lparr>g_enemy := es, aim_point := a, my_bullet := b\<rparr>) of
                       Inl u \<Rightarrow> Inl (Fault u) | Inr w \<Rightarrow> Inr w))"
    using frame_end_split [where m=m and dt=dt and ks=ks and w="w2\<lparr>g_enemy := es\<rparr>"] k by auto
  have "win m (pos_x w) (pos_z w) = Inr False \<and>
        move m ks (w2\<lparr>g_enemy := es, aim_point := a, my_bullet := b\<rparr>) = Inr w'"
    using fe unfolding ab(3) by (auto split: sum.splits bool.splits)
  with r ab(1,2) that show ?thesis by blast
qed


section \<open>Invariant of the running game\<close>

lemma placed_win: "map_wf m \<Longrightarrow> placed m x z \<Longrightarrow> \<exists>b. win m x z = Inr b"
proof -
  assume wf: "map_wf m" and pl: "placed m x z"
  have "\<forall>(r, c) \<in> set (probe_cells x z). map_at m r c \<noteq> None"
    using pl wf by (auto simp: placed_def list_all_iff inner_cell_def map_at_None_iff MAP_SIZE_def)
  then show ?thesis using probe_any_defined by (simp add: win_def corner_test_probe_any)
qed

lemma frame_inv:
  assumes "map_wf m" "walled m" "world_inv m w" "frame m dt ks w = Inr w'"
  shows "world_inv m w'"
proof -
  obtain es w2 a b where
    ep: "enemy_pass dt (g_legowalls w) (g_enemy w) (w\<lparr>my_shoot := my_shoot (bullet_walls w)\<rparr>) = Inr (es, w2)"
    and mv: "move m ks (w2\<lparr>g_enemy := es, aim_point := a, my_bullet := b\<rparr>) = Inr w'"
    and ra: "m_radius a = m_radius (aim_point w)" and rb: "m_radius b = m_radius (my_bullet w)"
    using frame_Inr [OF assms(4)] by metis
  have k: "pos_x w2 = pos_x w" "pos_z w2 = pos_z w" "target_x w2 = target_x w" "target_y w2 = target_y w"
    "target_z w2 = target_z w"
    using enemy_pass_keeps [OF ep] by simp_all
  have life: "my_life w2 = my_life w - hits (pos_x w) (pos_z w) (g_enemy w)" "0 < my_life w2"
    using enemy_pass_life [OF ep] assms(3) by (simp_all add: world_inv_def)
  have "0 \<le> hits (pos_x w) (pos_z w) (g_enemy w)" by (simp add: hits_def)
  with life assms(3) have life3: "my_life w2 \<le> 3" by (simp add: world_inv_def)
  have en: "list_all enemy_inv es"
    using list_all2_all [OF enemy_pass_enemies [OF ep], of enemy_inv] assms(3) by (auto simp: world_inv_def)
  have pl: "placed m (pos_x w') (pos_z w')"
    using move_placed [OF assms(1,2), of "w2\<lparr>g_enemy := es, aim_point := a, my_bullet := b\<rparr>" ks]
      mv assms(3) k by (auto simp: world_inv_def)
  have rad: "list_all (\<lambda>e. m_radius (bullet e) = M_RADIUS) es"
    using list_all2_all [OF enemy_pass_enemies [OF ep], of "\<lambda>e. m_radius (bullet e) = M_RADIUS"] assms(3)
    by (auto simp: world_inv_def sphere_radii_def)
  have w': "g_enemy w' = es" "my_life w' = my_life w2" "target_x w' = target_x w" "target_y w' = target_y w"
    "target_z w' = target_z w" "aim_point w' = a" "my_bullet w' = b"
    by (subst move_frame [OF mv]; simp add: k)+
  show ?thesis using assms(3) pl en life life3 w' rad ra rb
    by (simp add: world_inv_def aim_wf_def sphere_radii_def)
qed

lemma display_inv:
  assumes "map_wf m" "walled m" "world_inv m w" "Display m dt ks w = Some (Inr w')"
  shows "world_inv m w'"
proof (cases "FPS w = 0")
  case True
  then have "w' = w \<or> (\<exists>n. w' = w\<lparr>FPS := n\<rparr>)" using assms(4)
    by (auto simp: Display_def split: if_splits)
  then show ?thesis using assms(3) by (auto simp: world_inv_def aim_wf_def placed_def sphere_radii_def)
next
  case False
  then show ?thesis using frame_inv [OF assms(1-3)] assms(4) by (simp add: Display_def)
qed

lemma mouse_inv:
  assumes "world_inv m w" "mouse_move wParam lParam w = Inr w'"
  shows "world_inv m w'"
proof -
  have aim: "aim_wf w" using assms(1) by (simp add: world_inv_def)
  obtain p1 where p1: "look (uint (LOWORD lParam)) (uint (HIWORD lParam)) w = Inr p1" "aim_wf p1"
    "p1 = w\<lparr>target_x := target_x p1, target_y := target_y p1, target_z := target_z p1\<rparr>"
    using look_ok [OF aim] by blast
  have same: "pos_x p1 = pos_x w" "pos_z p1 = pos_z w" "my_life p1 = my_life w" "g_enemy p1 = g_enemy w"
    "aim_point p1 = aim_point w" "my_bullet p1 = my_bullet w"
    by (subst p1(3); simp)+
  have "w' = (if LOWORD wParam AND MK_LBUTTON \<noteq> 0 then fire p1 else p1)"
    using mouse_move_look [OF p1(1)] assms(2) by simp
  moreover have "g_enemy (fire p1) = g_enemy p1" "aim_point (fire p1) = aim_point p1"
    "m_radius (my_bullet (fire p1)) = m_radius (my_bullet p1)"
    by (simp_all add: fire_def)
  ultimately show ?thesis using assms(1) p1(2) same by (simp add: world_inv_def sphere_radii_def)
qed

lemma mouse_ok: "world_inv m w \<Longrightarrow> \<exists>w'. mouse_move wParam lParam w = Inr w'"
  using look_ok mouse_move_look unfolding world_inv_def by metis

lemma setup_game:
  "\<exists>w. Setup True game_map world0 = Inr (True, w) \<and> world_inv game_map w \<and>
       length (g_legowalls w) = length (cells_of (CHR ''1'') game_map)"
proof -
  let ?lv = "\<lparr>lv_walls = g_legowalls world0, lv_wall_count = 0, lv_flag = g_legoFlag world0,
              lv_pos_x = pos_x world0, lv_pos_z = pos_z world0\<rparr>"
  obtain lv' where mm: "make_map True game_map ?lv = Inr (True, lv')"
    and walls: "lv_walls lv' = rev (map wall_box (cells_of (CHR ''1'') game_map))"
    using make_map_ok [OF game_map_wf, of ?lv] by blast
  have "(lv_pos_x lv', lv_pos_z lv') = spawn_fold game_map cells (lv_pos_x ?lv, lv_pos_z ?lv)"
    using mm fill_map_pos by (auto simp: make_map_def split: sum.splits)
  also have "\<dots> = (-23, -23)"
    using game_map_spawn_cell [unfolded cells_of_def]
    by (simp add: spawn_fold_last cell_xz_eval MAP_SIZE_def)
  finally have pos: "lv_pos_x lv' = -23" "lv_pos_z lv' = -23" by simp_all
  have le: "locate_enemy True game_map = Inr (rev (map (enemy_at True) (cells_of (CHR ''e'') game_map)))"
    by (rule locate_enemy_eq [OF game_map_wf])
  have en: "list_all enemy_inv (rev (map (enemy_at True) (cells_of (CHR ''e'') game_map)))"
    by (simp add: list_all_iff enemy_inv_def enemy_at_fields)
  have rad: "list_all (\<lambda>e. m_radius (bullet e) = M_RADIUS) (rev (map (enemy_at True) (cells_of (CHR ''e'') game_map)))"
    by (simp add: list_all_iff enemy_at_def CEnemy_def Let_def CSphere_def)
  show ?thesis using mm le pos en rad game_spawn_placed walls
    by (simp add: Setup_def Let_def wall_create_def world_inv_def aim_wf_def world0_def sphere_radii_def
        CSphere_def)
qed

lemma reach_world_inv: "reach game_map w \<Longrightarrow> world_inv game_map w"
proof (induction rule: reach.induct)
  case (init w)
  then show ?case using setup_game by auto
next
  case (tick w dt ks w')
  then show ?case using display_inv [OF game_map_wf game_map_walled] by blast
next
  case (mouse w wParam lParam w')
  then show ?case using mouse_inv by blast
qed

lemma frame_walls: "frame m dt ks w = Inr w' \<Longrightarrow> g_legowalls w' = g_legowalls w"
proof -
  assume f: "frame m dt ks w = Inr w'"
  obtain es w2 a b where
    ep: "enemy_pass dt (g_legowalls w) (g_enemy w) (w\<lparr>my_shoot := my_shoot (bullet_walls w)\<rparr>) = Inr (es, w2)"
    and mv: "move m ks (w2\<lparr>g_enemy := es, aim_point := a, my_bullet := b\<rparr>) = Inr w'"
    using frame_Inr [OF f] by metis
  have "g_legowalls w2 = g_legowalls w" by (subst enemy_pass_frame [OF ep, THEN conjunct1]) simp
  moreover have "g_legowalls w' = g_legowalls w2" by (subst move_frame [OF mv]) simp
  ultimately show ?thesis by simp
qed

lemma Display_walls: "Display m dt ks w = Some (Inr w') \<Longrightarrow> g_legowalls w' = g_legowalls w"
  by (auto simp: Display_def frame_walls split: if_splits)

lemma mouse_walls: "mouse_move wParam lParam w = Inr w' \<Longrightarrow> g_legowalls w' = g_legowalls w"
  by (auto simp: mouse_move_def look_def fire_def Let_def split: sum.splits if_splits)

lemma reach_walls: "reach game_map w \<Longrightarrow> length (g_legowalls w) = length (cells_of (CHR ''1'') game_map)"
proof (induction rule: reach.induct)
  case (init w)
  then show ?case using setup_game by auto
next
  case (tick w dt ks w')
  then show ?case using Display_walls by metis
next
  case (mouse w wParam lParam w')
  then show ?case using mouse_walls by metis
qed

lemma display_no_map_fault:
  assumes "map_wf m" "walled m" "world_inv m w"
  shows "Display m dt ks w \<noteq> Some (Inl (Fault (Map_index r c)))"
proof (cases "FPS w = 0")
  case True
  then show ?thesis by (auto simp: Display_def)
next
  case False
  then have d: "Display m dt ks w = Some (frame m dt ks w)" by (simp add: Display_def)
  show ?thesis
  proof (cases "enemy_pass dt (g_legowalls w) (g_enemy w) (w\<lparr>my_shoot := my_shoot (bullet_walls w)\<rparr>)")
    case (Inl h)
    then show ?thesis using enemy_pass_halt [OF Inl] d by (auto simp: frame_unfold)
  next
    case (Inr x)
    then obtain es w2 where ep:
      "enemy_pass dt (g_legowalls w) (g_enemy w) (w\<lparr>my_shoot := my_shoot (bullet_walls w)\<rparr>) = Inr (es, w2)"
      by (cases x) auto
    let ?w3 = "w2\<lparr>g_enemy := es\<rparr>"
    have pos: "pos_x ?w3 = pos_x w" "pos_z ?w3 = pos_z w" using enemy_pass_keeps [OF ep] by simp_all
    have pl: "placed m (pos_x w) (pos_z w)" using assms(3) by (simp add: world_inv_def)
    obtain bw where bw: "win m (pos_x w) (pos_z w) = Inr bw" using placed_win [OF assms(1) pl] by blast
    have "frame_end m dt ks ?w3 \<noteq> Inl (Fault (Map_index r c))"
    proof
      assume f: "frame_end m dt ks ?w3 = Inl (Fault (Map_index r c))"
      then obtain a b where mv: "move m ks (?w3\<lparr>aim_point := a, my_bullet := b\<rparr>) = Inl (Map_index r c)"
        using frame_end_cases [OF f] bw pos by auto
      have "placed m (pos_x (?w3\<lparr>aim_point := a, my_bullet := b\<rparr>)) (pos_z (?w3\<lparr>aim_point := a, my_bullet := b\<rparr>))"
        using pl pos by simp
      from move_placed [OF assms(1,2) this, of ks] mv show False by auto
    qed
    then show ?thesis using d ep by (simp add: frame_unfold)
  qed
qed


lemma frame_wspawn_dead:
  "\<exists>w'. frame game_map dt (\<lambda>k. k = 0x57) (wspawn\<lparr>g_enemy := [dead]\<rparr>) = Inr w'"
  if "\<not> alive dead" for dead
proof -
  let ?w1 = "(wspawn\<lparr>g_enemy := [dead]\<rparr>)\<lparr>my_shoot := my_shoot (bullet_walls (wspawn\<lparr>g_enemy := [dead]\<rparr>))\<rparr>"
  have ep: "enemy_pass dt (g_legowalls (wspawn\<lparr>g_enemy := [dead]\<rparr>)) [dead] ?w1 = Inr ([dead], ?w1)"
    using that by simp
  have w: "win game_map (-23) (-23) = Inr False"
    by (simp add: win_def corner_test_def tile_row_def tile_col_def macro_defs c_trunc_def map_at_def
        arr_read_def game_map_def)
  have p: "pos_x (?w1\<lparr>g_enemy := [dead]\<rparr>) = -23" "pos_z (?w1\<lparr>g_enemy := [dead]\<rparr>) = -23"
    by (simp_all add: wspawn_def world0_def)
  obtain a b where "frame_end game_map dt (\<lambda>k. k = 0x57) (?w1\<lparr>g_enemy := [dead]\<rparr>) =
     (case move game_map (\<lambda>k. k = 0x57) (?w1\<lparr>g_enemy := [dead], aim_point := a, my_bullet := b\<rparr>) of
        Inl u \<Rightarrow> Inl (Fault u) | Inr w \<Rightarrow> Inr w)"
    using frame_end_split [where m=game_map and dt=dt and ks="\<lambda>k. k = 0x57" and w="?w1\<lparr>g_enemy := [dead]\<rparr>"] w unfolding p by auto
  moreover have "move game_map (\<lambda>k. k = 0x57) (?w1\<lparr>g_enemy := [dead], aim_point := a, my_bullet := b\<rparr>) =
      Inr ((?w1\<lparr>g_enemy := [dead], aim_point := a, my_bullet := b\<rparr>)\<lparr>pos_x := -22.985\<rparr>)"
    by (rule walk_from_spawn) (simp_all add: wspawn_def world0_def)
  ultimately show ?thesis using ep by (simp add: frame_unfold wspawn_def world0_def)
qed

section \<open>The shipped map's flag\<close>

lemma flag_win: "win game_map (-23) 23 = Inr True"
  by (simp add: win_def corner_test_def tile_row_def tile_col_def macro_defs c_trunc_def map_at_def
      arr_read_def game_map_def)

lemma wflag_fields: "pos_x wflag = -23" "pos_z wflag = 23" "g_enemy wflag = []"
  by (simp_all add: wflag_def world0_def)

lemma frame_wflag: "frame game_map dt ks wflag = Inl Win"
proof -
  have "frame game_map dt ks wflag =
          frame_end game_map dt ks (wflag\<lparr>my_shoot := my_shoot (bullet_walls wflag), g_enemy := []\<rparr>)"
    by (simp add: frame_unfold wflag_fields)
  also have "\<dots> = Inl Win"
    using frame_end_cases [OF refl, of game_map dt ks "wflag\<lparr>my_shoot := my_shoot (bullet_walls wflag), g_enemy := []\<rparr>"]
      flag_win by (simp add: wflag_fields)
  finally show ?thesis .
qed
section \<open>Properties of the game loop\<close>

text \<open>
  C23. Termination of the frame-rate detection loop: it returns exactly when the time step
  is positive; for a zero or negative step the loop \<open>for (k = 1; true; k++)\<close> never
  ends.
\<close>

theorem detect_fps_terminates: "(\<exists>n. detect_fps t k = Some n) \<longleftrightarrow> 0 < t"
proof
  assume "\<exists>n. detect_fps t k = Some n"
  then show "0 < t" using detect_fps_Some_pos by blast
next
  assume t: "0 < t"
  obtain N where "1 / t < 10 ^ N" using real_arch_pow [of 10 "1 / t"] by auto
  then have "1 \<le> t * 10 ^ N" using t by (simp add: field_simps)
  then show "\<exists>n. detect_fps t k = Some n" by (rule detect_fps_ends [OF t])
qed

text \<open>
  C24. For every time step of at least a millisecond the detection yields zero, so
  \<open>Display\<close> leaves the world unchanged while \<open>FPS\<close> is zero: with a timer of
  millisecond resolution the game never gets past the detection.
\<close>

theorem fps_detection_stalls:
  assumes "FPS w = 0" "0.001 \<le> dt"
  shows "Display m dt ks w = Some (Inr w)"
  using assms detect_fps_ms [OF assms(2)] by (simp add: Display_def)

theorem fps_detection_stalls_witness: "Display game_map 0.016 (\<lambda>k. False) world0 = Some (Inr world0)"
  by (rule fps_detection_stalls) (simp_all add: world0_def)

text \<open>
  C25. The win is decided before any movement: a frame ends with \<open>Win\<close> only when the
  player stands on the flag at the start of the frame, and then whatever the keys; a
  frame that goes on started off the flag.
\<close>

theorem frame_win_before_move:
  "(frame m dt ks w = Inl Win \<longrightarrow>
      win m (pos_x w) (pos_z w) = Inr True \<and> frame m dt ks' w = Inl Win) \<and>
   (\<forall>w'. frame m dt ks w = Inr w' \<longrightarrow> win m (pos_x w) (pos_z w) = Inr False)"
proof (cases "enemy_pass dt (g_legowalls w) (g_enemy w) (w\<lparr>my_shoot := my_shoot (bullet_walls w)\<rparr>)")
  case (Inl h)
  then have "h \<noteq> Win" using enemy_pass_halt by fastforce
  then show ?thesis using Inl by (simp add: frame_unfold)
next
  case (Inr r)
  then obtain es w2 where r: "enemy_pass dt (g_legowalls w) (g_enemy w) (w\<lparr>my_shoot := my_shoot (bullet_walls w)\<rparr>) = Inr (es, w2)"
    by (cases r) auto
  have pos: "pos_x (w2\<lparr>g_enemy := es\<rparr>) = pos_x w" "pos_z (w2\<lparr>g_enemy := es\<rparr>) = pos_z w"
    using enemy_pass_keeps [OF r] by simp_all
  have fe: "frame m dt k w = frame_end m dt k (w2\<lparr>g_enemy := es\<rparr>)" for k using r by (simp add: frame_unfold)
  show ?thesis
    using frame_end_cases [OF refl, of m dt ks "w2\<lparr>g_enemy := es\<rparr>"]
      frame_end_cases [OF refl, of m dt ks' "w2\<lparr>g_enemy := es\<rparr>"]
    unfolding fe pos by blast
qed

theorem frame_win_before_move_witness:
  "frame game_map 0.016 (\<lambda>k. False) wflag = Inl Win \<and> win game_map (-23) 23 = Inr True \<and>
   frame game_map 0.016 (\<lambda>k. True) wflag = Inl Win"
  using frame_wflag [of "0.016" "\<lambda>k. False"]
    frame_win_before_move [of game_map "0.016" "\<lambda>k. False" wflag "\<lambda>k. True"]
  by (simp add: wflag_fields)

text \<open>
  C26. The loss comes exactly on the transition frame: a frame that goes on takes one
  life per living enemy whose bullet is on the player and leaves at least one; a frame
  that ends in \<open>Lose\<close> had at least as many such hits as lives.
\<close>

theorem frame_lose_on_last_life:
  assumes "0 < my_life w"
  shows "(\<forall>w'. frame m dt ks w = Inr w' \<longrightarrow>
            my_life w' = my_life w - hits (pos_x w) (pos_z w) (g_enemy w) \<and> 0 < my_life w') \<and>
         (frame m dt ks w = Inl Lose \<longrightarrow> my_life w \<le> hits (pos_x w) (pos_z w) (g_enemy w))"
proof (cases "enemy_pass dt (g_legowalls w) (g_enemy w) (w\<lparr>my_shoot := my_shoot (bullet_walls w)\<rparr>)")
  case (Inl h)
  have "my_life w \<le> hits (pos_x w) (pos_z w) (g_enemy w)" if "h = Lose"
    using enemy_pass_lose [of dt "g_legowalls w" "g_enemy w" "w\<lparr>my_shoot := my_shoot (bullet_walls w)\<rparr>"] Inl that
    by simp
  then show ?thesis using Inl by (auto simp: frame_unfold)
next
  case (Inr r)
  then obtain es w2 where r: "enemy_pass dt (g_legowalls w) (g_enemy w) (w\<lparr>my_shoot := my_shoot (bullet_walls w)\<rparr>) = Inr (es, w2)"
    by (cases r) auto
  have life: "my_life w2 = my_life w - hits (pos_x w) (pos_z w) (g_enemy w)" "0 < my_life w2"
    using enemy_pass_life [OF r] assms by simp_all
  have fe: "frame m dt ks w = frame_end m dt ks (w2\<lparr>g_enemy := es\<rparr>)" using r by (simp add: frame_unfold)
  have "my_life w' = my_life w2" if fw: "frame m dt ks w = Inr w'" for w'
  proof -
    obtain a b where "move m ks (w2\<lparr>g_enemy := es, aim_point := a, my_bullet := b\<rparr>) = Inr w'"
      using frame_end_cases [OF refl, of m dt ks "w2\<lparr>g_enemy := es\<rparr>"] fw fe by auto
    from move_keeps(1) [OF this] show ?thesis by simp
  qed
  then show ?thesis using life fe frame_end_cases [OF refl, of m dt ks "w2\<lparr>g_enemy := es\<rparr>"] by auto
qed

theorem frame_lose_on_last_life_witness:
  "frame game_map 0.016 (\<lambda>k. False) wspawn \<noteq> Inl Lose"
proof -
  have "0 < my_life wspawn" "hits (pos_x wspawn) (pos_z wspawn) (g_enemy wspawn) = 0"
    by (simp_all add: wspawn_def world0_def hits_def)
  with frame_lose_on_last_life [of wspawn game_map "0.016" "\<lambda>k. False"] show ?thesis
    by (auto simp: wspawn_def world0_def)
qed

text \<open>
  C27. A frame leaves every dead enemy exactly as it was and never revives one.
\<close>

theorem frame_dead_enemies_untouched:
  assumes "frame m dt ks w = Inr w'"
  shows "list_all2 (\<lambda>e e'. (\<not> alive e \<longrightarrow> e' = e) \<and> (alive e' \<longrightarrow> alive e)) (g_enemy w) (g_enemy w')"
proof -
  obtain es w2 a b where
    ep: "enemy_pass dt (g_legowalls w) (g_enemy w) (w\<lparr>my_shoot := my_shoot (bullet_walls w)\<rparr>) = Inr (es, w2)"
    and mv: "move m ks (w2\<lparr>g_enemy := es, aim_point := a, my_bullet := b\<rparr>) = Inr w'"
    using frame_Inr [OF assms] by metis
  have "g_enemy w' = es" by (subst move_frame [OF mv]) simp
  then show ?thesis using enemy_pass_enemies [OF ep] by (auto elim: list_all2_mono)
qed

theorem frame_dead_enemies_untouched_witness:
  "\<exists>w'. frame game_map 0.016 (\<lambda>k. k = 0x57) (wspawn\<lparr>g_enemy := [(enemy_at True 109)\<lparr>alive := False\<rparr>]\<rparr>) = Inr w' \<and>
     g_enemy w' = [(enemy_at True 109)\<lparr>alive := False\<rparr>]"
proof -
  obtain w' where f: "frame game_map 0.016 (\<lambda>k. k = 0x57) (wspawn\<lparr>g_enemy := [(enemy_at True 109)\<lparr>alive := False\<rparr>]\<rparr>) = Inr w'"
    using frame_wspawn_dead [of "(enemy_at True 109)\<lparr>alive := False\<rparr>"] by auto
  from frame_dead_enemies_untouched [OF f] have "g_enemy w' = [(enemy_at True 109)\<lparr>alive := False\<rparr>]"
    by (auto simp: list_all2_Cons1)
  with f show ?thesis by blast
qed

text \<open>
  C28. Every world of a game on the shipped map satisfies the invariant (unit aim off the
  vertical, the player on a placed position with one to three lives, well-formed
  enemies); its next frame reads the map in bounds, and a mouse message never faults.
\<close>

theorem reachable_worlds_safe:
  assumes "reach game_map w"
  shows "world_inv game_map w \<and> Display game_map dt ks w \<noteq> Some (Inl (Fault (Map_index r c))) \<and>
         (\<exists>w'. mouse_move wParam lParam w = Inr w')"
  using reach_world_inv [OF assms] display_no_map_fault [OF game_map_wf game_map_walled] mouse_ok by blast

theorem reachable_worlds_safe_witness:
  "\<exists>w. reach game_map w \<and> world_inv game_map w \<and>
      Display game_map 0.016 (\<lambda>k. False) w \<noteq> Some (Inl (Fault (Map_index 0 0)))"
proof -
  obtain w where "Setup True game_map world0 = Inr (True, w)" using setup_game by blast
  then have r: "reach game_map w" by (rule reach.init)
  from reachable_worlds_safe [OF r, of "0.016" "\<lambda>k. False" 0 0 0 0] r show ?thesis by blast
qed

end
