(* ===== verification/Render.thy ===== *)
theory Render
  imports Frame "HOL-Library.Word"
begin

text \<open>
  The Direct3D resources of the program (\<open>virtualLego.cpp\<close>): the meshes that
  \<open>CSphere\<close>, \<open>CWall\<close> and \<open>CLight\<close> create, draw and release (lines 99--128,
  197--235, 273--336), the light's slot in the device (\<open>setLight\<close>), and the static
  counter that numbers the lights. A mesh pointer is \<open>NULL\<close> or a handle; the heap
  holds the handles created and not yet released, and counts the creation requests so
  that every new handle is fresh. The Direct3D calls are the library's: a creation
  request succeeds as the oracle \<open>mesh_ok\<close> says for its request number;
  \<open>Release\<close> of a released mesh and \<open>DrawSubset\<close> through \<open>NULL\<close> or a released
  mesh are faults. Materials and transforms only serve the picture and are left out.
\<close>

section \<open>Mesh pointers and the heap\<close>

datatype mesh_ptr = NULL | Mesh nat

record d3dheap =
  live :: "nat list"
  requests :: nat

datatype res_err = Null_mesh | Released_mesh nat | Wall_index int

definition heap0 :: d3dheap where
  "heap0 = \<lparr>live = [], requests = 0\<rparr>"

text \<open>
  \<open>D3DXCreateSphere\<close> and \<open>D3DXCreateBox\<close>: the request number \<open>n\<close> is the new
  handle when the request succeeds.
\<close>

definition D3DXCreateMesh :: "(nat \<Rightarrow> bool) \<Rightarrow> d3dheap \<Rightarrow> mesh_ptr option \<times> d3dheap" where
  "D3DXCreateMesh mesh_ok h =
     (let n = requests h in
      if mesh_ok n then (Some (Mesh n), h\<lparr>live := n # live h, requests := Suc n\<rparr>)
      else (None, h\<lparr>requests := Suc n\<rparr>))"

definition Release :: "nat \<Rightarrow> d3dheap \<Rightarrow> res_err + d3dheap" where
  "Release i h =
     (if i \<in> set (live h) then Inr (h\<lparr>live := removeAll i (live h)\<rparr>) else Inl (Released_mesh i))"

definition DrawSubset :: "mesh_ptr \<Rightarrow> d3dheap \<Rightarrow> res_err + unit" where
  "DrawSubset p h =
     (case p of
        NULL \<Rightarrow> Inl Null_mesh
      | Mesh i \<Rightarrow> if i \<in> set (live h) then Inr () else Inl (Released_mesh i))"

text \<open>The heap is well formed when its handles are distinct and were all requested.\<close>

definition heap_wf :: "d3dheap \<Rightarrow> bool" where
  "heap_wf h \<longleftrightarrow> distinct (live h) \<and> list_all (\<lambda>i. i < requests h) (live h)"

section \<open>CSphere and CWall meshes\<close>

text \<open>
  \<open>CSphere::create\<close> (lines 99--111): no device, or a failed request, returns
  \<open>false\<close> and leaves the pointer as it was.
\<close>

definition sphere_create ::
  "bool \<Rightarrow> (nat \<Rightarrow> bool) \<Rightarrow> mesh_ptr \<Rightarrow> d3dheap \<Rightarrow> bool \<times> mesh_ptr \<times> d3dheap" where
  "sphere_create device mesh_ok p h =
     (if \<not> device then (False, p, h)
      else case D3DXCreateMesh mesh_ok h of
             (None, h) \<Rightarrow> (False, p, h)
           | (Some q, h) \<Rightarrow> (True, q, h))"

text \<open>\<open>CSphere::destroy\<close> (lines 114--119): release a non-null mesh and reset the pointer.\<close>

definition sphere_destroy :: "mesh_ptr \<Rightarrow> d3dheap \<Rightarrow> res_err + mesh_ptr \<times> d3dheap" where
  "sphere_destroy p h =
     (case p of
        NULL \<Rightarrow> Inr (p, h)
      | Mesh i \<Rightarrow> (case Release i h of Inl e \<Rightarrow> Inl e | Inr h \<Rightarrow> Inr (NULL, h)))"

text \<open>\<open>CSphere::draw\<close> (lines 121--128): only the device is tested, not the mesh.\<close>

definition sphere_draw :: "bool \<Rightarrow> mesh_ptr \<Rightarrow> d3dheap \<Rightarrow> res_err + unit" where
  "sphere_draw device p h = (if \<not> device then Inr () else DrawSubset p h)"

text \<open>The mesh part of \<open>CWall::create\<close> (lines 197--214, \<open>D3DXCreateBox\<close>).\<close>

definition wall_mesh_create ::
  "bool \<Rightarrow> (nat \<Rightarrow> bool) \<Rightarrow> mesh_ptr \<Rightarrow> d3dheap \<Rightarrow> bool \<times> mesh_ptr \<times> d3dheap" where
  "wall_mesh_create device mesh_ok p h =
     (if \<not> device then (False, p, h)
      else case D3DXCreateMesh mesh_ok h of
             (None, h) \<Rightarrow> (False, p, h)
           | (Some q, h) \<Rightarrow> (True, q, h))"

text \<open>\<open>CWall::destroy\<close> (lines 222--227).\<close>

definition wall_destroy :: "mesh_ptr \<Rightarrow> d3dheap \<Rightarrow> res_err + mesh_ptr \<times> d3dheap" where
  "wall_destroy p h =
     (case p of
        NULL \<Rightarrow> Inr (p, h)
      | Mesh i \<Rightarrow> (case Release i h of Inl e \<Rightarrow> Inl e | Inr h \<Rightarrow> Inr (NULL, h)))"

text \<open>\<open>CWall::draw\<close> (lines 229--235).\<close>

definition wall_draw :: "bool \<Rightarrow> mesh_ptr \<Rightarrow> d3dheap \<Rightarrow> res_err + unit" where
  "wall_draw device p h = (if \<not> device then Inr () else DrawSubset p h)"

section \<open>CLight\<close>

type_synonym vec3 = "double \<times> double \<times> double"

text \<open>
  The fields of \<open>D3DLIGHT9\<close> that \<open>Setup\<close> gives a value other than a colour or a
  type; \<open>lit0\<close> is the \<open>ZeroMemory\<close>'d light.
\<close>

record d3dlight9 =
  lt_position :: vec3
  lt_range :: double
  lt_att0 :: double
  lt_att1 :: double
  lt_att2 :: double

definition lit0 :: d3dlight9 where
  "lit0 = \<lparr>lt_position = (0, 0, 0), lt_range = 0, lt_att0 = 0, lt_att1 = 0, lt_att2 = 0\<rparr>"

record clight =
  m_index :: "32 word"
  m_lit :: d3dlight9
  m_pMesh :: mesh_ptr
  bound_center :: vec3
  bound_radius :: double

text \<open>
  The constructor (lines 273--281) takes its index from the static \<open>DWORD i\<close> and
  increments it: the counter is passed in and returned, and wraps at \<open>2^32\<close>.
\<close>

definition CLight :: "32 word \<Rightarrow> 32 word \<times> clight" where
  "CLight i = (i + 1, \<lparr>m_index = i, m_lit = lit0, m_pMesh = NULL, bound_center = (0, 0, 0),
                       bound_radius = 0\<rparr>)"

text \<open>\<open>CLight::create\<close> (lines 284--307): the mesh first, then the bound and the light.\<close>

definition light_create ::
  "bool \<Rightarrow> (nat \<Rightarrow> bool) \<Rightarrow> d3dlight9 \<Rightarrow> double \<Rightarrow> clight \<Rightarrow> d3dheap \<Rightarrow> bool \<times> clight \<times> d3dheap" where
  "light_create device mesh_ok lit radius l h =
     (if \<not> device then (False, l, h)
      else case D3DXCreateMesh mesh_ok h of
             (None, h) \<Rightarrow> (False, l, h)
           | (Some q, h) \<Rightarrow>
               (True, l\<lparr>m_pMesh := q, bound_center := lt_position lit, bound_radius := radius,
                         m_lit := lit\<rparr>, h))"

text \<open>\<open>CLight::destroy\<close> (lines 308--313).\<close>

definition light_destroy :: "clight \<Rightarrow> d3dheap \<Rightarrow> res_err + clight \<times> d3dheap" where
  "light_destroy l h =
     (case m_pMesh l of
        NULL \<Rightarrow> Inr (l, h)
      | Mesh i \<Rightarrow> (case Release i h of Inl e \<Rightarrow> Inl e | Inr h \<Rightarrow> Inr (l\<lparr>m_pMesh := NULL\<rparr>, h)))"

text \<open>
  The device's light table: the light set in each slot and the enabled slots.
  \<open>CLight::setLight\<close> (lines 314--326) moves the bound's centre by the local
  transform (the identity: a light never sets it) and by the world transform
  \<open>mWorld\<close>, stores it as the light's position and sets and enables slot
  \<open>m_index\<close>.
\<close>

record d3ddevice =
  dev_lights :: "32 word \<Rightarrow> d3dlight9 option"
  dev_enabled :: "32 word set"

definition setLight ::
  "bool \<Rightarrow> (vec3 \<Rightarrow> vec3) \<Rightarrow> clight \<Rightarrow> d3ddevice \<Rightarrow> bool \<times> clight \<times> d3ddevice" where
  "setLight device mWorld l d =
     (if \<not> device then (False, l, d)
      else
        (let l = l\<lparr>m_lit := (m_lit l)\<lparr>lt_position := mWorld (bound_center l)\<rparr>\<rparr>
         in (True, l, d\<lparr>dev_lights := (dev_lights d)(m_index l \<mapsto> m_lit l),
                        dev_enabled := insert (m_index l) (dev_enabled d)\<rparr>)))"

text \<open>\<open>CLight::draw\<close> (lines 328--336).\<close>

definition light_draw :: "bool \<Rightarrow> clight \<Rightarrow> d3dheap \<Rightarrow> res_err + unit" where
  "light_draw device l h = (if \<not> device then Inr () else DrawSubset (m_pMesh l) h)"

text \<open>The indices of \<open>n\<close> lights constructed one after the other from counter \<open>i\<close>.\<close>

fun construct_lights :: "nat \<Rightarrow> 32 word \<Rightarrow> 32 word list" where
  "construct_lights 0 i = []"
| "construct_lights (Suc n) i = (let (i', l) = CLight i in m_index l # construct_lights n i')"


section \<open>The scene\<close>

text \<open>
  The mesh pointers of the globals (lines 527--534) and of each enemy's body, head and
  bullet, with the heap and the device's light table.
\<close>

record scene =
  sc_plane :: mesh_ptr
  sc_ceiling :: mesh_ptr
  sc_flag :: mesh_ptr
  sc_walls :: "mesh_ptr list"
  sc_enemies :: "(mesh_ptr \<times> mesh_ptr \<times> mesh_ptr) list"
  sc_bullet :: mesh_ptr
  sc_aim :: mesh_ptr
  sc_light :: clight
  sc_heap :: d3dheap
  sc_device :: d3ddevice

text \<open>
  Before \<open>Setup\<close>: every pointer \<open>NULL\<close> (the constructors set it so), the light the
  first one constructed, nothing created.
\<close>

definition scene0 :: scene where
  "scene0 = \<lparr>sc_plane = NULL, sc_ceiling = NULL, sc_flag = NULL, sc_walls = [], sc_enemies = [],
             sc_bullet = NULL, sc_aim = NULL, sc_light = snd (CLight 0), sc_heap = heap0,
             sc_device = \<lparr>dev_lights = Map.empty, dev_enabled = {}\<rparr>\<rparr>"

text \<open>
  The mesh requests of \<open>make_map\<close>'s filling pass (lines 477--486): a wall cell creates
  the box of slot \<open>--wall_count\<close>, a flag cell the flag's box, and a failure returns
  \<open>false\<close> at once. The map reads and the slot indices are those of \<open>fill_map\<close>,
  in bounds on a well-formed map (theory \<open>Level\<close>); the slots start \<open>NULL\<close>.
\<close>

fun level_meshes ::
  "bool \<Rightarrow> (nat \<Rightarrow> bool) \<Rightarrow> string list \<Rightarrow> int list \<Rightarrow> int \<Rightarrow> scene \<Rightarrow> bool \<times> scene" where
  "level_meshes device mesh_ok m [] n s = (True, s)"
| "level_meshes device mesh_ok m (k # ks) n s =
     (if map_at m (k div MAP_SIZE) (k mod MAP_SIZE) = Some (CHR ''1'') then
        (let (ok, p, h) = wall_mesh_create device mesh_ok (sc_walls s ! nat (n - 1)) (sc_heap s);
             s = s\<lparr>sc_walls := (sc_walls s)[nat (n - 1) := p], sc_heap := h\<rparr>
         in if ok then level_meshes device mesh_ok m ks (n - 1) s else (False, s))
      else if map_at m (k div MAP_SIZE) (k mod MAP_SIZE) = Some (CHR ''F'') then
        (let (ok, p, h) = wall_mesh_create device mesh_ok (sc_flag s) (sc_heap s);
             s = s\<lparr>sc_flag := p, sc_heap := h\<rparr>
         in if ok then level_meshes device mesh_ok m ks n s else (False, s))
      else level_meshes device mesh_ok m ks n s)"

text \<open>
  The mesh requests of the enemy constructor (lines 355--369): body, head and bullet, on
  members whose pointers the default constructors set to \<open>NULL\<close>. The results of
  the three \<open>create\<close> calls are ignored.
\<close>

definition CEnemy_meshes ::
  "bool \<Rightarrow> (nat \<Rightarrow> bool) \<Rightarrow> d3dheap \<Rightarrow> (mesh_ptr \<times> mesh_ptr \<times> mesh_ptr) \<times> d3dheap" where
  "CEnemy_meshes device mesh_ok h =
     (let (_, body_m, h) = wall_mesh_create device mesh_ok NULL h;
          (_, head_m, h) = wall_mesh_create device mesh_ok NULL h;
          (_, bullet_m, h) = sphere_create device mesh_ok NULL h
      in ((body_m, head_m, bullet_m), h))"

text \<open>\<open>locate_enemy\<close>'s filling pass (lines 499--502): slot \<open>--enemy_count\<close>.\<close>

fun enemy_meshes :: "bool \<Rightarrow> (nat \<Rightarrow> bool) \<Rightarrow> string list \<Rightarrow> int list \<Rightarrow> int \<Rightarrow> scene \<Rightarrow> scene" where
  "enemy_meshes device mesh_ok m [] n s = s"
| "enemy_meshes device mesh_ok m (k # ks) n s =
     (if map_at m (k div MAP_SIZE) (k mod MAP_SIZE) = Some (CHR ''e'') then
        (let (e, h) = CEnemy_meshes device mesh_ok (sc_heap s)
         in enemy_meshes device mesh_ok m ks (n - 1)
              (s\<lparr>sc_enemies := (sc_enemies s)[nat (n - 1) := e], sc_heap := h\<rparr>))
      else enemy_meshes device mesh_ok m ks n s)"

text \<open>The light \<open>Setup\<close> builds (lines 562--572).\<close>

definition setup_lit :: d3dlight9 where
  "setup_lit = \<lparr>lt_position = (0, of_int (WORLD_SIZE * MAP_SIZE div 2), 0),
                lt_range = of_int (WORLD_SIZE * MAP_SIZE * 10), lt_att0 = 0, lt_att1 = 0.9,
                lt_att2 = 0\<rparr>"

text \<open>
  The resources of \<open>Setup\<close> (lines 535--593), in its order: the level's boxes, the
  enemies, the floor, the ceiling, the player's bullet, the aim marker and the light
  (radius \<open>0.1\<close> by default), then \<open>setLight\<close> with the identity world matrix.
  Every failed \<open>create\<close> but the enemies' returns \<open>false\<close>.
\<close>

definition setup_meshes :: "bool \<Rightarrow> (nat \<Rightarrow> bool) \<Rightarrow> string list \<Rightarrow> scene \<Rightarrow> bool \<times> scene" where
  "setup_meshes device mesh_ok m s =
     (let nw = int (length (cells_of (CHR ''1'') m));
          (ok, s) = level_meshes device mesh_ok m cells nw (s\<lparr>sc_walls := replicate (nat nw) NULL\<rparr>)
      in if \<not> ok then (False, s) else
      let ne = int (length (cells_of (CHR ''e'') m));
          s = enemy_meshes device mesh_ok m cells ne
                (s\<lparr>sc_enemies := replicate (nat ne) (NULL, NULL, NULL)\<rparr>);
          (ok, p, h) = wall_mesh_create device mesh_ok (sc_plane s) (sc_heap s);
          s = s\<lparr>sc_plane := p, sc_heap := h\<rparr>
      in if \<not> ok then (False, s) else
      let (ok, p, h) = wall_mesh_create device mesh_ok (sc_ceiling s) (sc_heap s);
          s = s\<lparr>sc_ceiling := p, sc_heap := h\<rparr>
      in if \<not> ok then (False, s) else
      let (ok, p, h) = sphere_create device mesh_ok (sc_bullet s) (sc_heap s);
          s = s\<lparr>sc_bullet := p, sc_heap := h\<rparr>
      in if \<not> ok then (False, s) else
      let (ok, p, h) = sphere_create device mesh_ok (sc_aim s) (sc_heap s);
          s = s\<lparr>sc_aim := p, sc_heap := h\<rparr>
      in if \<not> ok then (False, s) else
      let (ok, l, h) = light_create device mesh_ok setup_lit 0.1 (sc_light s) (sc_heap s);
          s = s\<lparr>sc_light := l, sc_heap := h\<rparr>
      in if \<not> ok then (False, s) else
      let (_, l, d) = setLight device id (sc_light s) (sc_device s)
      in (True, s\<lparr>sc_light := l, sc_device := d\<rparr>))"

text \<open>
  The draws of a game frame of \<open>Display\<close> (lines 627--656), in order: the floor, the
  flag, the walls, the body, head and bullet of every living enemy
  (\<open>CEnemy::draw\<close>, lines 372--376), the aim marker, the light and the player's
  bullet. A draw changes nothing, so the frame's draws succeed unless one faults; the
  first fault is the frame's.
\<close>

fun draws :: "(res_err + unit) list \<Rightarrow> res_err + unit" where
  "draws [] = Inr ()"
| "draws (Inl e # ds) = Inl e"
| "draws (Inr _ # ds) = draws ds"

definition enemy_draw :: "bool \<Rightarrow> mesh_ptr \<times> mesh_ptr \<times> mesh_ptr \<Rightarrow> d3dheap \<Rightarrow> res_err + unit" where
  "enemy_draw device e h =
     (case e of (body_m, head_m, bullet_m) \<Rightarrow>
        draws [wall_draw device body_m h, wall_draw device head_m h, sphere_draw device bullet_m h])"

definition draw_scene :: "bool \<Rightarrow> bool list \<Rightarrow> scene \<Rightarrow> res_err + unit" where
  "draw_scene device alives s =
     (let h = sc_heap s in
      draws ([wall_draw device (sc_plane s) h, wall_draw device (sc_flag s) h] @
             map (\<lambda>p. wall_draw device p h) (sc_walls s) @
             map (\<lambda>(a, e). if a then enemy_draw device e h else Inr ()) (zip alives (sc_enemies s)) @
             [sphere_draw device (sc_aim s) h, light_draw device (sc_light s) h,
              sphere_draw device (sc_bullet s) h]))"

text \<open>
  \<open>Cleanup\<close> (lines 596--603): the floor, then \<open>g_legowalls[i]\<close> for every
  \<open>i < MAP_SIZE * MAP_SIZE\<close> (the first index past the array is a fault), then
  the light; \<open>destroyAllLegoBlock\<close> (line 521) is empty.
\<close>

fun destroy_walls :: "mesh_ptr list \<Rightarrow> int list \<Rightarrow> d3dheap \<Rightarrow> res_err + mesh_ptr list \<times> d3dheap" where
  "destroy_walls ws [] h = Inr (ws, h)"
| "destroy_walls ws (i # is) h =
     (case arr_read ws i of
        None \<Rightarrow> Inl (Wall_index i)
      | Some p \<Rightarrow> (case wall_destroy p h of
                    Inl e \<Rightarrow> Inl e
                  | Inr (p, h) \<Rightarrow> destroy_walls (ws[nat i := p]) is h))"

definition cleanup_meshes :: "scene \<Rightarrow> res_err + scene" where
  "cleanup_meshes s =
     (case wall_destroy (sc_plane s) (sc_heap s) of
        Inl e \<Rightarrow> Inl e
      | Inr (p, h) \<Rightarrow>
          (case destroy_walls (sc_walls s) cells h of
             Inl e \<Rightarrow> Inl e
           | Inr (ws, h) \<Rightarrow>
               (case light_destroy (sc_light s) h of
                  Inl e \<Rightarrow> Inl e
                | Inr (l, h) \<Rightarrow> Inr (s\<lparr>sc_plane := p, sc_walls := ws, sc_light := l, sc_heap := h\<rparr>))))"

text \<open>The meshes a list of pointers names: its non-\<open>NULL\<close> entries.\<close>

definition handles :: "mesh_ptr list \<Rightarrow> nat set" where
  "handles ps = {i. Mesh i \<in> set ps}"

text \<open>A pointer that names a live mesh: drawing through it succeeds.\<close>

definition good :: "d3dheap \<Rightarrow> mesh_ptr \<Rightarrow> bool" where
  "good h p \<longleftrightarrow> (case p of NULL \<Rightarrow> False | Mesh i \<Rightarrow> i \<in> set (live h))"

text \<open>The cells whose scan creates a mesh in \<open>make_map\<close>: walls and the flag.\<close>

definition mesh_cell :: "string list \<Rightarrow> int \<Rightarrow> bool" where
  "mesh_cell m k \<longleftrightarrow> is_cell (CHR ''1'') m k \<or> is_cell (CHR ''F'') m k"

text \<open>An enemy whose body, head and bullet all name live meshes.\<close>

definition good3 :: "d3dheap \<Rightarrow> mesh_ptr \<times> mesh_ptr \<times> mesh_ptr \<Rightarrow> bool" where
  "good3 h e \<longleftrightarrow> (case e of (a, b, c) \<Rightarrow> good h a \<and> good h b \<and> good h c)"

section \<open>Properties of the resources\<close>

lemma good_mono: "good h p \<Longrightarrow> set (live h) \<subseteq> set (live h') \<Longrightarrow> good h' p"
  by (auto simp: good_def split: mesh_ptr.splits)

lemma good_new [simp]: "good (h\<lparr>live := n # live h, requests := r\<rparr>) (Mesh n)"
  by (simp add: good_def)

lemma sphere_create_True:
  "sphere_create True mesh_ok p h =
     (if mesh_ok (requests h)
      then (True, Mesh (requests h), h\<lparr>live := requests h # live h, requests := Suc (requests h)\<rparr>)
      else (False, p, h\<lparr>requests := Suc (requests h)\<rparr>))"
  by (simp add: sphere_create_def D3DXCreateMesh_def Let_def)

lemma wall_mesh_create_eq: "wall_mesh_create = sphere_create"
  by (intro ext) (simp add: wall_mesh_create_def sphere_create_def)

lemma level_meshes_ok:
  assumes "\<forall>j. requests (sc_heap s) \<le> j \<and> j < requests (sc_heap s) + length (filter (mesh_cell m) ks) \<longrightarrow> mesh_ok j"
    "n = int (length (filter (is_cell (CHR ''1'') m) ks))" "nat n \<le> length (sc_walls s)"
  shows "\<exists>s'. level_meshes True mesh_ok m ks n s = (True, s') \<and>
    requests (sc_heap s') = requests (sc_heap s) + length (filter (mesh_cell m) ks) \<and>
    set (live (sc_heap s)) \<subseteq> set (live (sc_heap s')) \<and>
    length (sc_walls s') = length (sc_walls s) \<and>
    list_all (good (sc_heap s')) (take (nat n) (sc_walls s')) \<and>
    drop (nat n) (sc_walls s') = drop (nat n) (sc_walls s) \<and>
    (good (sc_heap s) (sc_flag s) \<or> filter (is_cell (CHR ''F'') m) ks \<noteq> [] \<longrightarrow> good (sc_heap s') (sc_flag s')) \<and>
    s' = s\<lparr>sc_walls := sc_walls s', sc_flag := sc_flag s', sc_heap := sc_heap s'\<rparr>"
  using assms
proof (induction ks arbitrary: n s)
  case Nil
  then show ?case by simp
next
  case (Cons k ks)
  let ?h = "sc_heap s" and ?r = "requests (sc_heap s)"
  let ?h1 = "?h\<lparr>live := ?r # live ?h, requests := Suc ?r\<rparr>"
  show ?case
  proof (cases "mesh_cell m k")
    case mc: True
    have ok: "mesh_ok ?r" using Cons.prems(1) mc by simp
    have p1: "\<forall>j. Suc ?r \<le> j \<and> j < Suc ?r + length (filter (mesh_cell m) ks) \<longrightarrow> mesh_ok j"
      using Cons.prems(1) mc by simp
    have mono: "good ?h p \<Longrightarrow> good ?h1 p" for p by (rule good_mono) auto
    show ?thesis
    proof (cases "is_cell (CHR ''1'') m k")
      case one: True
      let ?i = "n - 1"
      let ?s1 = "s\<lparr>sc_walls := (sc_walls s)[nat ?i := Mesh ?r], sc_heap := ?h1\<rparr>"
      have i: "0 \<le> ?i" "nat ?i < length (sc_walls s)" using Cons.prems(2,3) one by auto
      have step: "level_meshes True mesh_ok m (k # ks) n s = level_meshes True mesh_ok m ks ?i ?s1"
        using one ok by (simp add: wall_mesh_create_eq sphere_create_True)
      have p2: "?i = int (length (filter (is_cell (CHR ''1'') m) ks))" using Cons.prems(2) one by simp
      have p3: "nat ?i \<le> length (sc_walls ?s1)" using i by simp
      from Cons.IH [of ?s1 ?i] p1 p2 p3 obtain s' where s': "level_meshes True mesh_ok m ks ?i ?s1 = (True, s')"
        "requests (sc_heap s') = Suc ?r + length (filter (mesh_cell m) ks)"
        "set (live ?h1) \<subseteq> set (live (sc_heap s'))" "length (sc_walls s') = length (sc_walls s)"
        "list_all (good (sc_heap s')) (take (nat ?i) (sc_walls s'))"
        "drop (nat ?i) (sc_walls s') = drop (nat ?i) ((sc_walls s)[nat ?i := Mesh ?r])"
        "good ?h1 (sc_flag s) \<or> filter (is_cell (CHR ''F'') m) ks \<noteq> [] \<longrightarrow> good (sc_heap s') (sc_flag s')"
        "s' = s\<lparr>sc_walls := sc_walls s', sc_flag := sc_flag s', sc_heap := sc_heap s'\<rparr>"
        by auto
      have sl: "take (nat (?i + 1)) (sc_walls s') = take (nat ?i) (sc_walls s') @ [Mesh ?r]"
        "drop (nat (?i + 1)) (sc_walls s') = drop (nat (?i + 1)) (sc_walls s)"
        using fill_slot_down [OF i s'(4) refl s'(6)] by simp_all
      have "good (sc_heap s') (Mesh ?r)" using s'(3) by (simp add: good_def subset_iff)
      moreover have "set (live ?h) \<subseteq> set (live (sc_heap s'))" using s'(3) by auto
      ultimately show ?thesis using step s' sl one mc mono by simp
    next
      case notone: False
      then have flag: "is_cell (CHR ''F'') m k" using mc by (simp add: mesh_cell_def)
      let ?s1 = "s\<lparr>sc_flag := Mesh ?r, sc_heap := ?h1\<rparr>"
      have step: "level_meshes True mesh_ok m (k # ks) n s = level_meshes True mesh_ok m ks n ?s1"
        using notone flag ok by (simp add: wall_mesh_create_eq sphere_create_True)
      have p2: "n = int (length (filter (is_cell (CHR ''1'') m) ks))" using Cons.prems(2) notone by simp
      from Cons.IH [of ?s1 n] p1 p2 Cons.prems(3) obtain s' where
        s': "level_meshes True mesh_ok m ks n ?s1 = (True, s')"
        "requests (sc_heap s') = Suc ?r + length (filter (mesh_cell m) ks)"
        "set (live ?h1) \<subseteq> set (live (sc_heap s'))" "length (sc_walls s') = length (sc_walls s)"
        "list_all (good (sc_heap s')) (take (nat n) (sc_walls s'))"
        "drop (nat n) (sc_walls s') = drop (nat n) (sc_walls s)"
        "good ?h1 (Mesh ?r) \<longrightarrow> good (sc_heap s') (sc_flag s')"
        "s' = s\<lparr>sc_walls := sc_walls s', sc_flag := sc_flag s', sc_heap := sc_heap s'\<rparr>"
        by auto
      have "set (live ?h) \<subseteq> set (live (sc_heap s'))" using s'(3) by auto
      then show ?thesis using step s' notone flag mc by simp
    qed
  next
    case nomc: False
    then have step: "level_meshes True mesh_ok m (k # ks) n s = level_meshes True mesh_ok m ks n s"
      by (simp add: mesh_cell_def)
    have "\<not> is_cell (CHR ''1'') m k" "\<not> is_cell (CHR ''F'') m k" using nomc by (simp_all add: mesh_cell_def)
    then show ?thesis unfolding step using Cons.IH [of s n] Cons.prems nomc by simp
  qed
qed


lemma CEnemy_meshes_heap:
  "requests (snd (CEnemy_meshes True mesh_ok h)) = requests h + 3 \<and>
   set (live h) \<subseteq> set (live (snd (CEnemy_meshes True mesh_ok h)))"
  by (auto simp: CEnemy_meshes_def wall_mesh_create_eq sphere_create_True Let_def)

lemma CEnemy_meshes_ok:
  assumes "mesh_ok (requests h)" "mesh_ok (requests h + 1)" "mesh_ok (requests h + 2)"
  shows "good3 (snd (CEnemy_meshes True mesh_ok h)) (fst (CEnemy_meshes True mesh_ok h))"
  using assms by (simp add: CEnemy_meshes_def wall_mesh_create_eq sphere_create_True Let_def good3_def good_def)

lemma CEnemy_meshes_fail:
  assumes "\<not> mesh_ok (requests h)" "\<not> mesh_ok (requests h + 1)" "\<not> mesh_ok (requests h + 2)"
  shows "fst (CEnemy_meshes True mesh_ok h) = (NULL, NULL, NULL)"
  using assms by (simp add: CEnemy_meshes_def wall_mesh_create_eq sphere_create_True Let_def)

lemma enemy_meshes_slots:
  assumes "\<forall>h h'. requests (sc_heap s) \<le> requests h \<and>
      requests h + 3 \<le> requests (sc_heap s) + 3 * length (filter (is_cell (CHR ''e'') m) ks) \<and>
      set (live (snd (CEnemy_meshes True mesh_ok h))) \<subseteq> set (live h') \<longrightarrow>
      P h' (fst (CEnemy_meshes True mesh_ok h))"
    "n = int (length (filter (is_cell (CHR ''e'') m) ks))" "nat n \<le> length (sc_enemies s)"
  shows "\<exists>es h. enemy_meshes True mesh_ok m ks n s = s\<lparr>sc_enemies := es, sc_heap := h\<rparr> \<and>
    requests h = requests (sc_heap s) + 3 * length (filter (is_cell (CHR ''e'') m) ks) \<and>
    set (live (sc_heap s)) \<subseteq> set (live h) \<and> length es = length (sc_enemies s) \<and>
    list_all (P h) (take (nat n) es) \<and> drop (nat n) es = drop (nat n) (sc_enemies s)"
  using assms
proof (induction ks arbitrary: n s)
  case Nil
  then show ?case by (intro exI [of _ "sc_enemies s"] exI [of _ "sc_heap s"]) simp
next
  case (Cons k ks)
  show ?case
  proof (cases "is_cell (CHR ''e'') m k")
    case e: True
    let ?c = "CEnemy_meshes True mesh_ok (sc_heap s)"
    let ?i = "n - 1"
    let ?s1 = "s\<lparr>sc_enemies := (sc_enemies s)[nat ?i := fst ?c], sc_heap := snd ?c\<rparr>"
    have i: "0 \<le> ?i" "nat ?i < length (sc_enemies s)" using Cons.prems(2,3) e by auto
    have step: "enemy_meshes True mesh_ok m (k # ks) n s = enemy_meshes True mesh_ok m ks ?i ?s1"
      by (simp only: enemy_meshes.simps e if_True Let_def split_beta refl)
    have c: "requests (snd ?c) = requests (sc_heap s) + 3" "set (live (sc_heap s)) \<subseteq> set (live (snd ?c))"
      using CEnemy_meshes_heap by blast+
    have p1: "\<forall>h h'. requests (sc_heap ?s1) \<le> requests h \<and>
      requests h + 3 \<le> requests (sc_heap ?s1) + 3 * length (filter (is_cell (CHR ''e'') m) ks) \<and>
      set (live (snd (CEnemy_meshes True mesh_ok h))) \<subseteq> set (live h') \<longrightarrow>
      P h' (fst (CEnemy_meshes True mesh_ok h))"
    proof (intro allI impI)
      fix h h' :: d3dheap
      assume a: "requests (sc_heap ?s1) \<le> requests h \<and>
        requests h + 3 \<le> requests (sc_heap ?s1) + 3 * length (filter (is_cell (CHR ''e'') m) ks) \<and>
        set (live (snd (CEnemy_meshes True mesh_ok h))) \<subseteq> set (live h')"
      have "requests (sc_heap s) \<le> requests h"
        "requests h + 3 \<le> requests (sc_heap s) + 3 * length (filter (is_cell (CHR ''e'') m) (k # ks))"
        using a c(1) e by auto
      then show "P h' (fst (CEnemy_meshes True mesh_ok h))" using Cons.prems(1) a by blast
    qed
    have p2: "?i = int (length (filter (is_cell (CHR ''e'') m) ks))" using Cons.prems(2) e by simp
    have p3: "nat ?i \<le> length (sc_enemies ?s1)" using i by simp
    obtain es h where IH: "enemy_meshes True mesh_ok m ks ?i ?s1 = ?s1\<lparr>sc_enemies := es, sc_heap := h\<rparr>"
      "requests h = requests (snd ?c) + 3 * length (filter (is_cell (CHR ''e'') m) ks)"
      "set (live (snd ?c)) \<subseteq> set (live h)" "length es = length (sc_enemies s)"
      "list_all (P h) (take (nat ?i) es)" "drop (nat ?i) es = drop (nat ?i) ((sc_enemies s)[nat ?i := fst ?c])"
      using Cons.IH [OF p1 p2 p3] by auto
    have sl: "take (nat (?i + 1)) es = take (nat ?i) es @ [fst ?c]"
      "drop (nat (?i + 1)) es = drop (nat (?i + 1)) (sc_enemies s)"
      using fill_slot_down [OF i IH(4) refl IH(6)] by simp_all
    have "P h (fst ?c)"
    proof -
      have "requests (sc_heap s) \<le> requests (sc_heap s)"
        "requests (sc_heap s) + 3 \<le> requests (sc_heap s) + 3 * length (filter (is_cell (CHR ''e'') m) (k # ks))"
        using e by auto
      then show ?thesis using Cons.prems(1) IH(3) by blast
    qed
    then show ?thesis
      using step IH sl c e by (intro exI [of _ es] exI [of _ h]) auto
  next
    case False
    then have "enemy_meshes True mesh_ok m (k # ks) n s = enemy_meshes True mesh_ok m ks n s"
      by (simp only: enemy_meshes.simps if_False)
    moreover have "length (filter (is_cell (CHR ''e'') m) (k # ks)) = length (filter (is_cell (CHR ''e'') m) ks)"
      using False by simp
    ultimately show ?thesis using Cons.IH [of s n] Cons.prems by (simp only:)
  qed
qed


lemma good3_mono: "good3 h e \<Longrightarrow> set (live h) \<subseteq> set (live h') \<Longrightarrow> good3 h' e"
  by (auto simp: good3_def intro: good_mono split: prod.splits)

lemma draws_Inr: "draws ds = Inr () \<longleftrightarrow> list_all (\<lambda>d. d = Inr ()) ds"
  by (induction ds rule: draws.induct) auto

lemma draws_first: "list_all (\<lambda>d. d = Inr () \<or> d = Inl e) ds \<Longrightarrow> Inl e \<in> set ds \<Longrightarrow> draws ds = Inl e"
  by (induction ds rule: draws.induct) auto

lemma DrawSubset_good: "good h p \<Longrightarrow> DrawSubset p h = Inr ()"
  by (cases p) (simp_all add: DrawSubset_def good_def)

lemma draw_scene_good:
  assumes "good (sc_heap s) (sc_plane s)" "good (sc_heap s) (sc_flag s)" "list_all (good (sc_heap s)) (sc_walls s)"
    "list_all (good3 (sc_heap s)) (sc_enemies s)" "good (sc_heap s) (sc_aim s)"
    "good (sc_heap s) (m_pMesh (sc_light s))" "good (sc_heap s) (sc_bullet s)"
  shows "draw_scene True alives s = Inr ()"
proof -
  have "enemy_draw True e (sc_heap s) = Inr ()" if "e \<in> set (sc_enemies s)" for e
    using that assms(4)
    by (auto simp: enemy_draw_def good3_def wall_draw_def sphere_draw_def list_all_iff DrawSubset_good)
  then have "list_all (\<lambda>d. d = Inr ())
      (map (\<lambda>(a, e). if a then enemy_draw True e (sc_heap s) else Inr ()) (zip alives (sc_enemies s)))"
    by (auto simp: list_all_iff dest: set_zip_rightD)
  then show ?thesis using assms
    by (auto simp add: draw_scene_def Let_def draws_Inr list_all_iff wall_draw_def sphere_draw_def
        light_draw_def DrawSubset_good)
qed

lemma setup_meshes_steps:
  assumes lv: "level_meshes True mesh_ok m cells (int (length (cells_of (CHR ''1'') m)))
                 (s\<lparr>sc_walls := replicate (length (cells_of (CHR ''1'') m)) NULL\<rparr>) = (True, s1)"
    and en: "enemy_meshes True mesh_ok m cells (int (length (cells_of (CHR ''e'') m)))
                 (s1\<lparr>sc_enemies := replicate (length (cells_of (CHR ''e'') m)) (NULL, NULL, NULL)\<rparr>) = s2"
    and ok: "\<forall>j<5. mesh_ok (requests (sc_heap s2) + j)"
  shows "\<exists>s'. setup_meshes True mesh_ok m s = (True, s') \<and> sc_walls s' = sc_walls s2 \<and>
    sc_flag s' = sc_flag s2 \<and> sc_enemies s' = sc_enemies s2 \<and>
    set (live (sc_heap s2)) \<subseteq> set (live (sc_heap s')) \<and>
    good (sc_heap s') (sc_plane s') \<and> good (sc_heap s') (sc_ceiling s') \<and> good (sc_heap s') (sc_bullet s') \<and>
    good (sc_heap s') (sc_aim s') \<and> good (sc_heap s') (m_pMesh (sc_light s')) \<and>
    dev_lights (sc_device s') (m_index (sc_light s2)) = Some setup_lit \<and>
    m_index (sc_light s2) \<in> dev_enabled (sc_device s')"
proof -
  have o: "mesh_ok (requests (sc_heap s2))" "mesh_ok (Suc (requests (sc_heap s2)))"
    "mesh_ok (Suc (Suc (requests (sc_heap s2))))" "mesh_ok (Suc (Suc (Suc (requests (sc_heap s2)))))"
    "mesh_ok (Suc (Suc (Suc (Suc (requests (sc_heap s2))))))"
    using ok [rule_format, of 0] ok [rule_format, of 1] ok [rule_format, of 2] ok [rule_format, of 3]
      ok [rule_format, of 4] by (simp_all add: eval_nat_numeral)
  show ?thesis
    using lv en o
    by (simp add: setup_meshes_def Let_def wall_mesh_create_eq sphere_create_True light_create_def
        D3DXCreateMesh_def setLight_def good_def subset_insertI2)
qed

lemma cells_of_nonempty: "is_cell ch m k \<Longrightarrow> 0 \<le> k \<Longrightarrow> k < 900 \<Longrightarrow> cells_of ch m \<noteq> []"
  by (auto simp: cells_of_def cells_def MAP_SIZE_def filter_empty_conv)

lemma game_map_flag_enemy: "cells_of (CHR ''F'') game_map \<noteq> []" "cells_of (CHR ''e'') game_map \<noteq> []"
  by (rule cells_of_nonempty [where k=93], simp_all add: map_at_def arr_read_def game_map_def MAP_SIZE_def)
     (rule cells_of_nonempty [where k=109], simp_all add: map_at_def arr_read_def game_map_def MAP_SIZE_def)


lemma setup_meshes_scan:
  assumes F: "cells_of (CHR ''F'') m \<noteq> []"
    and lvok: "\<forall>j<length (filter (mesh_cell m) cells). mesh_ok j"
    and enP: "\<forall>h h'. length (filter (mesh_cell m) cells) \<le> requests h \<and>
      requests h + 3 \<le> length (filter (mesh_cell m) cells) + 3 * length (cells_of (CHR ''e'') m) \<and>
      set (live (snd (CEnemy_meshes True mesh_ok h))) \<subseteq> set (live h') \<longrightarrow>
      P h' (fst (CEnemy_meshes True mesh_ok h))"
    and stok: "\<forall>j<5. mesh_ok (length (filter (mesh_cell m) cells) + 3 * length (cells_of (CHR ''e'') m) + j)"
    and Pmono: "\<forall>h h' e. P h e \<and> set (live h) \<subseteq> set (live h') \<longrightarrow> P h' e"
  shows "\<exists>s. setup_meshes True mesh_ok m scene0 = (True, s) \<and>
    good (sc_heap s) (sc_plane s) \<and> good (sc_heap s) (sc_flag s) \<and> list_all (good (sc_heap s)) (sc_walls s) \<and>
    list_all (P (sc_heap s)) (sc_enemies s) \<and> length (sc_enemies s) = length (cells_of (CHR ''e'') m) \<and>
    good (sc_heap s) (sc_aim s) \<and> good (sc_heap s) (m_pMesh (sc_light s)) \<and> good (sc_heap s) (sc_bullet s) \<and>
    dev_lights (sc_device s) 0 = Some setup_lit \<and> 0 \<in> dev_enabled (sc_device s)"
proof -
  let ?nw = "length (cells_of (CHR ''1'') m)" and ?ne = "length (cells_of (CHR ''e'') m)"
  let ?s0 = "scene0\<lparr>sc_walls := replicate ?nw NULL\<rparr>"
  have c: "cells_of ch m = filter (is_cell ch m) cells" for ch by (simp add: cells_of_def)
  have "\<exists>s'. level_meshes True mesh_ok m cells (int ?nw) ?s0 = (True, s') \<and>
    requests (sc_heap s') = requests (sc_heap ?s0) + length (filter (mesh_cell m) cells) \<and>
    set (live (sc_heap ?s0)) \<subseteq> set (live (sc_heap s')) \<and>
    length (sc_walls s') = length (sc_walls ?s0) \<and>
    list_all (good (sc_heap s')) (take (nat (int ?nw)) (sc_walls s')) \<and>
    drop (nat (int ?nw)) (sc_walls s') = drop (nat (int ?nw)) (sc_walls ?s0) \<and>
    (good (sc_heap ?s0) (sc_flag ?s0) \<or> filter (is_cell (CHR ''F'') m) cells \<noteq> [] \<longrightarrow>
       good (sc_heap s') (sc_flag s')) \<and>
    s' = ?s0\<lparr>sc_walls := sc_walls s', sc_flag := sc_flag s', sc_heap := sc_heap s'\<rparr>"
    by (rule level_meshes_ok) (use lvok in \<open>simp_all add: c scene0_def heap0_def\<close>)
  then obtain s1 where s1: "level_meshes True mesh_ok m cells (int ?nw) ?s0 = (True, s1)"
    "requests (sc_heap s1) = requests (sc_heap ?s0) + length (filter (mesh_cell m) cells)"
    "list_all (good (sc_heap s1)) (take (nat (int ?nw)) (sc_walls s1))"
    "length (sc_walls s1) = length (sc_walls ?s0)"
    "good (sc_heap ?s0) (sc_flag ?s0) \<or> filter (is_cell (CHR ''F'') m) cells \<noteq> [] \<longrightarrow>
       good (sc_heap s1) (sc_flag s1)"
    and eq1: "s1 = ?s0\<lparr>sc_walls := sc_walls s1, sc_flag := sc_flag s1, sc_heap := sc_heap s1\<rparr>"
    by blast
  have l1: "sc_light s1 = sc_light scene0" by (subst eq1) simp
  have r1: "requests (sc_heap s1) = length (filter (mesh_cell m) cells)" using s1(2) by (simp add: scene0_def heap0_def)
  have w1: "list_all (good (sc_heap s1)) (take ?nw (sc_walls s1))" "length (sc_walls s1) = ?nw"
    using s1(3,4) by simp_all
  have f1: "good (sc_heap s1) (sc_flag s1)" using s1(5) F by (simp add: c)
  let ?s1 = "s1\<lparr>sc_enemies := replicate ?ne (NULL, NULL, NULL)\<rparr>"
  obtain es h2 where s2: "enemy_meshes True mesh_ok m cells (int ?ne) ?s1 = ?s1\<lparr>sc_enemies := es, sc_heap := h2\<rparr>"
    "requests h2 = length (filter (mesh_cell m) cells) + 3 * ?ne"
    "set (live (sc_heap s1)) \<subseteq> set (live h2)" "length es = ?ne" "list_all (P h2) (take ?ne es)"
    using enemy_meshes_slots [of ?s1 m cells mesh_ok P "int ?ne"] enP r1 by (auto simp: c)
  obtain s' where s': "setup_meshes True mesh_ok m scene0 = (True, s')" "sc_walls s' = sc_walls s1"
    "sc_flag s' = sc_flag s1" "sc_enemies s' = es" "set (live h2) \<subseteq> set (live (sc_heap s'))"
    "good (sc_heap s') (sc_plane s')" "good (sc_heap s') (sc_bullet s')"
    "good (sc_heap s') (sc_aim s')" "good (sc_heap s') (m_pMesh (sc_light s'))"
    "dev_lights (sc_device s') 0 = Some setup_lit" "0 \<in> dev_enabled (sc_device s')"
    using setup_meshes_steps [OF s1(1)[simplified] s2(1)] stok l1 s2(2)
    by (auto simp: scene0_def CLight_def)
  have sub: "set (live (sc_heap s1)) \<subseteq> set (live (sc_heap s'))" using s2(3) s'(5) by blast
  have "list_all (good (sc_heap s')) (sc_walls s')"
    using w1 s'(2) sub by (auto simp: list_all_iff intro: good_mono)
  moreover have "good (sc_heap s') (sc_flag s')" using f1 s'(3) sub by (auto intro: good_mono)
  moreover have "list_all (P (sc_heap s')) (sc_enemies s')"
    using s2(4,5) s'(4,5) Pmono by (auto simp: list_all_iff)
  ultimately show ?thesis using s' s2(4) by auto
qed


lemma draw_scene_null_enemy:
  assumes "good (sc_heap s) (sc_plane s)" "good (sc_heap s) (sc_flag s)" "list_all (good (sc_heap s)) (sc_walls s)"
    "list_all (\<lambda>e. e = (NULL, NULL, NULL)) (sc_enemies s)" "good (sc_heap s) (sc_aim s)"
    "good (sc_heap s) (m_pMesh (sc_light s))" "good (sc_heap s) (sc_bullet s)"
    "True \<in> set (take (length (sc_enemies s)) alives)"
  shows "draw_scene True alives s = Inl Null_mesh"
proof -
  have null: "enemy_draw True (NULL, NULL, NULL) h = Inl Null_mesh" for h
    by (simp add: enemy_draw_def wall_draw_def DrawSubset_def)
  obtain i where i: "i < length (sc_enemies s)" "i < length alives" "alives ! i"
    using assms(8) by (auto simp: in_set_conv_nth)
  then have "(True, (NULL, NULL, NULL)) \<in> set (zip alives (sc_enemies s))"
    using assms(4) by (auto simp: in_set_conv_nth list_all_length intro!: exI [of _ i])
  then have "(\<lambda>(a, e). if a then enemy_draw True e (sc_heap s) else Inr ()) (True, (NULL, NULL, NULL)) \<in>
      (\<lambda>(a, e). if a then enemy_draw True e (sc_heap s) else Inr ()) ` set (zip alives (sc_enemies s))"
    by (rule imageI)
  then have "Inl Null_mesh \<in> set (map (\<lambda>(a, e). if a then enemy_draw True e (sc_heap s) else Inr ())
                                  (zip alives (sc_enemies s)))"
    unfolding set_map using null by simp
  moreover have "list_all (\<lambda>d. d = Inr () \<or> d = Inl Null_mesh)
      (map (\<lambda>(a, e). if a then enemy_draw True e (sc_heap s) else Inr ()) (zip alives (sc_enemies s)))"
  proof -
    have "(\<lambda>(a, e). if a then enemy_draw True e (sc_heap s) else Inr ()) x = Inr () \<or>
          (\<lambda>(a, e). if a then enemy_draw True e (sc_heap s) else Inr ()) x = Inl Null_mesh"
      if "x \<in> set (zip alives (sc_enemies s))" for x
    proof -
      obtain a e where x: "x = (a, e)" by (cases x)
      then have "e = (NULL, NULL, NULL)" using that assms(4) by (auto simp: list_all_iff dest: set_zip_rightD)
      then show ?thesis using x null by simp
    qed
    then show ?thesis unfolding list_all_iff set_map by blast
  qed
  moreover have "list_all (\<lambda>d. d = Inr () \<or> d = Inl Null_mesh) (map (\<lambda>p. wall_draw True p (sc_heap s)) (sc_walls s))"
    using assms(3) by (simp add: list_all_iff wall_draw_def DrawSubset_good)
  ultimately show ?thesis using assms(1,2,5-7) unfolding draw_scene_def Let_def
    by (intro draws_first) (simp_all add: wall_draw_def sphere_draw_def light_draw_def DrawSubset_good)
qed

text \<open>
  C30. Set-up and the first frames: on every map with a flag, when Direct3D grants every mesh
  request, \<open>Setup\<close> succeeds, every mesh a game frame of \<open>Display\<close> draws (floor, flag,
  walls, the living enemies' bodies, heads and bullets, aim marker, light, bullet) is a
  live mesh whatever enemies are alive, and the light is set and enabled in slot 0 of the
  device, the first index of the light counter.
\<close>

theorem setup_draws_safe:
  assumes "cells_of (CHR ''F'') m \<noteq> []"
  shows "\<exists>s. setup_meshes True (\<lambda>_. True) m scene0 = (True, s) \<and> draw_scene True alives s = Inr () \<and>
             dev_lights (sc_device s) 0 = Some setup_lit \<and> 0 \<in> dev_enabled (sc_device s)"
proof -
  have "\<exists>s. setup_meshes True (\<lambda>_. True) m scene0 = (True, s) \<and>
    good (sc_heap s) (sc_plane s) \<and> good (sc_heap s) (sc_flag s) \<and> list_all (good (sc_heap s)) (sc_walls s) \<and>
    list_all (good3 (sc_heap s)) (sc_enemies s) \<and> length (sc_enemies s) = length (cells_of (CHR ''e'') m) \<and>
    good (sc_heap s) (sc_aim s) \<and> good (sc_heap s) (m_pMesh (sc_light s)) \<and> good (sc_heap s) (sc_bullet s) \<and>
    dev_lights (sc_device s) 0 = Some setup_lit \<and> 0 \<in> dev_enabled (sc_device s)"
  proof (rule setup_meshes_scan)
    show "\<forall>h h'. length (filter (mesh_cell m) cells) \<le> requests h \<and>
      requests h + 3 \<le> length (filter (mesh_cell m) cells) + 3 * length (cells_of (CHR ''e'') m) \<and>
      set (live (snd (CEnemy_meshes True (\<lambda>_. True) h))) \<subseteq> set (live h') \<longrightarrow>
      good3 h' (fst (CEnemy_meshes True (\<lambda>_. True) h))"
    proof (intro allI impI)
      fix h h' :: d3dheap
      assume a: "length (filter (mesh_cell m) cells) \<le> requests h \<and>
        requests h + 3 \<le> length (filter (mesh_cell m) cells) + 3 * length (cells_of (CHR ''e'') m) \<and>
        set (live (snd (CEnemy_meshes True (\<lambda>_. True) h))) \<subseteq> set (live h')"
      have "good3 (snd (CEnemy_meshes True (\<lambda>_. True) h)) (fst (CEnemy_meshes True (\<lambda>_. True) h))"
        by (rule CEnemy_meshes_ok) simp_all
      then show "good3 h' (fst (CEnemy_meshes True (\<lambda>_. True) h))" using a by (blast intro: good3_mono)
    qed
    show "\<forall>h h' e. good3 h e \<and> set (live h) \<subseteq> set (live h') \<longrightarrow> good3 h' e"
      using good3_mono by blast
  qed (use assms in simp_all)
  then obtain s where s: "setup_meshes True (\<lambda>_. True) m scene0 = (True, s)"
    "good (sc_heap s) (sc_plane s)" "good (sc_heap s) (sc_flag s)" "list_all (good (sc_heap s)) (sc_walls s)"
    "list_all (good3 (sc_heap s)) (sc_enemies s)"
    "good (sc_heap s) (sc_aim s)" "good (sc_heap s) (m_pMesh (sc_light s))" "good (sc_heap s) (sc_bullet s)"
    "dev_lights (sc_device s) 0 = Some setup_lit" "0 \<in> dev_enabled (sc_device s)"
    by blast
  show ?thesis using s(1,9,10) draw_scene_good [OF s(2-8)] by blast
qed

theorem setup_draws_safe_witness:
  "\<exists>s. setup_meshes True (\<lambda>_. True) game_map scene0 = (True, s) \<and> draw_scene True [True] s = Inr () \<and>
       dev_lights (sc_device s) 0 = Some setup_lit \<and> 0 \<in> dev_enabled (sc_device s)"
  using setup_draws_safe [OF game_map_flag_enemy(1), of "[True]"] .

text \<open>
  C31. The enemy constructor ignores the results of its three \<open>create\<close> calls: on every
  map with a flag, when Direct3D grants every request but the enemies', \<open>Setup\<close> still
  returns true, and every frame in which some enemy is alive draws through a \<open>NULL\<close> mesh.
\<close>

theorem setup_ignores_enemy_mesh_failure:
  assumes "cells_of (CHR ''F'') m \<noteq> []"
  shows "\<exists>s. setup_meshes True (\<lambda>j. j < length (filter (mesh_cell m) cells) \<or>
                length (filter (mesh_cell m) cells) + 3 * length (cells_of (CHR ''e'') m) \<le> j) m scene0 = (True, s) \<and>
           (\<forall>alives. True \<in> set (take (length (cells_of (CHR ''e'') m)) alives) \<longrightarrow>
              draw_scene True alives s = Inl Null_mesh)"
proof -
  let ?nm = "length (filter (mesh_cell m) cells)" and ?ne = "length (cells_of (CHR ''e'') m)"
  let ?ok = "\<lambda>j. j < ?nm \<or> ?nm + 3 * ?ne \<le> j"
  have fail: "fst (CEnemy_meshes True ?ok h) = (NULL, NULL, NULL)"
    if "?nm \<le> requests h" "requests h + 3 \<le> ?nm + 3 * ?ne" for h
    using that by (intro CEnemy_meshes_fail) auto
  have "\<exists>s. setup_meshes True ?ok m scene0 = (True, s) \<and>
    good (sc_heap s) (sc_plane s) \<and> good (sc_heap s) (sc_flag s) \<and> list_all (good (sc_heap s)) (sc_walls s) \<and>
    list_all ((\<lambda>h e. e = (NULL, NULL, NULL)) (sc_heap s)) (sc_enemies s) \<and> length (sc_enemies s) = ?ne \<and>
    good (sc_heap s) (sc_aim s) \<and> good (sc_heap s) (m_pMesh (sc_light s)) \<and> good (sc_heap s) (sc_bullet s) \<and>
    dev_lights (sc_device s) 0 = Some setup_lit \<and> 0 \<in> dev_enabled (sc_device s)"
  proof (rule setup_meshes_scan)
    show "\<forall>h h'. ?nm \<le> requests h \<and> requests h + 3 \<le> ?nm + 3 * ?ne \<and>
      set (live (snd (CEnemy_meshes True ?ok h))) \<subseteq> set (live h') \<longrightarrow>
      fst (CEnemy_meshes True ?ok h) = (NULL, NULL, NULL)"
      using fail by blast
    show "\<forall>j<?nm. ?ok j" by simp
    show "\<forall>j<5. ?ok (?nm + 3 * ?ne + j)" by simp
    show "\<forall>h h' e. e = (NULL, NULL, NULL) \<and> set (live h) \<subseteq> set (live h') \<longrightarrow> e = (NULL, NULL, NULL)"
      by blast
  qed (rule assms)
  then obtain s where s: "setup_meshes True ?ok m scene0 = (True, s)"
    "good (sc_heap s) (sc_plane s)" "good (sc_heap s) (sc_flag s)" "list_all (good (sc_heap s)) (sc_walls s)"
    "list_all (\<lambda>e. e = (NULL, NULL, NULL)) (sc_enemies s)" "length (sc_enemies s) = ?ne"
    "good (sc_heap s) (sc_aim s)" "good (sc_heap s) (m_pMesh (sc_light s))" "good (sc_heap s) (sc_bullet s)"
    by blast
  have "draw_scene True alives s = Inl Null_mesh" if "True \<in> set (take ?ne alives)" for alives
    using draw_scene_null_enemy [OF s(2-4) s(5) s(7-9)] that s(6) by simp
  then show ?thesis using s(1) by blast
qed

theorem setup_ignores_enemy_mesh_failure_witness:
  "\<exists>s. setup_meshes True (\<lambda>j. j < length (filter (mesh_cell game_map) cells) \<or>
         length (filter (mesh_cell game_map) cells) + 3 * length (cells_of (CHR ''e'') game_map) \<le> j)
         game_map scene0 = (True, s) \<and> draw_scene True [True] s = Inl Null_mesh"
proof -
  have "True \<in> set (take (length (cells_of (CHR ''e'') game_map)) [True])"
    using game_map_flag_enemy(2) by (cases "cells_of (CHR ''e'') game_map") auto
  then show ?thesis using setup_ignores_enemy_mesh_failure [OF game_map_flag_enemy(1)] by blast
qed


lemma heap_wf_create: "heap_wf h \<Longrightarrow> heap_wf (snd (D3DXCreateMesh mesh_ok h))"
  by (auto simp: heap_wf_def D3DXCreateMesh_def Let_def list_all_iff)

lemma heap_wf_Release: "heap_wf h \<Longrightarrow> Release i h = Inr h' \<Longrightarrow> heap_wf h'"
  by (auto simp: heap_wf_def Release_def list_all_iff distinct_removeAll split: if_splits)

lemma construct_lights_upt: "construct_lights n i = map (\<lambda>k. i + of_nat k) [0..<n]"
proof (induction n arbitrary: i)
  case 0
  then show ?case by simp
next
  case (Suc n)
  have "[0..<Suc n] = 0 # map Suc [0..<n]" by (simp add: map_Suc_upt upt_conv_Cons del: upt_Suc)
  then show ?case using Suc by (simp add: CLight_def algebra_simps comp_def del: upt_Suc)
qed

text \<open>
  What a release does to the heap: \<open>destroy\<close> of a wall or of the light, and the loop of
  \<open>Cleanup\<close> over distinct indices, remove exactly the meshes their pointers name.
\<close>

lemma handles_simps [simp]:
  "handles [] = {}" "handles (NULL # ps) = handles ps" "handles (Mesh i # ps) = insert i (handles ps)"
  "handles (ps @ qs) = handles ps \<union> handles qs"
  by (auto simp: handles_def)

lemma Release_live: "Release i h = Inr h' \<Longrightarrow> set (live h') = set (live h) - {i}"
  by (auto simp: Release_def split: if_splits)

lemma wall_destroy_live:
  "wall_destroy p h = Inr (q, h') \<Longrightarrow> q = NULL \<and> set (live h') = set (live h) - handles [p]"
  by (cases p) (auto simp: wall_destroy_def dest!: Release_live split: sum.splits)

lemma light_destroy_live:
  "light_destroy l h = Inr (l', h') \<Longrightarrow> set (live h') = set (live h) - handles [m_pMesh l]"
  by (cases "m_pMesh l") (auto simp: light_destroy_def dest!: Release_live split: sum.splits)

lemma destroy_walls_live:
  "destroy_walls ws is h = Inr (ws', h') \<Longrightarrow> distinct is \<Longrightarrow>
   set (live h') = set (live h) - handles (map (\<lambda>i. ws ! nat i) is) \<and> (\<forall>i\<in>set is. 0 \<le> i)"
proof (induction ws "is" h rule: destroy_walls.induct)
  case (1 ws h)
  then show ?case by simp
next
  case (2 ws i "is" h)
  obtain p where p: "arr_read ws i = Some p" using "2.prems"(1) by (auto split: option.splits)
  obtain q h1 where d: "wall_destroy p h = Inr (q, h1)" using "2.prems"(1) p by (auto split: sum.splits)
  have rest: "destroy_walls (ws[nat i := q]) is h1 = Inr (ws', h')" using "2.prems"(1) p d by simp
  have IH: "set (live h') = set (live h1) - handles (map (\<lambda>j. ws[nat i := q] ! nat j) is) \<and> (\<forall>j\<in>set is. 0 \<le> j)"
    using "2.IH" [OF p d refl rest] "2.prems"(2) by simp
  have i: "0 \<le> i" "p = ws ! nat i" using p by (auto simp: arr_read_def split: if_splits)
  have eq: "map (\<lambda>j. ws[nat i := q] ! nat j) is = map (\<lambda>j. ws ! nat j) is"
  proof (rule map_cong [OF refl])
    fix j assume "j \<in> set is"
    then have "0 \<le> j" "j \<noteq> i" using IH "2.prems"(2) by auto
    then have "nat j \<noteq> nat i" using i(1) by simp
    then show "ws[nat i := q] ! nat j = ws ! nat j" by simp
  qed
  have "handles (map (\<lambda>j. ws ! nat j) (i # is)) = handles [p] \<union> handles (map (\<lambda>j. ws ! nat j) is)"
    using i(2) by (auto simp: handles_def)
  then show ?case using IH wall_destroy_live [OF d] i(1) unfolding eq by auto
qed

lemma destroy_walls_null:
  "\<forall>i\<in>set is. 0 \<le> i \<and> i < int n \<Longrightarrow> destroy_walls (replicate n NULL) is h = Inr (replicate n NULL, h)"
  by (induction "is") (auto simp: arr_read_def wall_destroy_def)

text \<open>
  C32. \<open>Cleanup\<close> releases exactly the floor, the wall slots its loop visits and the
  light, and nothing else: whenever it returns, the live meshes are those live before
  minus these. The ceiling, the flag, the player's bullet, the aiming dot and every
  enemy's meshes stay allocated.
\<close>

theorem cleanup_releases_only:
  assumes "cleanup_meshes s = Inr s'"
  shows "set (live (sc_heap s')) =
           set (live (sc_heap s)) - handles (sc_plane s # map (\<lambda>i. sc_walls s ! nat i) cells @ [m_pMesh (sc_light s)])"
proof -
  obtain p h1 where p: "wall_destroy (sc_plane s) (sc_heap s) = Inr (p, h1)"
    using assms by (auto simp: cleanup_meshes_def split: sum.splits)
  obtain ws h2 where w: "destroy_walls (sc_walls s) cells h1 = Inr (ws, h2)"
    using assms p by (auto simp: cleanup_meshes_def split: sum.splits)
  obtain l h3 where l: "light_destroy (sc_light s) h2 = Inr (l, h3)" "sc_heap s' = h3"
    using assms p w by (auto simp: cleanup_meshes_def split: sum.splits)
  have "distinct cells" by (simp add: cells_def)
  then show ?thesis
    using wall_destroy_live [OF p] destroy_walls_live [OF w] light_destroy_live [OF l(1)] l(2)
    by (auto simp: handles_def)
qed

theorem cleanup_releases_only_witness:
  "\<exists>s'. cleanup_meshes (scene0\<lparr>sc_plane := Mesh 0, sc_ceiling := Mesh 2, sc_walls := replicate 900 NULL,
          sc_light := (sc_light scene0)\<lparr>m_pMesh := Mesh 1\<rparr>, sc_heap := \<lparr>live = [2, 1, 0], requests = 3\<rparr>\<rparr>) = Inr s' \<and>
     set (live (sc_heap s')) = {2}"
proof -
  let ?s = "scene0\<lparr>sc_plane := Mesh 0, sc_ceiling := Mesh 2, sc_walls := replicate 900 NULL,
          sc_light := (sc_light scene0)\<lparr>m_pMesh := Mesh 1\<rparr>, sc_heap := \<lparr>live = [2, 1, 0], requests = 3\<rparr>\<rparr>"
  have c: "\<forall>i\<in>set cells. 0 \<le> i \<and> i < int 900" by (simp add: cells_def macro_defs)
  obtain s' where s': "cleanup_meshes ?s = Inr s'"
    by (simp add: cleanup_meshes_def wall_destroy_def Release_def destroy_walls_null [OF c]
        light_destroy_def)
  have "handles (map (\<lambda>i. sc_walls ?s ! nat i) cells) = {}"
    using c by (auto simp: handles_def)
  then show ?thesis using cleanup_releases_only [OF s'] s' by auto
qed

text \<open>
  C33. \<open>CWall::destroy\<close> is idempotent: destroying twice has the effect of destroying once,
  because the first call resets the pointer to \<open>NULL\<close>; a second \<open>Release\<close> of the same
  mesh never happens.
\<close>

theorem wall_destroy_idempotent:
  "(case wall_destroy p h of Inl e \<Rightarrow> Inl e | Inr (q, h') \<Rightarrow> wall_destroy q h') = wall_destroy p h"
  by (cases p) (simp_all add: wall_destroy_def Release_def)

text \<open>
  The Direct3D heap stays well formed (distinct handles, all requested) through every
  creation and release, and a created mesh is fresh: no live mesh is ever handed out twice,
  so no two objects share a mesh.
\<close>

lemma heap_ops_keep_wf:
  assumes "heap_wf h"
  shows "heap_wf (snd (snd (sphere_create d mesh_ok p h))) \<and>
         heap_wf (snd (snd (wall_mesh_create d mesh_ok p h))) \<and>
         (\<forall>h'. Release i h = Inr h' \<longrightarrow> heap_wf h') \<and>
         (\<forall>q h'. sphere_create d mesh_ok p h = (True, q, h') \<longrightarrow>
            (\<exists>n. q = Mesh n \<and> n \<notin> set (live h) \<and> set (live h') = insert n (set (live h))))"
  using assms heap_wf_create [OF assms, of mesh_ok] heap_wf_Release [OF assms, of i]
  by (auto simp: sphere_create_def wall_mesh_create_def D3DXCreateMesh_def Let_def heap_wf_def
      list_all_iff split: option.splits prod.splits if_splits)

text \<open>
  C34. The light counter is a \<open>DWORD\<close>: the \<open>k\<close>-th light constructed gets index
  \<open>k mod 2^32\<close>, so the first \<open>2^32\<close> lights get distinct indices and the next one
  reuses index 0, the slot of the first light.
\<close>

theorem light_indices_wrap:
  "construct_lights n 0 = map of_nat [0..<n] \<and> (distinct (construct_lights n 0) \<longleftrightarrow> n \<le> 2 ^ 32)"
proof -
  have eq: "construct_lights n 0 = map (of_nat :: nat \<Rightarrow> 32 word) [0..<n]"
    by (simp add: construct_lights_upt)
  have "distinct (map (of_nat :: nat \<Rightarrow> 32 word) [0..<n]) \<longleftrightarrow> n \<le> 2 ^ 32"
  proof
    assume d: "distinct (map (of_nat :: nat \<Rightarrow> 32 word) [0..<n])"
    show "n \<le> 2 ^ 32"
    proof (rule ccontr)
      assume "\<not> n \<le> 2 ^ 32"
      then have "0 \<in> set [0..<n]" "2 ^ 32 \<in> set [0..<n]" "(0::nat) \<noteq> 2 ^ 32" by auto
      moreover have "(of_nat (2 ^ 32) :: 32 word) = of_nat 0" by simp
      moreover have "inj_on (of_nat :: nat \<Rightarrow> 32 word) (set [0..<n])" using d by (simp add: distinct_map)
      ultimately show False by (metis inj_onD)
    qed
  next
    assume "n \<le> 2 ^ 32"
    then have "inj_on (of_nat :: nat \<Rightarrow> 32 word) (set [0..<n])"
      by (auto simp: inj_on_def word_of_nat_eq_iff take_bit_nat_eq_self)
    then show "distinct (map (of_nat :: nat \<Rightarrow> 32 word) [0..<n])" by (simp add: distinct_map)
  qed
  then show ?thesis using eq by simp
qed

end
