(* ===== verification/Window.thy ===== *)
theory Window
  imports Frame
begin

text \<open>
  The window procedure \<open>d3d::WndProc\<close> (\<open>virtualLego.cpp\<close>, lines 716--784) as a
  whole: \<open>WM_DESTROY\<close> posts the quit message, \<open>WM_KEYDOWN\<close> destroys the window on
  escape and toggles the wire-frame fill mode on return, \<open>WM_MOUSEMOVE\<close> is the
  handler of theory \<open>Player\<close>. The window's own state (the static \<open>wire\<close>, the
  device's fill mode, whether the window exists and whether \<open>WM_QUIT\<close> is posted)
  is a record beside the world. The message loop that feeds the procedure lives in
  \<open>d3dUtility\<close>, outside the sources: a run of messages is a list, dispatched in order.
\<close>

record wnd =
  wire :: bool
  fill_wireframe :: bool
  window_alive :: bool
  quit_posted :: bool

text \<open>At start: \<open>wire = false\<close>, the device in solid fill mode, the window open.\<close>

definition wnd0 :: wnd where
  "wnd0 = \<lparr>wire = False, fill_wireframe = False, window_alive = True, quit_posted = False\<rparr>"

datatype msg = WM_DESTROY | WM_KEYDOWN "32 word" | WM_MOUSEMOVE "32 word" "32 word" | WM_OTHER

definition VK_ESCAPE :: "32 word" where "VK_ESCAPE = 0x1B"

definition VK_RETURN :: "32 word" where "VK_RETURN = 0x0D"

text \<open>The window system's calls: \<open>PostQuitMessage\<close>, and \<open>DestroyWindow\<close>, which sends
  \<open>WM_DESTROY\<close> to the window procedure before it returns.\<close>

definition PostQuitMessage :: "wnd \<Rightarrow> wnd" where
  "PostQuitMessage s = s\<lparr>quit_posted := True\<rparr>"

text \<open>\<open>case WM_DESTROY\<close> (lines 724--727).\<close>

definition wm_destroy :: "wnd \<Rightarrow> wnd" where
  "wm_destroy s = PostQuitMessage s"

definition DestroyWindow :: "wnd \<Rightarrow> wnd" where
  "DestroyWindow s = wm_destroy (s\<lparr>window_alive := False\<rparr>)"

text \<open>
  \<open>case WM_KEYDOWN\<close> (lines 728--743): escape destroys the window; return, when there
  is a device, flips \<open>wire\<close> and sets the fill mode from it; other keys do nothing.
\<close>

definition wm_keydown :: "bool \<Rightarrow> 32 word \<Rightarrow> wnd \<Rightarrow> wnd" where
  "wm_keydown device k s =
     (if k = VK_ESCAPE then DestroyWindow s
      else if k = VK_RETURN then
        (if device then (let wr = \<not> wire s in s\<lparr>wire := wr, fill_wireframe := wr\<rparr>) else s)
      else s)"

text \<open>The procedure (lines 716--784); \<open>DefWindowProc\<close> is the window system's.\<close>

definition WndProc :: "bool \<Rightarrow> msg \<Rightarrow> world \<times> wnd \<Rightarrow> ub + world \<times> wnd" where
  "WndProc device m st =
     (case st of (w, s) \<Rightarrow>
        (case m of
           WM_DESTROY \<Rightarrow> Inr (w, wm_destroy s)
         | WM_KEYDOWN k \<Rightarrow> Inr (w, wm_keydown device k s)
         | WM_MOUSEMOVE wParam lParam \<Rightarrow>
             (case mouse_move wParam lParam w of Inl u \<Rightarrow> Inl u | Inr w' \<Rightarrow> Inr (w', s))
         | WM_OTHER \<Rightarrow> Inr (w, s)))"

text \<open>A run of messages, dispatched in order; the first fault ends it.\<close>

fun dispatch :: "bool \<Rightarrow> msg list \<Rightarrow> world \<times> wnd \<Rightarrow> ub + world \<times> wnd" where
  "dispatch device [] st = Inr st"
| "dispatch device (m # ms) st =
     (case WndProc device m st of Inl u \<Rightarrow> Inl u | Inr st' \<Rightarrow> dispatch device ms st')"

text \<open>The fill mode follows \<open>wire\<close>.\<close>

definition wnd_inv :: "wnd \<Rightarrow> bool" where
  "wnd_inv s \<longleftrightarrow> fill_wireframe s = wire s"

section \<open>Properties of the window procedure\<close>

lemma WndProc_world_inv:
  assumes "world_inv mp w" "WndProc device m (w, s) = Inr (w', s')"
  shows "world_inv mp w'"
  using assms mouse_inv by (auto simp: WndProc_def split: msg.splits sum.splits)

lemma WndProc_ok: "world_inv mp w \<Longrightarrow> \<exists>st'. WndProc device m (w, s) = Inr st'"
proof (cases m)
  case (WM_MOUSEMOVE wParam lParam)
  assume "world_inv mp w"
  then obtain w' where "mouse_move wParam lParam w = Inr w'" using mouse_ok by blast
  then show ?thesis using WM_MOUSEMOVE by (simp add: WndProc_def)
qed (simp_all add: WndProc_def)

lemma WndProc_quit_stays:
  "WndProc device m (w, s) = Inr (w', s') \<Longrightarrow> quit_posted s \<Longrightarrow> quit_posted s'"
  by (auto simp: WndProc_def wm_keydown_def DestroyWindow_def wm_destroy_def PostQuitMessage_def Let_def
      split: msg.splits sum.splits)

lemma WndProc_escape:
  "WndProc device (WM_KEYDOWN VK_ESCAPE) (w, s) = Inr (w, s\<lparr>window_alive := False, quit_posted := True\<rparr>)"
  by (simp add: WndProc_def wm_keydown_def DestroyWindow_def wm_destroy_def PostQuitMessage_def)

lemma wnd_inv_keydown: "wnd_inv s \<Longrightarrow> wnd_inv (wm_keydown device k s)"
  unfolding wm_keydown_def wnd_inv_def DestroyWindow_def wm_destroy_def PostQuitMessage_def Let_def
  by simp

lemma WndProc_wnd_inv:
  "wnd_inv s \<Longrightarrow> WndProc device m (w, s) = Inr (w', s') \<Longrightarrow> wnd_inv s'"
  using wnd_inv_keydown
  by (auto simp: WndProc_def wm_destroy_def PostQuitMessage_def wnd_inv_def split: msg.splits sum.splits)

lemma return_twice: "wnd_inv s \<Longrightarrow> wm_keydown True VK_RETURN (wm_keydown True VK_RETURN s) = s"
  by (simp add: wm_keydown_def VK_RETURN_def VK_ESCAPE_def Let_def wnd_inv_def)

lemma dispatch_ok:
  "world_inv mp (fst st) \<Longrightarrow>
   \<exists>st'. dispatch device ms st = Inr st' \<and> world_inv mp (fst st') \<and> (quit_posted (snd st) \<longrightarrow> quit_posted (snd st'))"
proof (induction ms arbitrary: st)
  case Nil
  then show ?case by simp
next
  case (Cons m ms)
  obtain w s where st: "st = (w, s)" by (cases st)
  obtain w' s' where step: "WndProc device m (w, s) = Inr (w', s')"
    using WndProc_ok [of mp w device m s] Cons.prems st by auto
  have "world_inv mp w'" using WndProc_world_inv [OF _ step] Cons.prems st by simp
  then obtain st'' where "dispatch device ms (w', s') = Inr st''" "world_inv mp (fst st'')"
    "quit_posted s' \<longrightarrow> quit_posted (snd st'')"
    using Cons.IH [of "(w', s')"] by auto
  then show ?case using step st WndProc_quit_stays [OF step] by auto
qed

text \<open>
  C35. Escape ends the session: from any world with the game invariant (every reachable world
  has it), a run of messages that contains an escape key never faults and ends with
  \<open>WM_QUIT\<close> posted, whatever messages come before or after it.
\<close>

theorem escape_posts_quit:
  assumes "world_inv mp (fst st)" "WM_KEYDOWN VK_ESCAPE \<in> set ms"
  shows "\<exists>st'. dispatch device ms st = Inr st' \<and> quit_posted (snd st')"
  using assms
proof (induction ms arbitrary: st)
  case Nil
  then show ?case by simp
next
  case (Cons m ms)
  obtain w s where st: "st = (w, s)" by (cases st)
  obtain w' s' where step: "WndProc device m (w, s) = Inr (w', s')"
    using WndProc_ok [of mp w device m s] Cons.prems(1) st by auto
  have inv: "world_inv mp w'" using WndProc_world_inv [OF _ step] Cons.prems(1) st by simp
  show ?case
  proof (cases "m = WM_KEYDOWN VK_ESCAPE")
    case True
    then have "s' = s\<lparr>window_alive := False, quit_posted := True\<rparr>"
      using step WndProc_escape [of device w s] by simp
    then have "quit_posted s'" by simp
    then show ?thesis using dispatch_ok [of mp "(w', s')" device ms] inv step st by auto
  next
    case False
    then have "WM_KEYDOWN VK_ESCAPE \<in> set ms" using Cons.prems(2) by simp
    then show ?thesis using Cons.IH [of "(w', s')"] inv step st by auto
  qed
qed

theorem escape_posts_quit_witness:
  "\<exists>w st'. world_inv game_map w \<and>
     dispatch True [WM_MOUSEMOVE 1 0, WM_KEYDOWN VK_ESCAPE] (w, wnd0) = Inr st' \<and> quit_posted (snd st')"
proof -
  obtain w where "Setup True game_map world0 = Inr (True, w)" "world_inv game_map w" using setup_game by blast
  then show ?thesis using escape_posts_quit [of game_map "(w, wnd0)" "[WM_MOUSEMOVE 1 0, WM_KEYDOWN VK_ESCAPE]"]
    by auto
qed

end
