(* ===== verification/Program.thy ===== *)
theory Program
  imports Window
begin

text \<open>
  The whole program: \<open>WinMain\<close> (\<open>virtualLego.cpp\<close>, lines 785--806) initialises the
  device, runs \<open>Setup\<close>, enters the message loop with \<open>Display\<close> as its idle
  callback, and on the way out runs \<open>Cleanup\<close> and releases the device. The loop,
  \<open>d3d::EnterMsgLoop\<close>, lives in \<open>d3dUtility\<close> outside the sources; it is modelled
  as it is written there: a pending message is dispatched to the window procedure,
  otherwise \<open>Display\<close> runs with the time since the last frame, and the loop ends when
  it retrieves \<open>WM_QUIT\<close>. Its input, the interleaving of messages and idle frames,
  is a list of events; the messages posted after \<open>WM_QUIT\<close> are taken to come after
  it in the queue.
\<close>

datatype event = Tick double keystate | Message msg

text \<open>
  How a run ends when it has not reached \<open>return 0\<close>: still running at the end of the
  events, ended by \<open>exit(0)\<close> (win or loss), hung in the frame-rate detection, or
  crashed by undefined behaviour.
\<close>

datatype run_end = Returned | Running "world \<times> wnd" | Exited halt | Hung | Crashed ub

fun EnterMsgLoop :: "string list \<Rightarrow> event list \<Rightarrow> world \<times> wnd \<Rightarrow> run_end + world \<times> wnd" where
  "EnterMsgLoop m [] st = Inl (Running st)"
| "EnterMsgLoop m (Message e # evs) st =
     (case WndProc True e st of
        Inl u \<Rightarrow> Inl (Crashed u)
      | Inr st' \<Rightarrow> if quit_posted (snd st') then Inr st' else EnterMsgLoop m evs st')"
| "EnterMsgLoop m (Tick dt ks # evs) st =
     (case Display m dt ks (fst st) of
        None \<Rightarrow> Inl Hung
      | Some (Inl (Fault u)) \<Rightarrow> Inl (Crashed u)
      | Some (Inl h) \<Rightarrow> Inl (Exited h)
      | Some (Inr w') \<Rightarrow> EnterMsgLoop m evs (w', snd st))"

text \<open>
  \<open>WinMain\<close>: a failed \<open>InitD3D\<close> or \<open>Setup\<close> shows a message box and returns;
  after the loop, \<open>Cleanup\<close> runs before \<open>Device->Release()\<close> and \<open>return 0\<close>.
\<close>

definition WinMain :: "bool \<Rightarrow> string list \<Rightarrow> event list \<Rightarrow> run_end" where
  "WinMain init_ok m evs =
     (if \<not> init_ok then Returned
      else case Setup True m world0 of
             Inl u \<Rightarrow> Crashed u
           | Inr (ok, w) \<Rightarrow>
               if \<not> ok then Returned
               else (case EnterMsgLoop m evs (w, wnd0) of
                       Inl r \<Rightarrow> r
                     | Inr (w', s) \<Rightarrow>
                         (case Cleanup (g_legowalls w') of Inl u \<Rightarrow> Crashed u | Inr () \<Rightarrow> Returned)))"

section \<open>Properties of the program\<close>

lemma WndProc_reach:
  "reach mp w \<Longrightarrow> WndProc device e (w, s) = Inr (w', s') \<Longrightarrow> reach mp w'"
  by (auto simp: WndProc_def intro: reach.mouse split: msg.splits sum.splits)

lemma EnterMsgLoop_reach:
  "reach mp (fst st) \<Longrightarrow> EnterMsgLoop mp evs st = Inr st' \<Longrightarrow> reach mp (fst st')"
proof (induction mp evs st rule: EnterMsgLoop.induct)
  case (1 m st)
  then show ?case by simp
next
  case (2 m e evs st)
  show ?case
  proof (cases "WndProc True e st")
    case (Inl u)
    then show ?thesis using 2 by simp
  next
    case (Inr st1)
    have "reach m (fst st1)" using WndProc_reach [of m "fst st" True e "snd st"] 2(2) Inr by (cases st1) auto
    then show ?thesis using 2 Inr by (auto split: if_splits)
  qed
next
  case (3 m dt ks evs st)
  then show ?case
    by (auto intro: reach.tick split: option.splits sum.splits halt.splits)
qed

lemma EnterMsgLoop_not_Returned: "EnterMsgLoop m evs st \<noteq> Inl Returned"
  by (induction m evs st rule: EnterMsgLoop.induct) (auto split: sum.splits option.splits halt.splits)

lemma game_walls_short: "int (length (cells_of (CHR ''1'') game_map)) < MAP_SIZE * MAP_SIZE"
  using game_map_floor_cell by (intro walls_fewer_than_cells) auto

text \<open>
  C36. The shipped program never returns normally: started with a device, every run on the
  shipped map keeps running, ends by \<open>exit(0)\<close> on a win or a loss, hangs, or crashes;
  every run that leaves the message loop through \<open>WM_QUIT\<close> (after escape) crashes in
  \<open>Cleanup\<close>, which reads the wall array at index \<open>wall_num\<close>.
\<close>

theorem WinMain_never_returns:
  "WinMain True game_map evs \<noteq> Returned \<and>
   (\<forall>w st. Setup True game_map world0 = Inr (True, w) \<longrightarrow> EnterMsgLoop game_map evs (w, wnd0) = Inr st \<longrightarrow>
      WinMain True game_map evs = Crashed (Array_index (int (length (cells_of (CHR ''1'') game_map)))))"
proof -
  obtain w where w: "Setup True game_map world0 = Inr (True, w)" "world_inv game_map w"
    using setup_game by blast
  have r: "reach game_map w" using w(1) by (rule reach.init)
  have quit: "WinMain True game_map evs = Crashed (Array_index (int (length (cells_of (CHR ''1'') game_map))))"
    if "EnterMsgLoop game_map evs (w, wnd0) = Inr st" for st
  proof -
    have "reach game_map (fst st)" using EnterMsgLoop_reach [OF _ that] r by simp
    then have "length (g_legowalls (fst st)) = length (cells_of (CHR ''1'') game_map)" by (rule reach_walls)
    then have "Cleanup (g_legowalls (fst st)) = Inl (Array_index (int (length (cells_of (CHR ''1'') game_map))))"
      using cleanup_short_walls game_walls_short by metis
    then show ?thesis using w(1) that by (cases st) (simp add: WinMain_def)
  qed
  have "WinMain True game_map evs \<noteq> Returned"
  proof (cases "EnterMsgLoop game_map evs (w, wnd0)")
    case (Inl r)
    then show ?thesis using w(1) EnterMsgLoop_not_Returned [of game_map evs "(w, wnd0)"]
      by (auto simp: WinMain_def)
  next
    case (Inr st)
    then show ?thesis using quit by simp
  qed
  then show ?thesis using quit w(1) by auto
qed

theorem WinMain_never_returns_witness:
  "WinMain True game_map [Message (WM_KEYDOWN VK_ESCAPE)] =
     Crashed (Array_index (int (length (cells_of (CHR ''1'') game_map))))"
proof -
  obtain w where w: "Setup True game_map world0 = Inr (True, w)" using setup_game by blast
  have "EnterMsgLoop game_map [Message (WM_KEYDOWN VK_ESCAPE)] (w, wnd0) =
          Inr (w, wnd0\<lparr>window_alive := False, quit_posted := True\<rparr>)"
    by (simp add: WndProc_escape)
  then show ?thesis using WinMain_never_returns [of "[Message (WM_KEYDOWN VK_ESCAPE)]"] w by blast
qed

end
