(* ===== verification/Spec2Isabelle.thy ===== *)
theory Spec2Isabelle
  imports Render Program
begin

text \<open>
  \<^bold>\<open>A verification library for the maze shooter of \<open>src/source/virtualLego.cpp\<close>.\<close>

  \<^bold>\<open>The program.\<close> A first-person maze shooter on Direct3D 9. Its simulation core
  is one file: class \<open>CSphere\<close> (bullets and the aim marker: centre, radius,
  velocity, explicit Euler motion), class \<open>CWall\<close> (axis-aligned boxes: maze walls,
  floor, ceiling, flag, and the body and head of every enemy, with the box/sphere
  overlap test \<open>hasIntersected\<close>), class \<open>CEnemy\<close> (a turret: two boxes, one
  bullet, a life counter and an \<open>alive\<close> flag; \<open>Update\<close> per frame, \<open>hasHit\<close> and
  \<open>hit\<close> for the player's bullet), the level (the character grid \<open>map\<close>, the
  position queries \<open>goable\<close> and \<open>win\<close>, the builders \<open>make_map\<close> and
  \<open>locate_enemy\<close>), and the per-frame callback \<open>Display\<close> together with the input
  handler \<open>WndProc\<close>, which share the player's state through globals
  (\<open>pos_x\<close>, \<open>pos_z\<close>, \<open>target_*\<close>, \<open>my_life\<close>, \<open>my_shoot\<close>, \<open>my_bullet\<close>).
  \<open>Display\<close> calls every living enemy's \<open>Update\<close> (which reads the player's
  position and may take one of the player's lives) and, while the player's bullet flies,
  its \<open>hasHit\<close> (which may consume that bullet); it ends the process on a win, and
  \<open>Update\<close> ends it on a loss.

  \<^bold>\<open>The library.\<close>
  \<^item> \<open>Prelude\<close>: the \<open>#define\<close> constants (lines 13--30); C's truncating
    \<open>double\<close>-to-\<open>int\<close> conversion \<open>c_trunc\<close>; bounds-checked array reads
    \<open>arr_read\<close> (\<open>None\<close> is an out-of-bounds access, undefined behaviour in C); the
    planar length \<open>hypot\<close>; the exit reasons \<open>halt\<close> (\<open>Lose\<close>, \<open>Win\<close>,
    \<open>Fault\<close>) and the faults \<open>ub\<close> the model makes explicit.
  \<^item> \<open>Sphere\<close>: record \<open>csphere\<close> and \<open>CSphere\<close>, \<open>setCenter\<close>,
    \<open>ballUpdate\<close>, \<open>setPower\<close>, \<open>setPowerY\<close>, \<open>getRadius\<close> (lines 77--169), and
    \<open>park\<close>, the parking of the idle player bullet in \<open>Display\<close> (lines
    654--657). Lemmas: field equations (collection \<open>sphere_simps\<close>), the radius
    invariant \<open>sphere_wf\<close>, straight-line motion over any run of frames, idempotent
    parking.
  \<^item> \<open>Wall\<close>: datatype \<open>d3dcolor\<close>, record \<open>cwall\<close> and \<open>CWall\<close>,
    \<open>wall_create\<close>, \<open>setColor\<close>, \<open>hasIntersected\<close>, \<open>setPosition\<close> (lines
    175--265), and \<open>clear_on_walls\<close>, the loop that consumes a bullet on any wall.
    Lemmas: \<open>hasIntersected\<close> equals the abstract test \<open>box_overlap\<close> (per-axis
    interval overlap), is monotone in the radius, symmetric about the box's centre and
    independent of the colour.
  \<^item> \<open>GridMap\<close>: \<open>game_map\<close> (lines 439--470) as a list of strings; \<open>map_at\<close>,
    the read of \<open>char map[30][31]\<close> (the NUL terminator included, anything outside
    the array a fault); the tile indices \<open>tile_row\<close>, \<open>tile_col\<close>; the four-probe
    short-circuit disjunction \<open>corner_test\<close> and the queries \<open>goable\<close>, \<open>win\<close>
    (lines 505--519); the coordinate formulas of \<open>make_map\<close> (\<open>cell_x\<close>,
    \<open>cell_z\<close>, \<open>spawn_x\<close>, \<open>spawn_z\<close>). Lemmas: the unrolled probes equal a loop
    \<open>probe_any\<close> over the probe list, the specifications of both queries, the tiles of
    wall footprints and of the spawn point.
  \<^item> \<open>Enemy\<close>: record \<open>cenemy\<close>, \<open>CEnemy\<close>, \<open>bullet_hits_player\<close>,
    \<open>reload\<close>, \<open>Update\<close>, \<open>hit\<close>, \<open>hasHit\<close> (lines 352--433), the colour
    arrays \<open>headHit\<close>, \<open>bodyHit\<close> (lines 40--41); the abstract machine of an
    enemy, the deterministic labelled transition system \<open>enemy_trans\<close> over
    \<open>enemy_state\<close> (\<open>EAlive h\<close>, \<open>EDead\<close>) and the outcomes \<open>shot\<close> (\<open>Miss\<close>,
    \<open>Body_hit\<close>, \<open>Head_shot\<close>) that \<open>shot_at\<close> reads off the box geometry
    (\<open>box_overlap\<close>), with the abstraction \<open>estate\<close>; the invariant \<open>enemy_inv\<close>.
    Lemmas: every branch of \<open>hasHit\<close> and \<open>Update\<close>, the refinement of
    \<open>hasHit\<close> into \<open>enemy_trans\<close> (the concrete hit takes the one transition the
    outcome selects), permanence of death, the damage and exit behaviour of
    \<open>Update\<close>, its aim, and the out-of-bounds colour reads of \<open>hit\<close>.
  \<^item> \<open>Level\<close>: the level globals as record \<open>level\<close>; the counting and filling
    scans of \<open>make_map\<close> and \<open>locate_enemy\<close> over the 900 cell indices
    (\<open>count_cells\<close>, \<open>fill_map\<close>, \<open>place_enemies\<close>, lines 472--503) with the
    arrays as lists filled from the last slot down; \<open>Cleanup\<close>'s loop (lines
    596--603). Lemmas: both builders succeed on a well-formed map, with one box or enemy
    per cell in reverse scan order and the spawn of the last \<open>'P'\<close> cell;
    \<open>Cleanup\<close> runs past the end of the wall array.
  \<^item> \<open>Player\<close>: the player's globals as record \<open>player\<close>; \<open>WM_MOUSEMOVE\<close> of
    \<open>WndProc\<close> (\<open>look\<close>, \<open>fire\<close>, \<open>mouse_move\<close>, lines 745--780) on 32-bit
    message words (\<open>LOWORD\<close>, \<open>HIWORD\<close>); the movement block of \<open>Display\<close>
    (\<open>move_vector\<close>, \<open>move\<close>, lines 667--695) with the keyboard as a predicate on
    virtual-key codes. Lemmas: the aim stays a unit vector off the vertical, firing
    launches the bullet at \<open>BULLETSPEED\<close> along the aim, a move is all or nothing
    with a step of exactly \<open>WALKSPEED\<close>, a placed position stays placed, and
    a frame without a net direction converts a NaN to \<open>int\<close>; the column of the
    cursor (\<open>LOWORD\<close> of \<open>lParam\<close>) turns the heading and its row (\<open>HIWORD\<close>) the
    elevation; the key-by-key direction of \<open>move_vector\<close> equals the closed
    form \<open>move_dir\<close> (forward times aim plus left times its perpendicular), whose
    length does not depend on the aim.
  \<^item> \<open>Frame\<close>: all globals as record \<open>world\<close> (extending \<open>player\<close>);
    \<open>Setup\<close> (lines 535--593); \<open>Display\<close> (lines 607--705) as the detection loop
    \<open>detect_fps\<close> (a \<open>partial_function (option)\<close>), \<open>bullet_walls\<close>,
    \<open>enemy_pass\<close>, \<open>frame_end\<close> and \<open>frame\<close>; the run of the game (\<open>WinMain\<close>:
    \<open>Setup\<close>, then frames and mouse messages in any order) as the inductive
    relation \<open>reach\<close>. Lemmas: the detection loop ends exactly for positive steps and
    never sets \<open>FPS\<close> for steps of a millisecond or more; the win test precedes the
    move; the loss comes on the frame whose hits exhaust the lives; dead enemies are never
    touched; every reachable world of the shipped map satisfies \<open>world_inv\<close> and
    reads the map in bounds (rule induction over \<open>reach\<close>).
  \<^item> \<open>Render\<close>: the Direct3D resources. Mesh pointers (\<open>NULL\<close> or a handle) on a
    heap of live meshes, the library calls \<open>D3DXCreateMesh\<close> (success decided by an
    oracle \<open>mesh_ok\<close> per request), \<open>Release\<close> and \<open>DrawSubset\<close> (faults
    \<open>res_err\<close>); \<open>create\<close>, \<open>destroy\<close>, \<open>draw\<close> of \<open>CSphere\<close>
    (lines 99--128) and \<open>CWall\<close> (lines 197--235); \<open>CLight\<close> (lines 271--346) with
    its static \<open>DWORD\<close> index counter, \<open>create\<close>, \<open>destroy\<close>, \<open>setLight\<close>
    on a device light table and \<open>draw\<close>; the scene of all mesh pointers (record
    \<open>scene\<close>), the creation requests of \<open>Setup\<close> in the source's order
    (\<open>level_meshes\<close>, \<open>CEnemy_meshes\<close>, \<open>enemy_meshes\<close>,
    \<open>setup_meshes\<close>), the draw calls of a \<open>Display\<close> frame (\<open>draw_scene\<close>,
    lines 627--659) and the releases of \<open>Cleanup\<close> (\<open>cleanup_meshes\<close>, lines
    596--603). Lemmas: the two scans of \<open>Setup\<close> fill every slot with a live mesh
    when Direct3D grants the requests (induction over the cell list with the slot index
    counting down); then every draw of a frame succeeds and the light is enabled in slot
    0; when only the enemies' requests fail \<open>Setup\<close> still succeeds and the frame
    draws through \<open>NULL\<close>; \<open>Cleanup\<close> releases exactly the floor, the visited
    wall slots and the light, so every other mesh leaks; \<open>destroy\<close> is idempotent; the heap stays well formed;
    the light indices wrap at \<open>2^32\<close>.
  \<^item> \<open>Window\<close>: the whole window procedure \<open>WndProc\<close> (lines 716--784) on the
    world and a record \<open>wnd\<close> of the window's state (the static \<open>wire\<close>, the fill
    mode, the window, \<open>WM_QUIT\<close>): \<open>wm_destroy\<close>, \<open>wm_keydown\<close> (escape
    calls \<open>DestroyWindow\<close>, which sends \<open>WM_DESTROY\<close>; return flips the fill
    mode), the mouse handler of \<open>Player\<close>; \<open>dispatch\<close> runs a list of messages in
    order. Lemmas: the procedure keeps the game invariant and never faults on a world
    that has it, the fill mode follows \<open>wire\<close> and return twice restores it, and any
    run containing escape ends with \<open>WM_QUIT\<close> posted.
  \<^item> \<open>Program\<close>: \<open>WinMain\<close> (lines 785--806) and the message loop
    \<open>d3d::EnterMsgLoop\<close> of \<open>d3dUtility\<close> (outside the sources, modelled as that
    file writes it: a pending message is dispatched, otherwise \<open>Display\<close> runs, and
    \<open>WM_QUIT\<close> ends the loop) over a list of events. Lemma: a loop run from a
    reachable world stays reachable, so the wall array keeps its \<open>wall_num\<close> slots;
    hence the shipped program never returns normally, and leaving the loop by escape
    always ends in \<open>Cleanup\<close>'s out-of-bounds access.

  \<^bold>\<open>Correspondence.\<close> A class is a record of its simulation state and a method a
  function from the old record to the new one; the globals a method touches are explicit
  arguments and results (\<open>Update\<close> takes the player's position and life and returns
  the new life; \<open>hasHit\<close> takes and returns \<open>my_shoot\<close>). \<open>exit(0)\<close> is the
  value \<open>Inl Lose\<close> or \<open>Inl Win\<close>; an undefined read, a NaN converted to
  \<open>int\<close>, or a NaN stored in the state is \<open>Inl (Fault _)\<close>; a wrong colour read
  out of range is the indeterminate colour \<open>None\<close>, since the program goes on.
  The source's evaluation order is kept: the walls before the player test in
  \<open>Update\<close>, the body before the head in \<open>hasHit\<close>, the four probes left to right
  with short circuit.

  \<^bold>\<open>Idealisations.\<close> \<open>double\<close> (and the \<open>float\<close> of \<open>D3DXVECTOR3\<close> and of
  the \<open>f\<close>-suffixed constants) is modelled by \<open>real\<close>: no rounding, so the
  theorems describe the exact-arithmetic behaviour of the code; the few places where IEEE
  arithmetic gives NaN (\<open>0/0\<close>) are faults of the model rather than values. Outside
  \<open>Render\<close> mesh creation is assumed to succeed (the game state does not depend on
  it); \<open>Render\<close> makes every request's outcome an input. A \<open>malloc\<close>'d array
  slot starts \<open>NULL\<close> in \<open>Render\<close> and as a placeholder in \<open>Level\<close>:
  the theorems show every slot is written before it is read.

  \<^bold>\<open>Bounds and fuel.\<close> No fuel is used. The scans run over the fixed list
  \<open>cells = [0 .. 899]\<close>; the enemy pass is structural recursion over the enemy list;
  the only unbounded loop, the frame-rate detection, is a \<open>partial_function (option)\<close>
  whose termination for positive steps is proved as such (\<open>detect_fps_terminates\<close>).
  The shipped map's facts (its spawn cell, its flag) are computed by \<open>simp\<close> or
  \<open>code_simp\<close> on the literal map.

  \<^bold>\<open>Not modelled.\<close> The picture itself (materials, colours of the light,
  matrices, the camera, render states; \<open>Render\<close> keeps only which mesh is drawn and
  which light slot is set), window and device set-up (\<open>InitD3D\<close> of
  \<open>d3dUtility\<close>, outside \<open>src/\<close>: its outcome is the argument
  \<open>init_ok\<close> of \<open>WinMain\<close>), the timer of \<open>d3d::EnterMsgLoop\<close> (the
  time step of each idle frame is an input of the event list), \<open>DefWindowProc\<close> and
  the rest of the window system: I/O with
  no simulation state. IEEE rounding is not modelled (see Idealisations).
\<close>

end
